theory Spec2Isabelle
  imports Complex_Main "HOL-Library.Product_Lexorder"
begin

section \<open>Python values and builtins used by the table engine\<close>

text \<open>
  A Python float is a finite value, an infinity or a NaN. The finite values are
  dyadic rationals; they are kept here as rationals, which is all that
  \<^verbatim>\<open>float.is_integer\<close> and \<^verbatim>\<open>int(f)\<close> look at.
\<close>

datatype pyfloat = Finite rat | PosInf | NegInf | NaN

text \<open>
  The value of a worksheet cell as \<^verbatim>\<open>iter_rows(values_only=True)\<close> yields it:
  \<^verbatim>\<open>None\<close>, a \<^verbatim>\<open>bool\<close>, an \<^verbatim>\<open>int\<close>, a \<^verbatim>\<open>float\<close>, or text. The importer
  looks at any other object (a date, say) only through \<^verbatim>\<open>str(v)\<close>, so such a
  cell is the \<open>CStr\<close> of that text.
\<close>

datatype cell = CNone | CBool bool | CInt int | CFloat pyfloat | CStr string

text \<open>
  An \<^verbatim>\<open>int\<close> object. \<^verbatim>\<open>bool\<close> is a subclass of \<^verbatim>\<open>int\<close>: \<^verbatim>\<open>True\<close> and \<^verbatim>\<open>False\<close>
  compare, add and hash as 1 and 0 and are stored by SQLite as 1 and 0, but print
  as \<^verbatim>\<open>True\<close> and \<^verbatim>\<open>False\<close>.
\<close>

datatype pyint = PInt int | PBool bool

fun int_val :: "pyint \<Rightarrow> int" where
  "int_val (PInt n) = n"
| "int_val (PBool b) = (if b then 1 else 0)"

text \<open>
  The two builtins whose results depend on IEEE rounding are parameters of the
  model: \<^verbatim>\<open>float(s)\<close> (\<open>None\<close> when it raises \<^verbatim>\<open>ValueError\<close>) and
  \<^verbatim>\<open>str(f)\<close> for a float.
\<close>

record py =
  float_of_str :: "string \<Rightarrow> pyfloat option"
  str_of_float :: "pyfloat \<Rightarrow> string"

fun is_integer :: "pyfloat \<Rightarrow> bool" where
  "is_integer (Finite q) = (of_int \<lfloor>q\<rfloor> = q)"
| "is_integer _ = False"

text \<open>\<^verbatim>\<open>int(f)\<close> truncates towards zero; it is only called on finite floats.\<close>

fun int_of_float :: "pyfloat \<Rightarrow> int" where
  "int_of_float (Finite q) = (if 0 \<le> q then \<lfloor>q\<rfloor> else \<lceil>q\<rceil>)"
| "int_of_float _ = 0"

text \<open>
  Text is a list of characters with the code points 0 to 255, the first 256 of
  Unicode. Among them \<^verbatim>\<open>str.strip\<close> removes the twelve that \<^verbatim>\<open>str.isspace\<close> accepts
  (the space, U+0009 to U+000D, U+001C to U+001F, U+0085 and U+00A0), and
  \<^verbatim>\<open>str.lower\<close> changes the letters A to Z and the thirty capital letters from
  U+00C0 to U+00DE (U+00D7, the multiplication sign, is none), each to the
  character 32 places on.
\<close>

definition is_space :: "char \<Rightarrow> bool" where
  "is_space c = (c \<in> set [CHR '' '', CHR 0x09, CHR 0x0A, CHR 0x0B, CHR 0x0C, CHR 0x0D,
                          CHR 0x1C, CHR 0x1D, CHR 0x1E, CHR 0x1F, CHR 0x85, CHR 0xA0])"

definition strip :: "string \<Rightarrow> string" where
  "strip s = rev (dropWhile is_space (rev (dropWhile is_space s)))"

definition lower_char :: "char \<Rightarrow> char" where
  "lower_char c =
     (case map_of (zip ''ABCDEFGHIJKLMNOPQRSTUVWXYZ'' ''abcdefghijklmnopqrstuvwxyz'') c of
        Some l \<Rightarrow> l
      | None \<Rightarrow>
          (case map_of
             (zip [CHR 0xC0, CHR 0xC1, CHR 0xC2, CHR 0xC3, CHR 0xC4, CHR 0xC5, CHR 0xC6, CHR 0xC7,
                   CHR 0xC8, CHR 0xC9, CHR 0xCA, CHR 0xCB, CHR 0xCC, CHR 0xCD, CHR 0xCE, CHR 0xCF,
                   CHR 0xD0, CHR 0xD1, CHR 0xD2, CHR 0xD3, CHR 0xD4, CHR 0xD5, CHR 0xD6,
                   CHR 0xD8, CHR 0xD9, CHR 0xDA, CHR 0xDB, CHR 0xDC, CHR 0xDD, CHR 0xDE]
                  [CHR 0xE0, CHR 0xE1, CHR 0xE2, CHR 0xE3, CHR 0xE4, CHR 0xE5, CHR 0xE6, CHR 0xE7,
                   CHR 0xE8, CHR 0xE9, CHR 0xEA, CHR 0xEB, CHR 0xEC, CHR 0xED, CHR 0xEE, CHR 0xEF,
                   CHR 0xF0, CHR 0xF1, CHR 0xF2, CHR 0xF3, CHR 0xF4, CHR 0xF5, CHR 0xF6,
                   CHR 0xF8, CHR 0xF9, CHR 0xFA, CHR 0xFB, CHR 0xFC, CHR 0xFD, CHR 0xFE]) c of
             Some l \<Rightarrow> l
           | None \<Rightarrow> c))"

definition lower :: "string \<Rightarrow> string" where
  "lower s = map lower_char s"

definition digit_char :: "nat \<Rightarrow> char" where
  "digit_char d = ''0123456789'' ! d"

function str_nat :: "nat \<Rightarrow> string" where
  "str_nat n = (if n < 10 then [digit_char n] else str_nat (n div 10) @ [digit_char (n mod 10)])"
  by pat_completeness auto
termination
  by (relation "measure id") auto

definition str_int :: "int \<Rightarrow> string" where
  "str_int i = (if i < 0 then CHR ''-'' # str_nat (nat (- i)) else str_nat (nat i))"

text \<open>What \<^verbatim>\<open>str\<close> and an f-string give for an \<^verbatim>\<open>int\<close> object.\<close>

fun str_pyint :: "pyint \<Rightarrow> string" where
  "str_pyint (PInt n) = str_int n"
| "str_pyint (PBool b) = (if b then ''True'' else ''False'')"

text \<open>\<^verbatim>\<open>str(v)\<close> of a cell value.\<close>

fun py_str :: "py \<Rightarrow> cell \<Rightarrow> string" where
  "py_str p CNone = ''None''"
| "py_str p (CBool b) = str_pyint (PBool b)"
| "py_str p (CInt n) = str_int n"
| "py_str p (CFloat f) = str_of_float p f"
| "py_str p (CStr s) = s"

section \<open>importer.py: cell coercions\<close>

fun norm_header :: "py \<Rightarrow> cell \<Rightarrow> string" where
  "norm_header p CNone = ''''"
| "norm_header p v = lower (strip (py_str p v))"

fun cell_str :: "py \<Rightarrow> cell \<Rightarrow> string" where
  "cell_str p CNone = ''''"
| "cell_str p v = strip (py_str p v)"

text \<open>
  \<^verbatim>\<open>_to_int\<close>: the \<^verbatim>\<open>try/except\<close> around \<^verbatim>\<open>float(s)\<close> turns the
  \<^verbatim>\<open>ValueError\<close> into \<^verbatim>\<open>None\<close>. A \<^verbatim>\<open>bool\<close> passes \<^verbatim>\<open>isinstance(v, int)\<close>
  and is returned as it is.
\<close>

fun to_int :: "py \<Rightarrow> cell \<Rightarrow> pyint option" where
  "to_int p CNone = None"
| "to_int p (CBool b) = Some (PBool b)"
| "to_int p (CInt n) = Some (PInt n)"
| "to_int p (CFloat f) = (if is_integer f then Some (PInt (int_of_float f)) else None)"
| "to_int p (CStr v) =
     (let s = strip v in
      if s = '''' then None
      else (case float_of_str p s of
              None \<Rightarrow> None
            | Some f \<Rightarrow> if is_integer f then Some (PInt (int_of_float f)) else None))"

lemma is_integer_iff: "is_integer f \<and> int_of_float f = n \<longleftrightarrow> f = Finite (of_int n)"
proof (cases f)
  case (Finite q)
  show ?thesis
  proof
    assume a: "is_integer f \<and> int_of_float f = n"
    then have fl: "of_int \<lfloor>q\<rfloor> = q" using Finite by simp
    then have "\<lceil>q\<rceil> = \<lfloor>q\<rfloor>" by (metis ceiling_of_int)
    with a Finite have "\<lfloor>q\<rfloor> = n" by (simp split: if_splits)
    with fl Finite show "f = Finite (of_int n)" by simp
  next
    assume "f = Finite (of_int n)"
    then show "is_integer f \<and> int_of_float f = n" by simp
  qed
qed simp_all

text \<open>
  C10. \<^verbatim>\<open>_to_int\<close> is total and returns an integer exactly for an integer (which
  it returns as it is, a \<^verbatim>\<open>bool\<close> included), for a float whose value is an integer
  \<open>n\<close> (zero fractional part), and for text whose trimmed form is not empty and
  parses as such a float, for both of which it returns \<open>n\<close>; for every other cell
  value (a blank cell, a fractional float, an infinity or NaN, empty or unparsable
  text, text that parses to a fractional float) it returns \<^verbatim>\<open>None\<close>.
\<close>

theorem to_int_exactly:
  "to_int p v = Some n \<longleftrightarrow>
     (\<exists>b. v = CBool b \<and> n = PBool b) \<or>
     (\<exists>i. n = PInt i \<and>
          (v = CInt i \<or> v = CFloat (Finite (of_int i)) \<or>
           (\<exists>s. v = CStr s \<and> strip s \<noteq> '''' \<and>
                float_of_str p (strip s) = Some (Finite (of_int i)))))"
proof (cases v)
  case CNone
  then show ?thesis by simp
next
  case (CBool b)
  then show ?thesis by auto
next
  case (CInt m)
  then show ?thesis by auto
next
  case (CFloat f)
  show ?thesis
  proof (cases n)
    case (PInt i)
    with CFloat show ?thesis using is_integer_iff [of f i] by auto
  next
    case (PBool b)
    with CFloat show ?thesis by auto
  qed
next
  case (CStr s)
  show ?thesis
  proof (cases "float_of_str p (strip s)")
    case None
    with CStr show ?thesis by (simp add: Let_def)
  next
    case (Some f)
    show ?thesis
    proof (cases n)
      case (PInt i)
      with CStr Some show ?thesis using is_integer_iff [of f i] by (auto simp: Let_def)
    next
      case (PBool b)
      with CStr Some show ?thesis by (auto simp: Let_def)
    qed
  qed
qed

section \<open>importer.py: reading a sheet\<close>

text \<open>
  A worksheet is the list of its rows, \<^verbatim>\<open>list(ws.iter_rows(values_only=True))\<close>, and a
  workbook the list of its sheets with their titles, in tab order. openpyxl yields
  every row at the full width of the sheet, padded with \<^verbatim>\<open>None\<close>; a row is kept
  here without its trailing padding, and reading a column beyond the cells kept
  gives the padding value.
\<close>

type_synonym row = "cell list"
type_synonym sheet = "row list"
type_synonym workbook = "(string \<times> sheet) list"

definition sheetnames :: "workbook \<Rightarrow> string list" where
  "sheetnames wb = map fst wb"

definition get_sheet :: "workbook \<Rightarrow> string \<Rightarrow> sheet option" where
  "get_sheet wb tab = map_of wb tab"

definition cell_at :: "row \<Rightarrow> nat \<Rightarrow> cell" where
  "cell_at r i = (if i < length r then r ! i else CNone)"

datatype exn = KeyError string | ValueError string | RuntimeError string | IndexError | DbError string

abbreviation ROLL_UNIFORM :: string where "ROLL_UNIFORM \<equiv> ''uniform''"
abbreviation ROLL_WEIGHT :: string where "ROLL_WEIGHT \<equiv> ''weight''"
abbreviation ROLL_RANGE :: string where "ROLL_RANGE \<equiv> ''range''"

datatype ImportError = ImportError (err_tab: string) (err_row: "nat option") (err_message: string)

record ImportCounts =
  encounter_types :: nat
  encounter_entries :: nat
  reward_types :: nat
  reward_entries :: nat
  regions :: nat

record entry =
  e_min :: "int option"
  e_max :: "int option"
  e_weight :: "int option"
  e_result :: string

type_synonym header_map = "string \<rightharpoonup> nat"
type_synonym data_rows = "(nat \<times> row) list"

fun build_header_map :: "py \<Rightarrow> cell list \<Rightarrow> nat \<Rightarrow> header_map \<Rightarrow> header_map" where
  "build_header_map p [] idx m = m"
| "build_header_map p (h # hs) idx m =
     (let key = norm_header p h in
      build_header_map p hs (Suc idx) (if key \<noteq> '''' \<and> m key = None then m(key \<mapsto> idx) else m))"

definition blank_row :: "py \<Rightarrow> row \<Rightarrow> bool" where
  "blank_row p r = list_all (\<lambda>c. c = CNone \<or> strip (py_str p c) = '''') r"

definition read_sheet_rows :: "py \<Rightarrow> sheet \<Rightarrow> header_map \<times> data_rows" where
  "read_sheet_rows p rows =
     (case rows of
        [] \<Rightarrow> (Map.empty, [])
      | header # rest \<Rightarrow>
          (build_header_map p header 0 Map.empty,
           filter (\<lambda>(i, r). \<not> blank_row p r) (zip [2 ..< 2 + length rest] rest)))"

section \<open>importer.py: roll mode and range validation\<close>

definition range_order_errors :: "py \<Rightarrow> string \<Rightarrow> nat \<Rightarrow> nat \<Rightarrow> data_rows \<Rightarrow> ImportError list" where
  "range_order_errors p tab cmin cmax data =
     concat (map (\<lambda>(row_no, r).
        (case (to_int p (cell_at r cmin), to_int p (cell_at r cmax)) of
           (Some mi, Some ma) \<Rightarrow>
             if int_val mi > int_val ma
             then [ImportError tab (Some row_no)
                     (''Invalid range: min '' @ str_pyint mi @ '' is greater than max '' @
                      str_pyint ma @ ''.'')]
             else []
         | _ \<Rightarrow> [])) data)"

definition weight_errors :: "py \<Rightarrow> string \<Rightarrow> nat \<Rightarrow> data_rows \<Rightarrow> ImportError list" where
  "weight_errors p tab cw data =
     concat (map (\<lambda>(row_no, r).
        (case to_int p (cell_at r cw) of
           None \<Rightarrow> []
         | Some w \<Rightarrow>
             if int_val w \<le> 0
             then [ImportError tab (Some row_no)
                     (''Invalid weight '' @ str_pyint w @ ''. Must be a positive integer.'')]
             else [])) data)"

definition detect_mode :: "py \<Rightarrow> string \<Rightarrow> header_map \<Rightarrow> data_rows \<Rightarrow> string \<times> ImportError list" where
  "detect_mode p tab hm data =
     (case (hm ''min'', hm ''max'') of
        (Some cmin, Some cmax) \<Rightarrow> (ROLL_RANGE, range_order_errors p tab cmin cmax data)
      | (None, None) \<Rightarrow>
          (case hm ''weight'' of
             Some cw \<Rightarrow> (ROLL_WEIGHT, weight_errors p tab cw data)
           | None \<Rightarrow> (ROLL_UNIFORM, []))
      | _ \<Rightarrow> (ROLL_RANGE,
                [ImportError tab None ''Range mode requires both 'min' and 'max' columns.'']))"

text \<open>
  \<^verbatim>\<open>header_map["min"]\<close> raises \<^verbatim>\<open>KeyError\<close> when the column is missing. The header
  map does not change during a loop over the data rows, so a loop that looks a
  column up in every iteration raises at its first iteration or never: the
  columns are resolved once, in the order the loop body reads them, and only when
  the loop has a row to run on.
\<close>

definition range_columns :: "header_map \<Rightarrow> exn + (nat \<times> nat)" where
  "range_columns hm =
     (case hm ''min'' of
        None \<Rightarrow> Inl (KeyError ''min'')
      | Some cmin \<Rightarrow>
          (case hm ''max'' of
             None \<Rightarrow> Inl (KeyError ''max'')
           | Some cmax \<Rightarrow> Inr (cmin, cmax)))"

text \<open>The \<^verbatim>\<open>ranges\<close> list of \<^verbatim>\<open>_validate_ranges\<close>: \<open>(min, max, row_no)\<close>.\<close>

definition int_ranges :: "py \<Rightarrow> nat \<Rightarrow> nat \<Rightarrow> data_rows \<Rightarrow> (pyint \<times> pyint \<times> nat) list" where
  "int_ranges p cmin cmax data =
     concat (map (\<lambda>(row_no, r).
        (case (to_int p (cell_at r cmin), to_int p (cell_at r cmax)) of
           (Some mi, Some ma) \<Rightarrow> [(mi, ma, row_no)]
         | _ \<Rightarrow> [])) data)"

text \<open>The sort key \<^verbatim>\<open>lambda x: (x[0], x[1])\<close>; the pairs compare as pairs of integers.\<close>

definition range_key :: "pyint \<times> pyint \<times> nat \<Rightarrow> int \<times> int" where
  "range_key x = (int_val (fst x), int_val (fst (snd x)))"

definition overlap_error ::
  "string \<Rightarrow> pyint \<times> pyint \<times> nat \<Rightarrow> pyint \<times> pyint \<times> nat \<Rightarrow> ImportError" where
  "overlap_error tab prev cur =
     (case (prev, cur) of ((prev_min, prev_max, prev_row), (cur_min, cur_max, cur_row)) \<Rightarrow>
        ImportError tab (Some cur_row)
          (''Overlapping ranges with row '' @ str_nat prev_row @ '': '' @
           str_pyint prev_min @ ''-'' @ str_pyint prev_max @ '' overlaps '' @
           str_pyint cur_min @ ''-'' @ str_pyint cur_max @ ''.''))"

text \<open>The loop over \<^verbatim>\<open>range(1, len(ranges))\<close>: each element against the one before it.\<close>

fun overlap_errors :: "string \<Rightarrow> (pyint \<times> pyint \<times> nat) list \<Rightarrow> ImportError list" where
  "overlap_errors tab (prev # cur # rest) =
     (if int_val (fst cur) \<le> int_val (fst (snd prev)) then [overlap_error tab prev cur] else []) @
     overlap_errors tab (cur # rest)"
| "overlap_errors tab _ = []"

text \<open>\<^verbatim>\<open>list.sort(key=...)\<close> is stable, as \<open>sort_key\<close> is.\<close>

definition validate_ranges :: "py \<Rightarrow> string \<Rightarrow> header_map \<Rightarrow> data_rows \<Rightarrow> exn + ImportError list" where
  "validate_ranges p tab hm data =
     (if data = [] then Inr []
      else (case range_columns hm of
              Inl e \<Rightarrow> Inl e
            | Inr (cmin, cmax) \<Rightarrow>
                Inr (overlap_errors tab (sort_key range_key (int_ranges p cmin cmax data)))))"

section \<open>importer.py: type and result sheets\<close>

text \<open>
  The entries of a sheet go to the store and nowhere else, and the store keeps an
  integer by its value (a \<^verbatim>\<open>bool\<close> as 0 or 1): an entry holds the values.
\<close>

definition range_entries :: "py \<Rightarrow> nat \<Rightarrow> nat \<Rightarrow> nat \<Rightarrow> data_rows \<Rightarrow> entry list" where
  "range_entries p ckey cmin cmax data =
     concat (map (\<lambda>(row_no, r).
        (let result = cell_str p (cell_at r ckey) in
         if result = '''' then []
         else (case (to_int p (cell_at r cmin), to_int p (cell_at r cmax)) of
                 (Some mi, Some ma) \<Rightarrow>
                   [\<lparr>e_min = Some (int_val mi), e_max = Some (int_val ma), e_weight = None,
                     e_result = result\<rparr>]
               | _ \<Rightarrow> []))) data)"

definition weight_entries :: "py \<Rightarrow> nat \<Rightarrow> nat \<Rightarrow> data_rows \<Rightarrow> entry list" where
  "weight_entries p ckey cw data =
     concat (map (\<lambda>(row_no, r).
        (let result = cell_str p (cell_at r ckey) in
         if result = '''' then []
         else (case to_int p (cell_at r cw) of
                 None \<Rightarrow> []
               | Some w \<Rightarrow>
                   if int_val w \<le> 0 then []
                   else [\<lparr>e_min = None, e_max = None, e_weight = Some (int_val w),
                          e_result = result\<rparr>]))) data)"

definition uniform_entries :: "py \<Rightarrow> nat \<Rightarrow> data_rows \<Rightarrow> entry list" where
  "uniform_entries p ckey data =
     concat (map (\<lambda>(row_no, r).
        (let result = cell_str p (cell_at r ckey) in
         if result = '''' then []
         else [\<lparr>e_min = None, e_max = None, e_weight = None, e_result = result\<rparr>])) data)"

definition weight_column :: "header_map \<Rightarrow> exn + nat" where
  "weight_column hm = (case hm ''weight'' of None \<Rightarrow> Inl (KeyError ''weight'') | Some cw \<Rightarrow> Inr cw)"

text \<open>
  A loop whose body looks columns up: \<open>reached\<close> says that some row gets as far as
  the lookup, \<open>cols\<close> is the lookup, \<open>body\<close> the result of the loop once the
  columns are known.
\<close>

definition if_reached :: "bool \<Rightarrow> exn + 'c \<Rightarrow> ('c \<Rightarrow> 'a list) \<Rightarrow> exn + 'a list" where
  "if_reached reached cols body =
     (if \<not> reached then Inr []
      else (case cols of Inl e \<Rightarrow> Inl e | Inr c \<Rightarrow> Inr (body c)))"

text \<open>
  The three mode branches shared by \<^verbatim>\<open>_parse_type_tab\<close>, \<^verbatim>\<open>_parse_result_tab\<close> and
  \<^verbatim>\<open>build_type_entries_from_sheet\<close>: the rows kept, by the column \<open>ckey\<close>
  (\<^verbatim>\<open>type\<close> or \<^verbatim>\<open>result\<close>) and the mode. The mode columns are looked up only for a
  row whose \<open>ckey\<close> cell is not blank.
\<close>

definition mode_entries :: "py \<Rightarrow> header_map \<Rightarrow> nat \<Rightarrow> string \<Rightarrow> data_rows \<Rightarrow> exn + entry list" where
  "mode_entries p hm ckey mode data =
     (let reached = (filter (\<lambda>(row_no, r). cell_str p (cell_at r ckey) \<noteq> '''') data \<noteq> []) in
      if mode = ROLL_RANGE
      then if_reached reached (range_columns hm) (\<lambda>(cmin, cmax). range_entries p ckey cmin cmax data)
      else if mode = ROLL_WEIGHT
      then if_reached reached (weight_column hm) (\<lambda>cw. weight_entries p ckey cw data)
      else Inr (uniform_entries p ckey data))"

text \<open>\<^verbatim>\<open>mr = max(mr, ma)\<close> over the rows kept, then \<^verbatim>\<open>mr if mr > 0 else None\<close>.\<close>

definition range_max_roll :: "entry list \<Rightarrow> int option" where
  "range_max_roll entries =
     (let mr = fold (\<lambda>e mr. case e_max e of Some ma \<Rightarrow> max mr ma | None \<Rightarrow> mr) entries 0
      in if mr > 0 then Some mr else None)"

text \<open>\<^verbatim>\<open>list(dict.fromkeys(types))\<close>: the first occurrence of each key, in order.\<close>

definition dict_fromkeys :: "'a list \<Rightarrow> 'a list" where
  "dict_fromkeys xs = fold (\<lambda>x acc. if x \<in> set acc then acc else acc @ [x]) xs []"

definition quote :: string where
  "quote = [CHR 0x27]"

definition parse_result_tab ::
  "py \<Rightarrow> workbook \<Rightarrow> string \<Rightarrow> exn + (string \<times> entry list \<times> int option \<times> ImportError list)" where
  "parse_result_tab p wb tab =
     (case get_sheet wb tab of
        None \<Rightarrow> Inr (ROLL_UNIFORM, [], None, [ImportError tab None ''Missing required tab.''])
      | Some ws \<Rightarrow>
          (let (hm, data) = read_sheet_rows p ws in
           case hm ''result'' of
             None \<Rightarrow> Inr (ROLL_UNIFORM, [], None,
                       [ImportError tab None (''Missing required column '' @ quote @ ''result'' @ quote @ ''.'')])
           | Some cres \<Rightarrow>
               (let (mode, mode_errs) = detect_mode p tab hm data in
                case (if mode = ROLL_RANGE then validate_ranges p tab hm data else Inr []) of
                  Inl e \<Rightarrow> Inl e
                | Inr range_errs \<Rightarrow>
                    (case mode_entries p hm cres mode data of
                       Inl e \<Rightarrow> Inl e
                     | Inr entries \<Rightarrow>
                         Inr (mode, entries,
                              (if mode = ROLL_RANGE then range_max_roll entries else None),
                              mode_errs @ range_errs @
                              (if entries = [] then [ImportError tab None ''No results found.''] else []))))))"

definition parse_type_tab ::
  "py \<Rightarrow> workbook \<Rightarrow> string \<Rightarrow> exn + (string \<times> string list \<times> int option \<times> ImportError list)" where
  "parse_type_tab p wb tab =
     (case get_sheet wb tab of
        None \<Rightarrow> Inr (ROLL_UNIFORM, [], None, [ImportError tab None ''Missing required tab.''])
      | Some ws \<Rightarrow>
          (let (hm, data) = read_sheet_rows p ws in
           case hm ''type'' of
             None \<Rightarrow> Inr (ROLL_UNIFORM, [], None,
                       [ImportError tab None (''Missing required column '' @ quote @ ''type'' @ quote @ ''.'')])
           | Some ctype \<Rightarrow>
               (let (mode, mode_errs) = detect_mode p tab hm data in
                case (if mode = ROLL_RANGE then validate_ranges p tab hm data else Inr []) of
                  Inl e \<Rightarrow> Inl e
                | Inr range_errs \<Rightarrow>
                    (case mode_entries p hm ctype mode data of
                       Inl e \<Rightarrow> Inl e
                     | Inr entries \<Rightarrow>
                         (let types = dict_fromkeys (map e_result entries) in
                          Inr (mode, types,
                               (if mode = ROLL_RANGE then range_max_roll entries else None),
                               mode_errs @ range_errs @
                               (if types = [] then [ImportError tab None ''No types found.''] else [])))))))"

section \<open>Facts about the sheet parsers\<close>

definition sheet_header :: "py \<Rightarrow> sheet \<Rightarrow> header_map" where
  "sheet_header p ws = fst (read_sheet_rows p ws)"
definition sheet_data :: "py \<Rightarrow> sheet \<Rightarrow> data_rows" where
  "sheet_data p ws = snd (read_sheet_rows p ws)"

lemma weight_entries_eq:
  "weight_entries p ckey cw data =
     map (\<lambda>(n, r). \<lparr>e_min = None, e_max = None,
                     e_weight = map_option int_val (to_int p (cell_at r cw)),
                     e_result = cell_str p (cell_at r ckey)\<rparr>)
       (filter (\<lambda>(n, r). cell_str p (cell_at r ckey) \<noteq> '''' \<and>
                          (\<exists>w. to_int p (cell_at r cw) = Some w \<and> 0 < int_val w)) data)"
  by (induction data) (auto simp: weight_entries_def Let_def split: option.splits if_splits)

lemma weight_errors_rows:
  "(\<exists>e\<in>set (weight_errors p tab cw data). err_row e = Some n) \<longleftrightarrow>
   (\<exists>r w. (n, r) \<in> set data \<and> to_int p (cell_at r cw) = Some w \<and> int_val w \<le> 0)"
proof (induction data)
  case Nil
  then show ?case by (simp add: weight_errors_def)
next
  case (Cons x data)
  obtain m r where x: "x = (m, r)" by (cases x)
  have step: "weight_errors p tab cw (x # data) =
      (case to_int p (cell_at r cw) of None \<Rightarrow> []
       | Some w \<Rightarrow> if int_val w \<le> 0 then [ImportError tab (Some m)
            (''Invalid weight '' @ str_pyint w @ ''. Must be a positive integer.'')] else [])
      @ weight_errors p tab cw data"
    by (simp add: weight_errors_def x)
  show ?case
  proof (cases "to_int p (cell_at r cw)")
    case None
    with step Cons x show ?thesis by auto
  next
    case (Some w)
    with step Cons x show ?thesis by (cases "int_val w \<le> 0") auto
  qed
qed

lemma range_entries_eq:
  "range_entries p ckey cmin cmax data =
     map (\<lambda>(n, r). \<lparr>e_min = map_option int_val (to_int p (cell_at r cmin)),
                     e_max = map_option int_val (to_int p (cell_at r cmax)),
                     e_weight = None, e_result = cell_str p (cell_at r ckey)\<rparr>)
       (filter (\<lambda>(n, r). cell_str p (cell_at r ckey) \<noteq> '''' \<and>
                          to_int p (cell_at r cmin) \<noteq> None \<and> to_int p (cell_at r cmax) \<noteq> None) data)"
  by (induction data) (auto simp: range_entries_def Let_def split: option.splits if_splits)

lemma range_order_errors_rows:
  "(\<exists>e\<in>set (range_order_errors p tab cmin cmax data). err_row e = Some n) \<longleftrightarrow>
   (\<exists>r mi ma. (n, r) \<in> set data \<and> to_int p (cell_at r cmin) = Some mi \<and>
               to_int p (cell_at r cmax) = Some ma \<and> int_val ma < int_val mi)"
proof (induction data)
  case Nil
  then show ?case by (simp add: range_order_errors_def)
next
  case (Cons x data)
  obtain m r where x: "x = (m, r)" by (cases x)
  have step: "range_order_errors p tab cmin cmax (x # data) =
      (case (to_int p (cell_at r cmin), to_int p (cell_at r cmax)) of
         (Some mi, Some ma) \<Rightarrow>
           if int_val mi > int_val ma
           then [ImportError tab (Some m)
                   (''Invalid range: min '' @ str_pyint mi @ '' is greater than max '' @
                    str_pyint ma @ ''.'')]
           else []
       | _ \<Rightarrow> [])
      @ range_order_errors p tab cmin cmax data"
    by (simp add: range_order_errors_def x)
  show ?case
  proof (cases "to_int p (cell_at r cmin)")
    case None
    with step Cons x show ?thesis by auto
  next
    case mi: (Some mi)
    show ?thesis
    proof (cases "to_int p (cell_at r cmax)")
      case None
      with mi step Cons x show ?thesis by auto
    next
      case (Some ma)
      with mi step Cons x show ?thesis by (cases "int_val mi > int_val ma") auto
    qed
  qed
qed

lemma int_ranges_eq:
  "int_ranges p cmin cmax data =
     map (\<lambda>(n, r). (the (to_int p (cell_at r cmin)), the (to_int p (cell_at r cmax)), n))
       (filter (\<lambda>(n, r). to_int p (cell_at r cmin) \<noteq> None \<and> to_int p (cell_at r cmax) \<noteq> None) data)"
  by (induction data) (auto simp: int_ranges_def split: option.splits)

lemma range_key_eq: "range_key = (\<lambda>(mi, ma, n). (int_val mi, int_val ma))"
  by (auto simp: range_key_def fun_eq_iff)

lemma overlap_errors_list:
  "overlap_errors tab xs =
     map (\<lambda>i. overlap_error tab (xs ! i) (xs ! Suc i))
       (filter (\<lambda>i. int_val (fst (xs ! Suc i)) \<le> int_val (fst (snd (xs ! i)))) [0 ..< length xs - 1])"
proof (induction tab xs rule: overlap_errors.induct)
  case (1 tab prev cur rest)
  let ?xs = "prev # cur # rest"
  have upt: "[0 ..< length ?xs - 1] = 0 # map Suc [0 ..< length (cur # rest) - 1]"
    by (simp add: upt_conv_Cons map_Suc_upt del: upt_Suc)
  show ?case
    unfolding upt by (simp add: 1 filter_map o_def del: upt_Suc)
qed simp_all

lemma Max_insert_max:
  "finite S \<Longrightarrow> Max (insert (max a b) S) = Max (insert a (insert b S))"
  for a :: int
  by (cases "S = {}") (simp_all add: max.assoc)

lemma fold_max_roll:
  "fold (\<lambda>e mr. case e_max e of Some ma \<Rightarrow> max mr ma | None \<Rightarrow> mr) es a =
     Max (insert a {m. \<exists>e\<in>set es. e_max e = Some m})"
proof (induction es arbitrary: a)
  case Nil
  then show ?case by simp
next
  case (Cons e es)
  have fin: "finite {m. \<exists>x\<in>set es. e_max x = Some m}"
    by (rule finite_subset [of _ "(\<lambda>e. the (e_max e)) ` set es"]) force+
  show ?case
  proof (cases "e_max e")
    case None
    then have "{m. \<exists>x\<in>set (e # es). e_max x = Some m} = {m. \<exists>x\<in>set es. e_max x = Some m}" by auto
    with None Cons show ?thesis by simp
  next
    case (Some ma)
    then have eq: "{m. \<exists>x\<in>set (e # es). e_max x = Some m} = insert ma {m. \<exists>x\<in>set es. e_max x = Some m}" by auto
    have "Max (insert (max a ma) {m. \<exists>x\<in>set es. e_max x = Some m}) = Max (insert a (insert ma {m. \<exists>x\<in>set es. e_max x = Some m}))"
      using fin by (rule Max_insert_max)
    with Some Cons eq show ?thesis by simp
  qed
qed

lemma range_max_roll_eq:
  "range_max_roll es =
     (if \<exists>e\<in>set es. \<exists>m. e_max e = Some m \<and> 0 < m
      then Some (Max {m. \<exists>e\<in>set es. e_max e = Some m}) else None)"
proof -
  let ?S = "{m. \<exists>e\<in>set es. e_max e = Some m}"
  have fin: "finite ?S"
    by (rule finite_subset [of _ "(\<lambda>e. the (e_max e)) ` set es"]) force+
  show ?thesis
  proof (cases "\<exists>e\<in>set es. \<exists>m. e_max e = Some m \<and> 0 < m")
    case True
    then obtain m where m: "m \<in> ?S" "0 < m" by blast
    then have ne: "?S \<noteq> {}" by blast
    have "0 < Max ?S" using m fin by (meson Max_ge less_le_trans)
    then have "Max (insert 0 ?S) = Max ?S" using fin ne by simp
    with True \<open>0 < Max ?S\<close> show ?thesis by (simp add: range_max_roll_def fold_max_roll Let_def)
  next
    case False
    then have "\<forall>m\<in>?S. m \<le> 0" by force
    then have "Max (insert 0 ?S) \<le> 0" using fin by simp
    with False show ?thesis by (simp add: range_max_roll_def fold_max_roll Let_def)
  qed
qed

lemma read_sheet_rows_split: "read_sheet_rows p ws = (sheet_header p ws, sheet_data p ws)"
  by (simp add: sheet_header_def sheet_data_def)

lemma mode_entries_weight:
  assumes "hm ''weight'' = Some cw"
  shows "mode_entries p hm ckey ROLL_WEIGHT data = Inr (weight_entries p ckey cw data)"
proof (cases "filter (\<lambda>(row_no, r). cell_str p (cell_at r ckey) \<noteq> '''') data = []")
  case True
  then have "filter (\<lambda>(n, r). cell_str p (cell_at r ckey) \<noteq> '''' \<and>
                 (\<exists>w. to_int p (cell_at r cw) = Some w \<and> 0 < int_val w)) data = []"
    by (auto simp: filter_empty_conv)
  then have "weight_entries p ckey cw data = []" by (simp add: weight_entries_eq)
  with True show ?thesis by (simp add: mode_entries_def if_reached_def)
next
  case False
  with assms show ?thesis by (simp add: mode_entries_def if_reached_def weight_column_def)
qed

lemma mode_entries_range:
  assumes "hm ''min'' = Some cmin" and "hm ''max'' = Some cmax"
  shows "mode_entries p hm ckey ROLL_RANGE data = Inr (range_entries p ckey cmin cmax data)"
proof (cases "filter (\<lambda>(row_no, r). cell_str p (cell_at r ckey) \<noteq> '''') data = []")
  case True
  then have "filter (\<lambda>(n, r). cell_str p (cell_at r ckey) \<noteq> '''' \<and>
                 to_int p (cell_at r cmin) \<noteq> None \<and> to_int p (cell_at r cmax) \<noteq> None) data = []"
    by (auto simp: filter_empty_conv)
  then have "range_entries p ckey cmin cmax data = []" by (simp add: range_entries_eq)
  with True show ?thesis by (simp add: mode_entries_def if_reached_def)
next
  case False
  with assms show ?thesis by (simp add: mode_entries_def if_reached_def range_columns_def)
qed

lemma mode_entries_uniform:
  "mode \<noteq> ROLL_RANGE \<Longrightarrow> mode \<noteq> ROLL_WEIGHT \<Longrightarrow>
   mode_entries p hm ckey mode data = Inr (uniform_entries p ckey data)"
  by (simp add: mode_entries_def)

lemma validate_ranges_cols:
  assumes "hm ''min'' = Some cmin" and "hm ''max'' = Some cmax"
  shows "validate_ranges p tab hm data =
           Inr (overlap_errors tab (sort_key range_key (int_ranges p cmin cmax data)))"
proof (cases "data = []")
  case True
  then show ?thesis by (simp add: validate_ranges_def int_ranges_def)
next
  case False
  with assms show ?thesis by (simp add: validate_ranges_def range_columns_def)
qed

lemma parse_result_tab_weight:
  assumes "get_sheet wb tab = Some ws"
    and "sheet_header p ws ''result'' = Some cres"
    and "sheet_header p ws ''min'' = None" and "sheet_header p ws ''max'' = None"
    and "sheet_header p ws ''weight'' = Some cw"
  shows "parse_result_tab p wb tab =
           Inr (ROLL_WEIGHT, weight_entries p cres cw (sheet_data p ws), None,
                weight_errors p tab cw (sheet_data p ws) @
                (if weight_entries p cres cw (sheet_data p ws) = []
                 then [ImportError tab None ''No results found.''] else []))"
  using assms
  by (simp add: parse_result_tab_def read_sheet_rows_split detect_mode_def mode_entries_weight)

lemma parse_result_tab_range:
  assumes "get_sheet wb tab = Some ws"
    and "sheet_header p ws ''result'' = Some cres"
    and "sheet_header p ws ''min'' = Some cmin" and "sheet_header p ws ''max'' = Some cmax"
  shows "parse_result_tab p wb tab =
           Inr (ROLL_RANGE, range_entries p cres cmin cmax (sheet_data p ws),
                range_max_roll (range_entries p cres cmin cmax (sheet_data p ws)),
                range_order_errors p tab cmin cmax (sheet_data p ws) @
                overlap_errors tab (sort_key range_key (int_ranges p cmin cmax (sheet_data p ws))) @
                (if range_entries p cres cmin cmax (sheet_data p ws) = []
                 then [ImportError tab None ''No results found.''] else []))"
  using assms
  by (simp add: parse_result_tab_def read_sheet_rows_split detect_mode_def mode_entries_range
      validate_ranges_cols)

lemma floor_7_2: "\<lfloor>7 / 2 :: rat\<rfloor> = 3"
  by (simp add: floor_eq_iff)

lemmas sheet_eval =
  get_sheet_def sheet_header_def sheet_data_def read_sheet_rows_def blank_row_def
  lower_def lower_char_def strip_def is_space_def cell_at_def

lemmas parse_eval =
  parse_result_tab_def parse_type_tab_def detect_mode_def validate_ranges_def range_columns_def
  mode_entries_def if_reached_def weight_column_def
  weight_entries_def weight_errors_def range_entries_def range_order_errors_def uniform_entries_def
  int_ranges_def range_key_def overlap_error_def range_max_roll_def dict_fromkeys_def quote_def
  str_int_def digit_char_def

section \<open>Weight-mode sheets\<close>

definition weight_example :: workbook where
  "weight_example =
     [(''Encounter - Combat'',
       [[CStr ''weight'', CStr ''result''],
        [CFloat (Finite (7 / 2)), CStr ''Goblin''],
        [CInt 2, CStr ''Orc''],
        [CInt 0, CStr ''Rat'']])]"

text \<open>
  C6, as the code has it. In a weight-mode result sheet (columns \<^verbatim>\<open>result\<close> and
  \<^verbatim>\<open>weight\<close>, neither \<^verbatim>\<open>min\<close> nor \<^verbatim>\<open>max\<close>) the sheet is parsed to the end,
  and the rows named by a validation error are exactly the data rows whose weight
  cell coerces to an integer that is not positive. A row whose weight cell does not
  coerce to an integer (blank, fractional, not a number) is named by no error. The
  entries are the rows with a result and a positive integer weight, in sheet order:
  every other row is left out.
\<close>

theorem weight_sheet_rows:
  assumes "get_sheet wb tab = Some ws"
    and "sheet_header p ws ''result'' = Some cres"
    and "sheet_header p ws ''min'' = None" and "sheet_header p ws ''max'' = None"
    and "sheet_header p ws ''weight'' = Some cw"
  shows "\<exists>errors.
      parse_result_tab p wb tab =
        Inr (ROLL_WEIGHT,
             map (\<lambda>(n, r). \<lparr>e_min = None, e_max = None, e_weight = map_option int_val (to_int p (cell_at r cw)),
                             e_result = cell_str p (cell_at r cres)\<rparr>)
               (filter (\<lambda>(n, r). cell_str p (cell_at r cres) \<noteq> '''' \<and>
                                  (\<exists>w. to_int p (cell_at r cw) = Some w \<and> 0 < int_val w))
                  (sheet_data p ws)),
             None, errors) \<and>
      (\<forall>n. (\<exists>e\<in>set errors. err_row e = Some n) \<longleftrightarrow>
           (\<exists>r w. (n, r) \<in> set (sheet_data p ws) \<and> to_int p (cell_at r cw) = Some w \<and> int_val w \<le> 0))"
proof -
  let ?data = "sheet_data p ws"
  let ?none = "if weight_entries p cres cw ?data = []
               then [ImportError tab None ''No results found.''] else []"
  have rows: "(\<exists>e\<in>set (weight_errors p tab cw ?data @ ?none). err_row e = Some n) \<longleftrightarrow>
      (\<exists>r w. (n, r) \<in> set ?data \<and> to_int p (cell_at r cw) = Some w \<and> int_val w \<le> 0)" for n
  proof -
    have "(\<exists>e\<in>set (weight_errors p tab cw ?data @ ?none). err_row e = Some n) \<longleftrightarrow>
          (\<exists>e\<in>set (weight_errors p tab cw ?data). err_row e = Some n)"
      by auto
    then show ?thesis by (simp only: weight_errors_rows)
  qed
  show ?thesis
    unfolding parse_result_tab_weight [OF assms] weight_entries_eq
    using rows unfolding weight_entries_eq by blast
qed

text \<open>The theorem at a sheet with a fractional, a positive and a zero weight.\<close>

theorem weight_sheet_rows_witness:
  "\<forall>p. get_sheet weight_example ''Encounter - Combat'' = Some (snd (hd weight_example)) \<and>
       sheet_header p (snd (hd weight_example)) ''result'' = Some 1 \<and>
       sheet_header p (snd (hd weight_example)) ''weight'' = Some 0 \<and>
       (\<exists>errors. parse_result_tab p weight_example ''Encounter - Combat'' =
          Inr (ROLL_WEIGHT,
               [\<lparr>e_min = None, e_max = None, e_weight = Some 2, e_result = ''Orc''\<rparr>], None, errors) \<and>
          (\<exists>e\<in>set errors. err_row e = Some 4) \<and> \<not> (\<exists>e\<in>set errors. err_row e = Some 2))"
proof
  fix p
  let ?ws = "snd (hd weight_example)"
  have h: "get_sheet weight_example ''Encounter - Combat'' = Some ?ws"
    "sheet_header p ?ws ''result'' = Some 1"
    "sheet_header p ?ws ''min'' = None" "sheet_header p ?ws ''max'' = None"
    "sheet_header p ?ws ''weight'' = Some 0"
    by (simp_all add: weight_example_def sheet_eval)
  have d: "sheet_data p ?ws =
      [(2, [CFloat (Finite (7 / 2)), CStr ''Goblin'']), (3, [CInt 2, CStr ''Orc'']),
       (4, [CInt 0, CStr ''Rat''])]"
    by (simp add: weight_example_def sheet_eval)
  from weight_sheet_rows [OF h] obtain errors where
    e: "parse_result_tab p weight_example ''Encounter - Combat'' =
        Inr (ROLL_WEIGHT,
             map (\<lambda>(n, r). \<lparr>e_min = None, e_max = None, e_weight = map_option int_val (to_int p (cell_at r 0)),
                             e_result = cell_str p (cell_at r 1)\<rparr>)
               (filter (\<lambda>(n, r). cell_str p (cell_at r 1) \<noteq> '''' \<and>
                                  (\<exists>w. to_int p (cell_at r 0) = Some w \<and> 0 < int_val w))
                  (sheet_data p ?ws)),
             None, errors)"
    and r: "\<forall>n. (\<exists>e\<in>set errors. err_row e = Some n) \<longleftrightarrow>
           (\<exists>r w. (n, r) \<in> set (sheet_data p ?ws) \<and> to_int p (cell_at r 0) = Some w \<and> int_val w \<le> 0)"
    by blast
  have "\<exists>e\<in>set errors. err_row e = Some 4" using r d by (simp add: cell_at_def)
  moreover have "\<not> (\<exists>e\<in>set errors. err_row e = Some 2)" using r d by (simp add: cell_at_def)
  moreover have "parse_result_tab p weight_example ''Encounter - Combat'' =
      Inr (ROLL_WEIGHT, [\<lparr>e_min = None, e_max = None, e_weight = Some 2, e_result = ''Orc''\<rparr>], None, errors)"
    using e d by (simp add: cell_at_def strip_def is_space_def floor_7_2)
  ultimately show "get_sheet weight_example ''Encounter - Combat'' = Some ?ws \<and>
       sheet_header p ?ws ''result'' = Some 1 \<and> sheet_header p ?ws ''weight'' = Some 0 \<and>
       (\<exists>errors. parse_result_tab p weight_example ''Encounter - Combat'' =
          Inr (ROLL_WEIGHT,
               [\<lparr>e_min = None, e_max = None, e_weight = Some 2, e_result = ''Orc''\<rparr>], None, errors) \<and>
          (\<exists>e\<in>set errors. err_row e = Some 4) \<and> \<not> (\<exists>e\<in>set errors. err_row e = Some 2))"
    using h by blast
qed

text \<open>
  C6 as stated fails: row 2 has the fractional weight 3.5, it is left out of the
  entries, and no validation error names it: the error list is empty.
\<close>

theorem weight_fraction_counterexample:
  "\<forall>p. parse_result_tab p
          [(''Reward - Combat'',
            [[CStr ''weight'', CStr ''result''],
             [CFloat (Finite (7 / 2)), CStr ''Gold''],
             [CInt 2, CStr ''Gems'']])] ''Reward - Combat'' =
        Inr (ROLL_WEIGHT,
             [\<lparr>e_min = None, e_max = None, e_weight = Some 2, e_result = ''Gems''\<rparr>], None, [])"
  by (simp add: sheet_eval parse_eval floor_7_2)

section \<open>Range-mode sheets\<close>

definition range_example :: workbook where
  "range_example =
     [(''Encounter - Combat'',
       [[CStr ''min'', CStr ''max'', CStr ''result''],
        [CInt 4, CInt 8, CStr ''Orc''],
        [CInt 1, CInt 5, CStr ''Goblin''],
        [CInt 1, CInt 3, CStr ''Rat'']])]"

lemma range_order_errors_eq:
  "range_order_errors p tab cmin cmax data =
     map (\<lambda>(n, r). ImportError tab (Some n)
            (''Invalid range: min '' @ str_pyint (the (to_int p (cell_at r cmin))) @
             '' is greater than max '' @ str_pyint (the (to_int p (cell_at r cmax))) @ ''.''))
       (filter (\<lambda>(n, r). to_int p (cell_at r cmin) \<noteq> None \<and> to_int p (cell_at r cmax) \<noteq> None \<and>
                          int_val (the (to_int p (cell_at r cmax))) <
                          int_val (the (to_int p (cell_at r cmin)))) data)"
  by (induction data) (auto simp: range_order_errors_def split: option.splits if_splits)

text \<open>
  C7, as the code has it. In a range-mode result sheet (columns \<^verbatim>\<open>result\<close>,
  \<^verbatim>\<open>min\<close> and \<^verbatim>\<open>max\<close>) the errors are, in this order, the range-order errors,
  the overlap errors and the error of a sheet without entries.

  \<^item> A range-order error is raised for exactly the data rows whose \<^verbatim>\<open>min\<close> and
    \<^verbatim>\<open>max\<close> both coerce to integers with \<open>min > max\<close>, in sheet order, each at
    its row; a row where either does not coerce is named by none.
  \<^item> The rows whose \<^verbatim>\<open>min\<close> and \<^verbatim>\<open>max\<close> both coerce to integers, those with
    \<open>min > max\<close> and those without a result among them, are sorted by the pair
    \<open>(min, max)\<close>, rows with equal pairs staying in sheet order. Every row of that
    order whose \<^verbatim>\<open>min\<close> is at most the \<^verbatim>\<open>max\<close> of the row before it, and no other,
    gets an overlap error: it stands at the later row of the two and its message
    names the row before and both ranges.
  \<^item> The entries are the rows with a result and integer \<^verbatim>\<open>min\<close> and \<^verbatim>\<open>max\<close>, in
    sheet order, and \<^verbatim>\<open>max_roll\<close> is the largest \<^verbatim>\<open>max\<close> among the entries when
    that is positive, and \<^verbatim>\<open>None\<close> otherwise.
\<close>

theorem range_sheet_rows:
  assumes "get_sheet wb tab = Some ws"
    and "sheet_header p ws ''result'' = Some cres"
    and "sheet_header p ws ''min'' = Some cmin" and "sheet_header p ws ''max'' = Some cmax"
  shows "\<exists>entries order_errs ranges none_errs.
      parse_result_tab p wb tab =
        Inr (ROLL_RANGE, entries,
             (if \<exists>e\<in>set entries. \<exists>m. e_max e = Some m \<and> 0 < m
              then Some (Max {m. \<exists>e\<in>set entries. e_max e = Some m}) else None),
             order_errs @
             map (\<lambda>i. case (ranges ! i, ranges ! Suc i) of
                         ((prev_min, prev_max, prev_row), (cur_min, cur_max, cur_row)) \<Rightarrow>
                           ImportError tab (Some cur_row)
                             (''Overlapping ranges with row '' @ str_nat prev_row @ '': '' @
                              str_pyint prev_min @ ''-'' @ str_pyint prev_max @ '' overlaps '' @
                              str_pyint cur_min @ ''-'' @ str_pyint cur_max @ ''.''))
               (filter (\<lambda>i. int_val (fst (ranges ! Suc i)) \<le> int_val (fst (snd (ranges ! i))))
                  [0 ..< length ranges - 1]) @
             none_errs) \<and>
      entries =
        map (\<lambda>(n, r). \<lparr>e_min = map_option int_val (to_int p (cell_at r cmin)),
                        e_max = map_option int_val (to_int p (cell_at r cmax)),
                        e_weight = None, e_result = cell_str p (cell_at r cres)\<rparr>)
          (filter (\<lambda>(n, r). cell_str p (cell_at r cres) \<noteq> '''' \<and>
                             to_int p (cell_at r cmin) \<noteq> None \<and> to_int p (cell_at r cmax) \<noteq> None)
             (sheet_data p ws)) \<and>
      order_errs =
        map (\<lambda>(n, r). ImportError tab (Some n)
               (''Invalid range: min '' @ str_pyint (the (to_int p (cell_at r cmin))) @
                '' is greater than max '' @ str_pyint (the (to_int p (cell_at r cmax))) @ ''.''))
          (filter (\<lambda>(n, r). to_int p (cell_at r cmin) \<noteq> None \<and> to_int p (cell_at r cmax) \<noteq> None \<and>
                             int_val (the (to_int p (cell_at r cmax))) <
                             int_val (the (to_int p (cell_at r cmin))))
             (sheet_data p ws)) \<and>
      (\<forall>n. (\<exists>e\<in>set order_errs. err_row e = Some n) \<longleftrightarrow>
           (\<exists>r mi ma. (n, r) \<in> set (sheet_data p ws) \<and> to_int p (cell_at r cmin) = Some mi \<and>
                       to_int p (cell_at r cmax) = Some ma \<and> int_val ma < int_val mi)) \<and>
      ranges =
        sort_key (\<lambda>(mi, ma, n). (int_val mi, int_val ma))
          (map (\<lambda>(n, r). (the (to_int p (cell_at r cmin)), the (to_int p (cell_at r cmax)), n))
             (filter (\<lambda>(n, r). to_int p (cell_at r cmin) \<noteq> None \<and> to_int p (cell_at r cmax) \<noteq> None)
                (sheet_data p ws))) \<and>
      sorted (map (\<lambda>(mi, ma, n). (int_val mi, int_val ma)) ranges) \<and>
      set ranges = {(mi, ma, n) |mi ma n r. (n, r) \<in> set (sheet_data p ws) \<and>
                      to_int p (cell_at r cmin) = Some mi \<and> to_int p (cell_at r cmax) = Some ma} \<and>
      none_errs = (if entries = [] then [ImportError tab None ''No results found.''] else [])"
proof -
  let ?data = "sheet_data p ws"
  let ?entries = "range_entries p cres cmin cmax ?data"
  let ?key = "\<lambda>(mi, ma, n). (int_val mi, int_val ma) :: int \<times> int"
  let ?ranges = "sort_key ?key (int_ranges p cmin cmax ?data)"
  let ?none = "if ?entries = [] then [ImportError tab None ''No results found.''] else []"
  have 1: "parse_result_tab p wb tab =
        Inr (ROLL_RANGE, ?entries,
             (if \<exists>e\<in>set ?entries. \<exists>m. e_max e = Some m \<and> 0 < m
              then Some (Max {m. \<exists>e\<in>set ?entries. e_max e = Some m}) else None),
             range_order_errors p tab cmin cmax ?data @
             map (\<lambda>i. case (?ranges ! i, ?ranges ! Suc i) of
                         ((prev_min, prev_max, prev_row), (cur_min, cur_max, cur_row)) \<Rightarrow>
                           ImportError tab (Some cur_row)
                             (''Overlapping ranges with row '' @ str_nat prev_row @ '': '' @
                              str_pyint prev_min @ ''-'' @ str_pyint prev_max @ '' overlaps '' @
                              str_pyint cur_min @ ''-'' @ str_pyint cur_max @ ''.''))
               (filter (\<lambda>i. int_val (fst (?ranges ! Suc i)) \<le> int_val (fst (snd (?ranges ! i))))
                  [0 ..< length ?ranges - 1]) @
             ?none)"
    unfolding parse_result_tab_range [OF assms] range_max_roll_eq overlap_errors_list
      range_key_eq overlap_error_def
    by (rule refl)
  have 2: "?entries =
        map (\<lambda>(n, r). \<lparr>e_min = map_option int_val (to_int p (cell_at r cmin)),
                        e_max = map_option int_val (to_int p (cell_at r cmax)),
                        e_weight = None, e_result = cell_str p (cell_at r cres)\<rparr>)
          (filter (\<lambda>(n, r). cell_str p (cell_at r cres) \<noteq> '''' \<and>
                             to_int p (cell_at r cmin) \<noteq> None \<and> to_int p (cell_at r cmax) \<noteq> None)
             ?data)"
    by (rule range_entries_eq)
  have 3: "\<forall>n. (\<exists>e\<in>set (range_order_errors p tab cmin cmax ?data). err_row e = Some n) \<longleftrightarrow>
           (\<exists>r mi ma. (n, r) \<in> set ?data \<and> to_int p (cell_at r cmin) = Some mi \<and>
                       to_int p (cell_at r cmax) = Some ma \<and> int_val ma < int_val mi)"
    by (simp add: range_order_errors_rows)
  have 4: "?ranges =
        sort_key ?key
          (map (\<lambda>(n, r). (the (to_int p (cell_at r cmin)), the (to_int p (cell_at r cmax)), n))
             (filter (\<lambda>(n, r). to_int p (cell_at r cmin) \<noteq> None \<and> to_int p (cell_at r cmax) \<noteq> None)
                ?data))"
    by (simp only: int_ranges_eq)
  have 5: "sorted (map ?key ?ranges)" by simp
  have 6: "set ?ranges = {(mi, ma, n) |mi ma n r. (n, r) \<in> set ?data \<and>
                   to_int p (cell_at r cmin) = Some mi \<and> to_int p (cell_at r cmax) = Some ma}"
  proof -
    have "set (int_ranges p cmin cmax data) =
        {(mi, ma, n) |mi ma n r. (n, r) \<in> set data \<and> to_int p (cell_at r cmin) = Some mi \<and>
                                to_int p (cell_at r cmax) = Some ma}" for data
      by (induction data) (auto simp: int_ranges_def split: option.splits)
    then show ?thesis by (simp only: set_sort)
  qed
  from 1 2 range_order_errors_eq 3 4 5 6 show ?thesis
    by (intro exI conjI) (assumption | rule refl)+
qed

text \<open>
  The theorem at a sheet with the ranges 4-8, 1-5 and 1-3 in the rows 2, 3 and 4:
  sorted they are 1-3, 1-5, 4-8, and each of the last two overlaps the one before.
\<close>

theorem range_sheet_rows_witness:
  "\<forall>p. get_sheet range_example ''Encounter - Combat'' = Some (snd (hd range_example)) \<and>
       sheet_header p (snd (hd range_example)) ''result'' = Some 2 \<and>
       sheet_header p (snd (hd range_example)) ''min'' = Some 0 \<and>
       sheet_header p (snd (hd range_example)) ''max'' = Some 1 \<and>
       parse_result_tab p range_example ''Encounter - Combat'' =
         Inr (ROLL_RANGE,
              [\<lparr>e_min = Some 4, e_max = Some 8, e_weight = None, e_result = ''Orc''\<rparr>,
               \<lparr>e_min = Some 1, e_max = Some 5, e_weight = None, e_result = ''Goblin''\<rparr>,
               \<lparr>e_min = Some 1, e_max = Some 3, e_weight = None, e_result = ''Rat''\<rparr>],
              Some 8,
              [ImportError ''Encounter - Combat'' (Some 3)
                 ''Overlapping ranges with row 4: 1-3 overlaps 1-5.'',
               ImportError ''Encounter - Combat'' (Some 2)
                 ''Overlapping ranges with row 3: 1-5 overlaps 4-8.''])"
proof
  fix p
  let ?ws = "snd (hd range_example)"
  let ?tab = "''Encounter - Combat''"
  let ?E = "[\<lparr>e_min = Some 4, e_max = Some 8, e_weight = None, e_result = ''Orc''\<rparr>,
            \<lparr>e_min = Some 1, e_max = Some 5, e_weight = None, e_result = ''Goblin''\<rparr>,
            \<lparr>e_min = Some 1, e_max = Some 3, e_weight = None, e_result = ''Rat''\<rparr>]"
  have h: "get_sheet range_example ?tab = Some ?ws"
    "sheet_header p ?ws ''result'' = Some 2"
    "sheet_header p ?ws ''min'' = Some 0" "sheet_header p ?ws ''max'' = Some 1"
    by (simp_all add: range_example_def sheet_eval)
  have d: "sheet_data p ?ws =
      [(2, [CInt 4, CInt 8, CStr ''Orc'']), (3, [CInt 1, CInt 5, CStr ''Goblin'']),
       (4, [CInt 1, CInt 3, CStr ''Rat''])]"
    by (simp add: range_example_def sheet_eval)
  from range_sheet_rows [OF h] obtain entries order_errs ranges none_errs where
    e: "parse_result_tab p range_example ?tab =
        Inr (ROLL_RANGE, entries,
             (if \<exists>e\<in>set entries. \<exists>m. e_max e = Some m \<and> 0 < m
              then Some (Max {m. \<exists>e\<in>set entries. e_max e = Some m}) else None),
             order_errs @
             map (\<lambda>i. case (ranges ! i, ranges ! Suc i) of
                         ((prev_min, prev_max, prev_row), (cur_min, cur_max, cur_row)) \<Rightarrow>
                           ImportError ?tab (Some cur_row)
                             (''Overlapping ranges with row '' @ str_nat prev_row @ '': '' @
                              str_pyint prev_min @ ''-'' @ str_pyint prev_max @ '' overlaps '' @
                              str_pyint cur_min @ ''-'' @ str_pyint cur_max @ ''.''))
               (filter (\<lambda>i. int_val (fst (ranges ! Suc i)) \<le> int_val (fst (snd (ranges ! i))))
                  [0 ..< length ranges - 1]) @
             none_errs)"
    and ent0: "entries =
        map (\<lambda>(n, r). \<lparr>e_min = map_option int_val (to_int p (cell_at r 0)),
                        e_max = map_option int_val (to_int p (cell_at r 1)),
                        e_weight = None, e_result = cell_str p (cell_at r 2)\<rparr>)
          (filter (\<lambda>(n, r). cell_str p (cell_at r 2) \<noteq> '''' \<and>
                             to_int p (cell_at r 0) \<noteq> None \<and> to_int p (cell_at r 1) \<noteq> None)
             (sheet_data p ?ws))"
    and ord0: "order_errs =
        map (\<lambda>(n, r). ImportError ?tab (Some n)
               (''Invalid range: min '' @ str_pyint (the (to_int p (cell_at r 0))) @
                '' is greater than max '' @ str_pyint (the (to_int p (cell_at r 1))) @ ''.''))
          (filter (\<lambda>(n, r). to_int p (cell_at r 0) \<noteq> None \<and> to_int p (cell_at r 1) \<noteq> None \<and>
                             int_val (the (to_int p (cell_at r 1))) <
                             int_val (the (to_int p (cell_at r 0))))
             (sheet_data p ?ws))"
    and rng0: "ranges =
        sort_key (\<lambda>(mi, ma, n). (int_val mi, int_val ma))
          (map (\<lambda>(n, r). (the (to_int p (cell_at r 0)), the (to_int p (cell_at r 1)), n))
             (filter (\<lambda>(n, r). to_int p (cell_at r 0) \<noteq> None \<and> to_int p (cell_at r 1) \<noteq> None)
                (sheet_data p ?ws)))"
    and non0: "none_errs = (if entries = [] then [ImportError ?tab None ''No results found.''] else [])"
    by (elim exE conjE) (rule that)
  have ent: "entries = ?E"
    unfolding ent0 d by (simp add: cell_at_def strip_def is_space_def)
  have ord: "order_errs = []"
    unfolding ord0 d by (simp add: cell_at_def)
  have rng: "ranges = [(PInt 1, PInt 3, 4), (PInt 1, PInt 5, 3), (PInt 4, PInt 8, 2)]"
    unfolding rng0 d by (simp add: cell_at_def)
  have non: "none_errs = []"
    unfolding non0 ent by simp
  have set_max: "{m. \<exists>e\<in>set ?E. e_max e = Some m} = {8, 5, 3}"
    by auto
  have mx: "(if \<exists>e\<in>set ?E. \<exists>m. e_max e = Some m \<and> 0 < m
              then Some (Max {m. \<exists>e\<in>set ?E. e_max e = Some m}) else None) = Some 8"
    unfolding set_max by simp
  have idx: "[0 ..< length [(PInt 1, PInt 3, 4 :: nat), (PInt 1, PInt 5, 3), (PInt 4, PInt 8, 2)] - 1] =
      [0, Suc 0]"
    by (simp add: upt_conv_Cons)
  have ovl: "map (\<lambda>i. case (ranges ! i, ranges ! Suc i) of
                         ((prev_min, prev_max, prev_row), (cur_min, cur_max, cur_row)) \<Rightarrow>
                           ImportError ?tab (Some cur_row)
                             (''Overlapping ranges with row '' @ str_nat prev_row @ '': '' @
                              str_pyint prev_min @ ''-'' @ str_pyint prev_max @ '' overlaps '' @
                              str_pyint cur_min @ ''-'' @ str_pyint cur_max @ ''.''))
               (filter (\<lambda>i. int_val (fst (ranges ! Suc i)) \<le> int_val (fst (snd (ranges ! i))))
                  [0 ..< length ranges - 1]) =
             [ImportError ?tab (Some 3) ''Overlapping ranges with row 4: 1-3 overlaps 1-5.'',
              ImportError ?tab (Some 2) ''Overlapping ranges with row 3: 1-5 overlaps 4-8.'']"
    unfolding rng idx by (simp add: str_int_def digit_char_def)
  have res: "parse_result_tab p range_example ?tab =
      Inr (ROLL_RANGE, ?E, Some 8,
           [ImportError ?tab (Some 3) ''Overlapping ranges with row 4: 1-3 overlaps 1-5.'',
            ImportError ?tab (Some 2) ''Overlapping ranges with row 3: 1-5 overlaps 4-8.''])"
    using e unfolding ovl ord non unfolding ent mx by simp
  show "get_sheet range_example ?tab = Some ?ws \<and>
       sheet_header p ?ws ''result'' = Some 2 \<and>
       sheet_header p ?ws ''min'' = Some 0 \<and>
       sheet_header p ?ws ''max'' = Some 1 \<and>
       parse_result_tab p range_example ?tab =
         Inr (ROLL_RANGE, ?E, Some 8,
              [ImportError ?tab (Some 3) ''Overlapping ranges with row 4: 1-3 overlaps 1-5.'',
               ImportError ?tab (Some 2) ''Overlapping ranges with row 3: 1-5 overlaps 4-8.''])"
    using h res by (intro conjI) assumption+
qed

text \<open>
  C7 as stated fails three times. A row whose \<^verbatim>\<open>min\<close> is the fraction 3.5 is no
  validation error: it is left out in silence. A sheet whose only range is
  \<open>-5..-1\<close> is accepted with \<^verbatim>\<open>max_roll = None\<close>, not with the largest \<^verbatim>\<open>max\<close>
  seen, \<open>-1\<close>. And not only the valid rows are sorted: with the ranges 1-10, 5-2
  and 6-9 in the rows 2, 3 and 4, the row 5-2 is sorted between the other two, so
  that 6-9 is compared with 5-2 and not with 1-10. No error names row 4, whose range
  lies inside that of row 2, and the overlap error at row 3 concerns a row that is
  not valid.
\<close>

theorem range_rows_counterexample:
  "\<forall>p. parse_result_tab p
          [(''Reward - Combat'',
            [[CStr ''min'', CStr ''max'', CStr ''result''],
             [CFloat (Finite (7 / 2)), CInt 5, CStr ''Gold''],
             [CInt 6, CInt 10, CStr ''Gems'']])] ''Reward - Combat'' =
        Inr (ROLL_RANGE,
             [\<lparr>e_min = Some 6, e_max = Some 10, e_weight = None, e_result = ''Gems''\<rparr>],
             Some 10, []) \<and>
       parse_result_tab p
          [(''Reward - Combat'',
            [[CStr ''min'', CStr ''max'', CStr ''result''],
             [CInt (- 5), CInt (- 1), CStr ''Gold'']])] ''Reward - Combat'' =
        Inr (ROLL_RANGE,
             [\<lparr>e_min = Some (- 5), e_max = Some (- 1), e_weight = None, e_result = ''Gold''\<rparr>],
             None, []) \<and>
       parse_result_tab p
          [(''Reward - Combat'',
            [[CStr ''min'', CStr ''max'', CStr ''result''],
             [CInt 1, CInt 10, CStr ''Gold''],
             [CInt 5, CInt 2, CStr ''Gems''],
             [CInt 6, CInt 9, CStr ''Pearls'']])] ''Reward - Combat'' =
        Inr (ROLL_RANGE,
             [\<lparr>e_min = Some 1, e_max = Some 10, e_weight = None, e_result = ''Gold''\<rparr>,
              \<lparr>e_min = Some 5, e_max = Some 2, e_weight = None, e_result = ''Gems''\<rparr>,
              \<lparr>e_min = Some 6, e_max = Some 9, e_weight = None, e_result = ''Pearls''\<rparr>],
             Some 10,
             [ImportError ''Reward - Combat'' (Some 3) ''Invalid range: min 5 is greater than max 2.'',
              ImportError ''Reward - Combat'' (Some 3)
                ''Overlapping ranges with row 2: 1-10 overlaps 5-2.''])"
  by (simp add: sheet_eval parse_eval floor_7_2)

section \<open>The store\<close>

text \<open>
  The four tables the engine reads and writes, each as the list of its rows. The
  schema file is not among the sources; the columns are those the SQL statements
  of the sources name.
\<close>

record region_row =
  rg_guild :: int
  rg_region_id :: int
  rg_name :: string
  rg_sort :: nat

record table_def_row =
  td_id :: nat
  td_guild :: int
  td_group :: string
  td_region :: "int option"
  td_type :: "string option"
  td_mode :: string
  td_max_roll :: "int option"
  td_updated :: string

record table_entry_row =
  te_table :: nat
  te_min :: "int option"
  te_max :: "int option"
  te_weight :: "int option"
  te_result :: string
  te_sort :: nat

record db =
  db_guild_config :: "(int \<times> string) list"
  db_region :: "region_row list"
  db_table_def :: "table_def_row list"
  db_table_entry :: "table_entry_row list"

text \<open>
  \<^verbatim>\<open>SELECT ... FROM table_def WHERE guild_id = ? AND group_key = ? AND region_id IS ?
  AND type_key IS ?\<close> with \<^verbatim>\<open>fetchone\<close>: the first matching row. \<^verbatim>\<open>IS\<close> compares
  \<^verbatim>\<open>NULL\<close> as a value, as equality on \<open>option\<close> does.
\<close>

definition fetch_table_def ::
  "db \<Rightarrow> int \<Rightarrow> string \<Rightarrow> int option \<Rightarrow> string option \<Rightarrow> table_def_row option" where
  "fetch_table_def d guild_id group_key region_id type_key =
     find (\<lambda>t. td_guild t = guild_id \<and> td_group t = group_key \<and>
                td_region t = region_id \<and> td_type t = type_key) (db_table_def d)"

text \<open>\<^verbatim>\<open>SELECT ... FROM table_entry WHERE table_id = ? ORDER BY sort_order ASC\<close>.\<close>

definition fetch_table_entries :: "db \<Rightarrow> nat \<Rightarrow> table_entry_row list" where
  "fetch_table_entries d table_id =
     sort_key te_sort (filter (\<lambda>e. te_table e = table_id) (db_table_entry d))"

section \<open>roller.py\<close>

text \<open>
  The random module is a parameter: \<open>randint g a b\<close> is what \<^verbatim>\<open>random.randint(a, b)\<close>
  returns and \<open>choice g n\<close> the index \<^verbatim>\<open>random.choice\<close> picks in a list of length
  \<open>n\<close>. \<^verbatim>\<open>randint\<close> raises \<^verbatim>\<open>ValueError\<close> on an empty range.
\<close>

record rnd =
  randint :: "int \<Rightarrow> int \<Rightarrow> int"
  choice :: "nat \<Rightarrow> nat"

definition fair :: "rnd \<Rightarrow> bool" where
  "fair g = (\<forall>a b. a \<le> b \<longrightarrow> a \<le> randint g a b \<and> randint g a b \<le> b)"

definition py_randint :: "rnd \<Rightarrow> int \<Rightarrow> int \<Rightarrow> exn + int" where
  "py_randint g a b =
     (if b < a then Inl (ValueError ''empty range for randrange()'') else Inr (randint g a b))"

fun pick_loop :: "(string \<times> int) list \<Rightarrow> int \<Rightarrow> int \<Rightarrow> string option" where
  "pick_loop [] r acc = None"
| "pick_loop ((val, w) # rest) r acc =
     (if r \<le> acc + w then Some val else pick_loop rest r (acc + w))"

definition pick_weighted :: "rnd \<Rightarrow> (string \<times> int) list \<Rightarrow> exn + string" where
  "pick_weighted g items =
     (let total = sum_list (map snd items) in
      case py_randint g 1 total of
        Inl e \<Rightarrow> Inl e
      | Inr r \<Rightarrow>
          (case pick_loop items r 0 of
             Some val \<Rightarrow> Inr val
           | None \<Rightarrow> (case items of [] \<Rightarrow> Inl IndexError | _ \<Rightarrow> Inr (fst (last items)))))"

definition weighted_items :: "table_entry_row list \<Rightarrow> (string \<times> int) list" where
  "weighted_items rows =
     concat (map (\<lambda>r. case te_weight r of None \<Rightarrow> [] | Some w \<Rightarrow> [(te_result r, w)]) rows)"

definition in_range :: "table_entry_row \<Rightarrow> int \<Rightarrow> bool" where
  "in_range r roll =
     (case (te_min r, te_max r) of
        (Some mi, Some ma) \<Rightarrow> mi \<le> roll \<and> roll \<le> ma
      | _ \<Rightarrow> False)"

definition str_opt_int :: "int option \<Rightarrow> string" where
  "str_opt_int v = (case v of None \<Rightarrow> ''None'' | Some i \<Rightarrow> str_int i)"

definition str_opt :: "string option \<Rightarrow> string" where
  "str_opt v = (case v of None \<Rightarrow> ''None'' | Some s \<Rightarrow> s)"

definition roll_from_table ::
  "rnd \<Rightarrow> db \<Rightarrow> int \<Rightarrow> string \<Rightarrow> int option \<Rightarrow> string option \<Rightarrow> exn + (string \<times> string)" where
  "roll_from_table g d guild_id group_key region_id type_key =
     (case fetch_table_def d guild_id group_key region_id type_key of
        None \<Rightarrow> Inl (RuntimeError (''Missing table: '' @ group_key @ '' region='' @
                        str_opt_int region_id @ '' type='' @ str_opt type_key))
      | Some t \<Rightarrow>
          (let rows = fetch_table_entries d (td_id t) in
           if rows = [] then Inl (RuntimeError ''Table has no entries'')
           else if td_mode t = ''uniform'' then
             (let i = choice g (length rows) in
              if i < length rows then Inr (te_result (rows ! i), ''uniform'') else Inl IndexError)
           else if td_mode t = ''weight'' then
             (let items = weighted_items rows in
              if items = [] then Inl (RuntimeError ''Weight mode table has no valid weights'')
              else (case pick_weighted g items of
                      Inl e \<Rightarrow> Inl e
                    | Inr result \<Rightarrow> Inr (result, ''weight'')))
           else if td_mode t = ''range'' then
             (case td_max_roll t of
                None \<Rightarrow> Inl (RuntimeError ''Range mode table missing max_roll'')
              | Some max_roll \<Rightarrow>
                  if max_roll = 0 then Inl (RuntimeError ''Range mode table missing max_roll'')
                  else (case py_randint g 1 max_roll of
                          Inl e \<Rightarrow> Inl e
                        | Inr roll \<Rightarrow>
                            (case find (\<lambda>r. in_range r roll) rows of
                               Some r \<Rightarrow> Inr (te_result r,
                                               ''range d'' @ str_int max_roll @ ''='' @ str_int roll)
                             | None \<Rightarrow> Inl (RuntimeError (''No range matched roll '' @ str_int roll)))))
           else Inl (RuntimeError (''Unknown roll_mode '' @ td_mode t))))"

section \<open>Rolls\<close>

text \<open>The cumulative weight of the first \<open>k\<close> candidates.\<close>

definition cum :: "(string \<times> int) list \<Rightarrow> nat \<Rightarrow> int" where
  "cum items k = sum_list (map snd (take k items))"

lemma cum_Cons: "cum ((v, w) # rest) (Suc k) = w + cum rest k"
  by (simp add: cum_def)

lemma cum_all: "cum items (length items) = sum_list (map snd items)"
  by (simp add: cum_def)

lemma pick_loop_Some:
  "pick_loop items r acc = Some v \<Longrightarrow>
     \<exists>i<length items. v = fst (items ! i) \<and> r \<le> acc + cum items (Suc i) \<and>
        (\<forall>j<i. acc + cum items (Suc j) < r)"
proof (induction items arbitrary: acc)
  case Nil
  then show ?case by simp
next
  case (Cons x rest)
  obtain val w where x: "x = (val, w)" by (cases x)
  show ?case
  proof (cases "r \<le> acc + w")
    case True
    with Cons.prems x have "v = val" by simp
    with True x have "0 < length (x # rest) \<and> v = fst ((x # rest) ! 0) \<and>
        r \<le> acc + cum (x # rest) (Suc 0) \<and> (\<forall>j<0. acc + cum (x # rest) (Suc j) < r)"
      by (simp add: cum_def)
    then show ?thesis by blast
  next
    case False
    with Cons.prems x have "pick_loop rest r (acc + w) = Some v" by simp
    from Cons.IH [OF this] obtain i where i: "i < length rest" "v = fst (rest ! i)"
      "r \<le> acc + w + cum rest (Suc i)" "\<forall>j<i. acc + w + cum rest (Suc j) < r" by blast
    have "\<forall>j<Suc i. acc + cum (x # rest) (Suc j) < r"
    proof (intro allI impI)
      fix j assume "j < Suc i"
      show "acc + cum (x # rest) (Suc j) < r"
      proof (cases j)
        case 0
        with False x show ?thesis by (simp add: cum_def)
      next
        case (Suc k)
        with \<open>j < Suc i\<close> i(4) have "acc + w + cum rest (Suc k) < r" by simp
        with Suc x show ?thesis by (simp add: cum_Cons add.assoc)
      qed
    qed
    moreover have "Suc i < length (x # rest)" "v = fst ((x # rest) ! Suc i)"
      "r \<le> acc + cum (x # rest) (Suc (Suc i))"
      using i x by (simp_all add: cum_Cons)
    ultimately show ?thesis by blast
  qed
qed

lemma pick_loop_None:
  "pick_loop items r acc = None \<Longrightarrow> acc + sum_list (map snd items) < r \<or> items = []"
proof (induction items arbitrary: acc)
  case Nil
  then show ?case by simp
next
  case (Cons x rest)
  obtain val w where x: "x = (val, w)" by (cases x)
  from Cons.prems x have nle: "\<not> r \<le> acc + w" and rest: "pick_loop rest r (acc + w) = None"
    by (simp_all split: if_splits)
  from Cons.IH [OF rest] show ?case
  proof
    assume "acc + w + sum_list (map snd rest) < r"
    with x show ?thesis by (simp add: add.assoc)
  next
    assume "rest = []"
    with nle x show ?thesis by simp
  qed
qed

lemma weighted_items_eq:
  "weighted_items rows =
     map (\<lambda>r. (te_result r, the (te_weight r))) (filter (\<lambda>r. te_weight r \<noteq> None) rows)"
  by (induction rows) (auto simp: weighted_items_def split: option.splits)

lemma pick_weighted_first:
  assumes "fair g" and "1 \<le> sum_list (map snd items)"
  shows "\<exists>i<length items. pick_weighted g items = Inr (fst (items ! i)) \<and>
           randint g 1 (sum_list (map snd items)) \<le> cum items (Suc i) \<and>
           (\<forall>j<i. cum items (Suc j) < randint g 1 (sum_list (map snd items)))"
proof -
  let ?total = "sum_list (map snd items)"
  let ?r = "randint g 1 ?total"
  from assms have r: "1 \<le> ?r" "?r \<le> ?total" by (simp_all add: fair_def)
  have ne: "items \<noteq> []" using assms(2) by auto
  have draw: "py_randint g 1 ?total = Inr ?r" using assms(2) by (simp add: py_randint_def)
  show ?thesis
  proof (cases "pick_loop items ?r 0")
    case None
    from pick_loop_None [OF None] ne r show ?thesis by simp
  next
    case (Some v)
    from pick_loop_Some [OF Some] obtain i where i: "i < length items" "v = fst (items ! i)"
      "?r \<le> cum items (Suc i)" "\<forall>j<i. cum items (Suc j) < ?r" by auto
    have "pick_weighted g items = Inr v"
      using draw Some by (simp add: pick_weighted_def)
    with i show ?thesis by blast
  qed
qed

lemma positive_total:
  fixes items :: "(string \<times> int) list"
  assumes "items \<noteq> []" and "\<forall>x\<in>set items. 0 < snd x"
  shows "1 \<le> sum_list (map snd items)"
proof -
  from assms obtain x rest where items: "items = x # rest" by (cases items) auto
  have "0 \<le> sum_list (map snd rest)" using assms(2) items
    by (intro sum_list_nonneg) auto
  moreover have "0 < snd x" using assms(2) items by simp
  ultimately show ?thesis using items by simp
qed

text \<open>The weight roll, given the rows fetched.\<close>

lemma weight_roll_rows:
  assumes "fetch_table_def d guild_id group_key region_id type_key = Some t"
    and "td_mode t = ''weight''"
    and "fetch_table_entries d (td_id t) = rows" and "rows \<noteq> []"
    and "fair g"
    and "\<forall>r\<in>set rows. \<forall>w. te_weight r = Some w \<longrightarrow> 0 < w"
  shows "let items = map (\<lambda>r. (te_result r, the (te_weight r))) (filter (\<lambda>r. te_weight r \<noteq> None) rows);
             total = sum_list (map snd items);
             draw = randint g 1 total
         in (items = [] \<longrightarrow>
               roll_from_table g d guild_id group_key region_id type_key =
                 Inl (RuntimeError ''Weight mode table has no valid weights'')) \<and>
            (items \<noteq> [] \<longrightarrow> 1 \<le> draw \<and> draw \<le> total \<and>
               (\<exists>i<length items.
                  roll_from_table g d guild_id group_key region_id type_key =
                    Inr (fst (items ! i), ''weight'') \<and>
                  draw \<le> cum items (Suc i) \<and> (\<forall>j<i. cum items (Suc j) < draw)))"
proof -
  let ?items = "weighted_items rows"
  let ?total = "sum_list (map snd ?items)"
  have roll: "roll_from_table g d guild_id group_key region_id type_key =
      (if ?items = [] then Inl (RuntimeError ''Weight mode table has no valid weights'')
       else (case pick_weighted g ?items of Inl e \<Rightarrow> Inl e | Inr result \<Rightarrow> Inr (result, ''weight'')))"
    using assms(1-4) by (simp add: roll_from_table_def Let_def)
  have pos: "\<forall>x\<in>set ?items. 0 < snd x"
    using assms(6) by (auto simp: weighted_items_eq)
  have 1: "?items = [] \<longrightarrow> roll_from_table g d guild_id group_key region_id type_key =
                 Inl (RuntimeError ''Weight mode table has no valid weights'')"
    using roll by simp
  have 2: "?items \<noteq> [] \<longrightarrow> 1 \<le> randint g 1 ?total \<and> randint g 1 ?total \<le> ?total \<and>
               (\<exists>i<length ?items.
                  roll_from_table g d guild_id group_key region_id type_key =
                    Inr (fst (?items ! i), ''weight'') \<and>
                  randint g 1 ?total \<le> cum ?items (Suc i) \<and> (\<forall>j<i. cum ?items (Suc j) < randint g 1 ?total))"
  proof
    assume ne: "?items \<noteq> []"
    then have tot: "1 \<le> ?total" using pos by (rule positive_total)
    from pick_weighted_first [OF assms(5) tot] obtain i where i: "i < length ?items"
      "pick_weighted g ?items = Inr (fst (?items ! i))"
      "randint g 1 ?total \<le> cum ?items (Suc i)" "\<forall>j<i. cum ?items (Suc j) < randint g 1 ?total"
      by blast
    have "roll_from_table g d guild_id group_key region_id type_key = Inr (fst (?items ! i), ''weight'')"
      using roll ne i(2) by simp
    moreover have "1 \<le> randint g 1 ?total \<and> randint g 1 ?total \<le> ?total"
      using assms(5) tot by (simp add: fair_def)
    ultimately show "1 \<le> randint g 1 ?total \<and> randint g 1 ?total \<le> ?total \<and>
               (\<exists>i<length ?items.
                  roll_from_table g d guild_id group_key region_id type_key =
                    Inr (fst (?items ! i), ''weight'') \<and>
                  randint g 1 ?total \<le> cum ?items (Suc i) \<and> (\<forall>j<i. cum ?items (Suc j) < randint g 1 ?total))"
      using i by blast
  qed
  from 1 2 show ?thesis unfolding Let_def weighted_items_eq [symmetric] by (rule conjI)
qed

lemma in_range_iff:
  "in_range r roll \<longleftrightarrow> (\<exists>mi ma. te_min r = Some mi \<and> te_max r = Some ma \<and> mi \<le> roll \<and> roll \<le> ma)"
  by (auto simp: in_range_def split: option.splits)

text \<open>The range roll, given the rows fetched.\<close>

lemma range_roll_rows:
  assumes "fetch_table_def d guild_id group_key region_id type_key = Some t"
    and "td_mode t = ''range''"
    and "fetch_table_entries d (td_id t) = rows" and "rows \<noteq> []"
    and "fair g"
    and "\<forall>m. td_max_roll t = Some m \<longrightarrow> 0 \<le> m"
  shows "(\<not> (\<exists>m. td_max_roll t = Some m \<and> 0 < m) \<longrightarrow>
            roll_from_table g d guild_id group_key region_id type_key =
              Inl (RuntimeError ''Range mode table missing max_roll'')) \<and>
         (\<forall>m. td_max_roll t = Some m \<and> 0 < m \<longrightarrow>
            (let draw = randint g 1 m in
             1 \<le> draw \<and> draw \<le> m \<and>
             ((\<exists>i<length rows.
                 (\<exists>mi ma. te_min (rows ! i) = Some mi \<and> te_max (rows ! i) = Some ma \<and>
                           mi \<le> draw \<and> draw \<le> ma) \<and>
                 (\<forall>j<i. \<not> in_range (rows ! j) draw) \<and>
                 roll_from_table g d guild_id group_key region_id type_key =
                   Inr (te_result (rows ! i), ''range d'' @ str_int m @ ''='' @ str_int draw)) \<or>
              ((\<forall>i<length rows. \<not> in_range (rows ! i) draw) \<and>
               roll_from_table g d guild_id group_key region_id type_key =
                 Inl (RuntimeError (''No range matched roll '' @ str_int draw))))))"
proof (intro conjI allI impI)
  assume "\<not> (\<exists>m. td_max_roll t = Some m \<and> 0 < m)"
  with assms(6) have "td_max_roll t = None \<or> td_max_roll t = Some 0"
    by (cases "td_max_roll t") force+
  then show "roll_from_table g d guild_id group_key region_id type_key =
      Inl (RuntimeError ''Range mode table missing max_roll'')"
    using assms(1-4) by (auto simp: roll_from_table_def Let_def)
next
  fix m assume m: "td_max_roll t = Some m \<and> 0 < m"
  let ?draw = "randint g 1 m"
  from m assms(5) have r: "1 \<le> ?draw" "?draw \<le> m" by (simp_all add: fair_def)
  have roll: "roll_from_table g d guild_id group_key region_id type_key =
      (case find (\<lambda>r. in_range r ?draw) rows of
         Some r \<Rightarrow> Inr (te_result r, ''range d'' @ str_int m @ ''='' @ str_int ?draw)
       | None \<Rightarrow> Inl (RuntimeError (''No range matched roll '' @ str_int ?draw)))"
    using assms(1-4) m by (simp add: roll_from_table_def Let_def py_randint_def)
  have "(\<exists>i<length rows.
                 (\<exists>mi ma. te_min (rows ! i) = Some mi \<and> te_max (rows ! i) = Some ma \<and>
                           mi \<le> ?draw \<and> ?draw \<le> ma) \<and>
                 (\<forall>j<i. \<not> in_range (rows ! j) ?draw) \<and>
                 roll_from_table g d guild_id group_key region_id type_key =
                   Inr (te_result (rows ! i), ''range d'' @ str_int m @ ''='' @ str_int ?draw)) \<or>
              ((\<forall>i<length rows. \<not> in_range (rows ! i) ?draw) \<and>
               roll_from_table g d guild_id group_key region_id type_key =
                 Inl (RuntimeError (''No range matched roll '' @ str_int ?draw)))"
  proof (cases "find (\<lambda>r. in_range r ?draw) rows")
    case None
    then have "\<forall>i<length rows. \<not> in_range (rows ! i) ?draw"
      by (auto simp: find_None_iff)
    with None roll show ?thesis by simp
  next
    case (Some x)
    then obtain i where i: "i < length rows" "in_range (rows ! i) ?draw" "x = rows ! i"
      "\<forall>j<i. \<not> in_range (rows ! j) ?draw"
      by (auto simp: find_Some_iff)
    from i(2) have "\<exists>mi ma. te_min (rows ! i) = Some mi \<and> te_max (rows ! i) = Some ma \<and>
                           mi \<le> ?draw \<and> ?draw \<le> ma"
      by (simp only: in_range_iff)
    moreover have "roll_from_table g d guild_id group_key region_id type_key =
                   Inr (te_result (rows ! i), ''range d'' @ str_int m @ ''='' @ str_int ?draw)"
      using roll Some i(3) by simp
    ultimately show ?thesis using i(1,4) by blast
  qed
  with r show "let draw = randint g 1 m in
             1 \<le> draw \<and> draw \<le> m \<and>
             ((\<exists>i<length rows.
                 (\<exists>mi ma. te_min (rows ! i) = Some mi \<and> te_max (rows ! i) = Some ma \<and>
                           mi \<le> draw \<and> draw \<le> ma) \<and>
                 (\<forall>j<i. \<not> in_range (rows ! j) draw) \<and>
                 roll_from_table g d guild_id group_key region_id type_key =
                   Inr (te_result (rows ! i), ''range d'' @ str_int m @ ''='' @ str_int draw)) \<or>
              ((\<forall>i<length rows. \<not> in_range (rows ! i) draw) \<and>
               roll_from_table g d guild_id group_key region_id type_key =
                 Inl (RuntimeError (''No range matched roll '' @ str_int draw))))"
    unfolding Let_def by (intro conjI)
qed

text \<open>
  C4. A roll on a weight-mode table. The rows are the entries of the table, which
  the roll reads sorted by \<^verbatim>\<open>sort_order\<close> (entries with equal \<^verbatim>\<open>sort_order\<close> stay
  as the store holds them); with no row the roll fails with "no entries". The
  candidates are the rows whose weight is not null, in that order; with no
  candidate the roll fails with "no valid weights"; otherwise the draw lies in
  \<open>[1, total]\<close>, \<open>total\<close> the sum of the candidates' weights, and the result is the
  first candidate whose cumulative weight reaches the draw, with the label
  \<^verbatim>\<open>weight\<close>. Stored weights are positive (\<open>reachable_weights\<close> below: the
  importer keeps no other), and the generator returns a value in the range it is
  asked for; which value it returns is left open.
\<close>

theorem weight_roll:
  assumes "find (\<lambda>t. td_guild t = guild_id \<and> td_group t = group_key \<and>
                     td_region t = region_id \<and> td_type t = type_key) (db_table_def d) = Some t"
    and "td_mode t = ''weight''"
    and "fair g"
    and "\<forall>r\<in>set (db_table_entry d). te_table r = td_id t \<longrightarrow> (\<forall>w. te_weight r = Some w \<longrightarrow> 0 < w)"
  shows "let rows = sort_key te_sort (filter (\<lambda>e. te_table e = td_id t) (db_table_entry d));
             items = map (\<lambda>r. (te_result r, the (te_weight r))) (filter (\<lambda>r. te_weight r \<noteq> None) rows);
             total = sum_list (map snd items);
             draw = randint g 1 total
         in (rows = [] \<longrightarrow>
               roll_from_table g d guild_id group_key region_id type_key =
                 Inl (RuntimeError ''Table has no entries'')) \<and>
            (rows \<noteq> [] \<and> items = [] \<longrightarrow>
               roll_from_table g d guild_id group_key region_id type_key =
                 Inl (RuntimeError ''Weight mode table has no valid weights'')) \<and>
            (items \<noteq> [] \<longrightarrow> 1 \<le> draw \<and> draw \<le> total \<and>
               (\<exists>i<length items.
                  roll_from_table g d guild_id group_key region_id type_key =
                    Inr (fst (items ! i), ''weight'') \<and>
                  draw \<le> sum_list (map snd (take (Suc i) items)) \<and>
                  (\<forall>j<i. sum_list (map snd (take (Suc j) items)) < draw)))"
proof -
  let ?rows = "sort_key te_sort (filter (\<lambda>e. te_table e = td_id t) (db_table_entry d))"
  have fetch: "fetch_table_entries d (td_id t) = ?rows"
    by (simp add: fetch_table_entries_def)
  have tab: "fetch_table_def d guild_id group_key region_id type_key = Some t"
    using assms(1) by (simp add: fetch_table_def_def)
  show ?thesis
  proof (cases "?rows = []")
    case True
    with tab fetch have "roll_from_table g d guild_id group_key region_id type_key =
        Inl (RuntimeError ''Table has no entries'')"
      by (simp add: roll_from_table_def Let_def)
    with True show ?thesis by (simp add: Let_def)
  next
    case False
    have pos: "\<forall>r\<in>set ?rows. \<forall>w. te_weight r = Some w \<longrightarrow> 0 < w"
      using assms(4) by auto
    from weight_roll_rows [OF tab assms(2) fetch False assms(3) pos] False
    show ?thesis unfolding Let_def cum_def by blast
  qed
qed

text \<open>
  C5. A roll on a range-mode table. The rows are the entries of the table sorted
  by \<^verbatim>\<open>sort_order\<close>, as above. Without a positive \<^verbatim>\<open>max_roll\<close> the roll fails with
  "missing max_roll"; otherwise the draw lies in \<open>[1, max_roll]\<close> and the result is
  the first row in that order whose \<open>[min_roll, max_roll]\<close> contains the draw, with
  the label \<^verbatim>\<open>range d<max_roll>=<draw>\<close>, or the failure "no range matched" when
  no row contains it. A stored \<^verbatim>\<open>max_roll\<close> is never negative
  (\<open>reachable_max_roll\<close> below: the importer stores a positive one or none).
\<close>

theorem range_roll:
  assumes "find (\<lambda>t. td_guild t = guild_id \<and> td_group t = group_key \<and>
                     td_region t = region_id \<and> td_type t = type_key) (db_table_def d) = Some t"
    and "td_mode t = ''range''"
    and "fair g"
    and "\<forall>m. td_max_roll t = Some m \<longrightarrow> 0 \<le> m"
  shows "let rows = sort_key te_sort (filter (\<lambda>e. te_table e = td_id t) (db_table_entry d)) in
         (rows = [] \<longrightarrow>
            roll_from_table g d guild_id group_key region_id type_key =
              Inl (RuntimeError ''Table has no entries'')) \<and>
         (rows \<noteq> [] \<and> \<not> (\<exists>m. td_max_roll t = Some m \<and> 0 < m) \<longrightarrow>
            roll_from_table g d guild_id group_key region_id type_key =
              Inl (RuntimeError ''Range mode table missing max_roll'')) \<and>
         (\<forall>m. rows \<noteq> [] \<and> td_max_roll t = Some m \<and> 0 < m \<longrightarrow>
            (let draw = randint g 1 m in
             1 \<le> draw \<and> draw \<le> m \<and>
             ((\<exists>i<length rows.
                 (\<exists>mi ma. te_min (rows ! i) = Some mi \<and> te_max (rows ! i) = Some ma \<and>
                           mi \<le> draw \<and> draw \<le> ma) \<and>
                 (\<forall>j<i. \<not> (\<exists>mi ma. te_min (rows ! j) = Some mi \<and> te_max (rows ! j) = Some ma \<and>
                                     mi \<le> draw \<and> draw \<le> ma)) \<and>
                 roll_from_table g d guild_id group_key region_id type_key =
                   Inr (te_result (rows ! i), ''range d'' @ str_int m @ ''='' @ str_int draw)) \<or>
              ((\<forall>i<length rows.
                  \<not> (\<exists>mi ma. te_min (rows ! i) = Some mi \<and> te_max (rows ! i) = Some ma \<and>
                              mi \<le> draw \<and> draw \<le> ma)) \<and>
               roll_from_table g d guild_id group_key region_id type_key =
                 Inl (RuntimeError (''No range matched roll '' @ str_int draw))))))"
proof -
  let ?rows = "sort_key te_sort (filter (\<lambda>e. te_table e = td_id t) (db_table_entry d))"
  have fetch: "fetch_table_entries d (td_id t) = ?rows"
    by (simp add: fetch_table_entries_def)
  have tab: "fetch_table_def d guild_id group_key region_id type_key = Some t"
    using assms(1) by (simp add: fetch_table_def_def)
  show ?thesis
  proof (cases "?rows = []")
    case True
    with tab fetch have "roll_from_table g d guild_id group_key region_id type_key =
        Inl (RuntimeError ''Table has no entries'')"
      by (simp add: roll_from_table_def Let_def)
    with True show ?thesis by (simp add: Let_def)
  next
    case False
    from range_roll_rows [OF tab assms(2) fetch False assms(3,4)] False
    show ?thesis unfolding Let_def in_range_iff by blast
  qed
qed

text \<open>
  A store whose entries are not held in their sort order: in both tables the entry
  with \<^verbatim>\<open>sort_order\<close> 1 comes before the one with \<^verbatim>\<open>sort_order\<close> 0.
\<close>

definition example_db :: db where
  "example_db =
     \<lparr>db_guild_config = [(7, ''2026-01-01'')],
      db_region = [],
      db_table_def =
        [\<lparr>td_id = 10, td_guild = 7, td_group = ''encounter_type'', td_region = None, td_type = None,
          td_mode = ''weight'', td_max_roll = None, td_updated = ''2026-01-01''\<rparr>,
         \<lparr>td_id = 20, td_guild = 7, td_group = ''encounter'', td_region = None,
          td_type = Some ''Combat'', td_mode = ''range'', td_max_roll = Some 10,
          td_updated = ''2026-01-01''\<rparr>],
      db_table_entry =
        [\<lparr>te_table = 10, te_min = None, te_max = None, te_weight = Some 1, te_result = ''Social'',
          te_sort = 1\<rparr>,
         \<lparr>te_table = 20, te_min = Some 7, te_max = Some 10, te_weight = None, te_result = ''Orc'',
          te_sort = 1\<rparr>,
         \<lparr>te_table = 10, te_min = None, te_max = None, te_weight = Some 3, te_result = ''Combat'',
          te_sort = 0\<rparr>,
         \<lparr>te_table = 20, te_min = Some 1, te_max = Some 8, te_weight = None, te_result = ''Goblin'',
          te_sort = 0\<rparr>]\<rparr>"

text \<open>A generator that draws \<open>k\<close> whenever \<open>k\<close> is in the range asked for.\<close>

definition drawing :: "int \<Rightarrow> rnd" where
  "drawing k = \<lparr>randint = (\<lambda>a b. max a (min b k)), choice = (\<lambda>n. 0)\<rparr>"

lemma fair_drawing: "fair (drawing k)"
  by (simp add: fair_def drawing_def)

lemma example_weight_rows:
  "sort_key te_sort (filter (\<lambda>e. te_table e = 10) (db_table_entry example_db)) =
     [\<lparr>te_table = 10, te_min = None, te_max = None, te_weight = Some 3, te_result = ''Combat'',
       te_sort = 0\<rparr>,
      \<lparr>te_table = 10, te_min = None, te_max = None, te_weight = Some 1, te_result = ''Social'',
       te_sort = 1\<rparr>]"
  by (simp add: example_db_def)

lemma example_range_rows:
  "sort_key te_sort (filter (\<lambda>e. te_table e = 20) (db_table_entry example_db)) =
     [\<lparr>te_table = 20, te_min = Some 1, te_max = Some 8, te_weight = None, te_result = ''Goblin'',
       te_sort = 0\<rparr>,
      \<lparr>te_table = 20, te_min = Some 7, te_max = Some 10, te_weight = None, te_result = ''Orc'',
       te_sort = 1\<rparr>]"
  by (simp add: example_db_def)

text \<open>
  The weight roll at the draw 4 of 4. The candidates in sort order are Combat, of
  weight 3, and Social, of weight 1: the draw falls on the second.
\<close>

theorem weight_roll_witness:
  "fair (drawing 4) \<and>
   fetch_table_def example_db 7 ''encounter_type'' None None = Some (hd (db_table_def example_db)) \<and>
   td_mode (hd (db_table_def example_db)) = ''weight'' \<and>
   roll_from_table (drawing 4) example_db 7 ''encounter_type'' None None = Inr (''Social'', ''weight'')"
proof -
  let ?t = "hd (db_table_def example_db)"
  let ?items = "[(''Combat'', 3), (''Social'', 1 :: int)]"
  let ?roll = "roll_from_table (drawing 4) example_db 7 ''encounter_type'' None None"
  have h1: "fetch_table_def example_db 7 ''encounter_type'' None None = Some ?t"
    by (simp add: fetch_table_def_def example_db_def)
  have h2: "td_mode ?t = ''weight''" by (simp add: example_db_def)
  have id: "td_id ?t = 10" by (simp add: example_db_def)
  have h4: "\<forall>r\<in>set (db_table_entry example_db).
      te_table r = td_id ?t \<longrightarrow> (\<forall>w. te_weight r = Some w \<longrightarrow> 0 < w)"
    by (simp add: example_db_def)
  have items: "map (\<lambda>r. (te_result r, the (te_weight r)))
      (filter (\<lambda>r. te_weight r \<noteq> None)
         (sort_key te_sort (filter (\<lambda>e. te_table e = 10) (db_table_entry example_db)))) = ?items"
    by (simp add: example_weight_rows)
  have draw: "randint (drawing 4) 1 (sum_list (map snd ?items)) = 4"
    by (simp add: drawing_def)
  have ne: "?items \<noteq> []" by simp
  from weight_roll [OF h1 [unfolded fetch_table_def_def] h2 fair_drawing [of 4] h4]
  have "?items \<noteq> [] \<longrightarrow> 1 \<le> (4 :: int) \<and> 4 \<le> sum_list (map snd ?items) \<and>
        (\<exists>i<length ?items. ?roll = Inr (fst (?items ! i), ''weight'') \<and>
            4 \<le> sum_list (map snd (take (Suc i) ?items)) \<and>
            (\<forall>j<i. sum_list (map snd (take (Suc j) ?items)) < 4))"
    unfolding Let_def id items draw by (elim conjE)
  with ne obtain i where i: "i < length ?items" "?roll = Inr (fst (?items ! i), ''weight'')"
    "4 \<le> sum_list (map snd (take (Suc i) ?items))"
    by blast
  have "i \<noteq> 0"
  proof
    assume "i = 0"
    with i(3) show False by simp
  qed
  moreover have "i < 2" using i(1) by simp
  ultimately have "i = 1" by simp
  with i(2) have "?roll = Inr (''Social'', ''weight'')" by simp
  with h1 h2 fair_drawing [of 4] show ?thesis by (intro conjI)
qed

lemma str_int_10: "str_int 10 = ''10''"
  by (simp add: str_int_def digit_char_def)

lemma str_int_8: "str_int 8 = ''8''"
  by (simp add: str_int_def digit_char_def)

text \<open>
  The range roll at the draw 8 of 10. Both ranges, 1-8 and 7-10, contain the draw:
  the result is the entry that comes first in sort order.
\<close>

theorem range_roll_witness:
  "fair (drawing 8) \<and>
   fetch_table_def example_db 7 ''encounter'' None (Some ''Combat'') =
     Some (last (db_table_def example_db)) \<and>
   td_mode (last (db_table_def example_db)) = ''range'' \<and>
   td_max_roll (last (db_table_def example_db)) = Some 10 \<and>
   roll_from_table (drawing 8) example_db 7 ''encounter'' None (Some ''Combat'') =
     Inr (''Goblin'', ''range d10=8'')"
proof -
  let ?t = "last (db_table_def example_db)"
  let ?rows = "sort_key te_sort (filter (\<lambda>e. te_table e = 20) (db_table_entry example_db))"
  let ?roll = "roll_from_table (drawing 8) example_db 7 ''encounter'' None (Some ''Combat'')"
  let ?in = "\<lambda>r (draw :: int). \<exists>mi ma. te_min r = Some mi \<and> te_max r = Some ma \<and> mi \<le> draw \<and> draw \<le> ma"
  have h1: "fetch_table_def example_db 7 ''encounter'' None (Some ''Combat'') = Some ?t"
    by (simp add: fetch_table_def_def example_db_def)
  have h2: "td_mode ?t = ''range''" by (simp add: example_db_def)
  have id: "td_id ?t = 20" by (simp add: example_db_def)
  have mr: "td_max_roll ?t = Some 10" by (simp add: example_db_def)
  have h4: "\<forall>m. td_max_roll ?t = Some m \<longrightarrow> 0 \<le> m" by (simp add: mr)
  have draw: "randint (drawing 8) 1 10 = 8" by (simp add: drawing_def)
  have label: "''range d'' @ str_int 10 @ ''='' @ str_int 8 = ''range d10=8''"
    by (simp add: str_int_10 str_int_8)
  have goblin: "?in (?rows ! 0) 8" by (simp add: example_range_rows)
  have ne: "?rows \<noteq> []" by (simp add: example_range_rows)
  from range_roll [OF h1 [unfolded fetch_table_def_def] h2 fair_drawing [of 8] h4]
  have "\<forall>m. ?rows \<noteq> [] \<and> td_max_roll ?t = Some m \<and> 0 < m \<longrightarrow>
            (let draw = randint (drawing 8) 1 m in
             1 \<le> draw \<and> draw \<le> m \<and>
             ((\<exists>i<length ?rows. ?in (?rows ! i) draw \<and> (\<forall>j<i. \<not> ?in (?rows ! j) draw) \<and>
                 ?roll = Inr (te_result (?rows ! i), ''range d'' @ str_int m @ ''='' @ str_int draw)) \<or>
              ((\<forall>i<length ?rows. \<not> ?in (?rows ! i) draw) \<and>
               ?roll = Inl (RuntimeError (''No range matched roll '' @ str_int draw)))))"
    unfolding Let_def id by (elim conjE)
  then have "let draw = randint (drawing 8) 1 10 in
             1 \<le> draw \<and> draw \<le> 10 \<and>
             ((\<exists>i<length ?rows. ?in (?rows ! i) draw \<and> (\<forall>j<i. \<not> ?in (?rows ! j) draw) \<and>
                 ?roll = Inr (te_result (?rows ! i), ''range d'' @ str_int 10 @ ''='' @ str_int draw)) \<or>
              ((\<forall>i<length ?rows. \<not> ?in (?rows ! i) draw) \<and>
               ?roll = Inl (RuntimeError (''No range matched roll '' @ str_int draw))))"
    using mr ne by simp
  then have alt: "(\<exists>i<length ?rows. ?in (?rows ! i) 8 \<and> (\<forall>j<i. \<not> ?in (?rows ! j) 8) \<and>
                 ?roll = Inr (te_result (?rows ! i), ''range d10=8'')) \<or>
              (\<forall>i<length ?rows. \<not> ?in (?rows ! i) 8)"
    unfolding Let_def draw label by blast
  have len: "length ?rows = 2" by (simp add: example_range_rows)
  from alt have "?roll = Inr (''Goblin'', ''range d10=8'')"
  proof
    assume "\<exists>i<length ?rows. ?in (?rows ! i) 8 \<and> (\<forall>j<i. \<not> ?in (?rows ! j) 8) \<and>
                 ?roll = Inr (te_result (?rows ! i), ''range d10=8'')"
    then obtain i where i: "i < length ?rows" "\<forall>j<i. \<not> ?in (?rows ! j) 8"
      "?roll = Inr (te_result (?rows ! i), ''range d10=8'')" by blast
    have "i = 0"
    proof (rule ccontr)
      assume "i \<noteq> 0"
      then have "0 < i" by simp
      with i(2) goblin show False by blast
    qed
    with i(3) show ?thesis by (simp add: example_range_rows)
  next
    assume "\<forall>i<length ?rows. \<not> ?in (?rows ! i) 8"
    with goblin len show ?thesis by (metis zero_less_numeral)
  qed
  with h1 h2 mr fair_drawing [of 8] show ?thesis by (intro conjI)
qed

section \<open>importer.py: the Regions sheet and the tab names\<close>

text \<open>
  The loop of \<^verbatim>\<open>_parse_regions_tab\<close>. The set \<^verbatim>\<open>seen\<close> holds the ids of the regions
  kept so far, and membership in a set of integers goes by value.
\<close>

fun regions_loop ::
  "py \<Rightarrow> nat \<Rightarrow> nat \<Rightarrow> data_rows \<Rightarrow> (pyint \<times> string) list \<Rightarrow> ImportError list \<Rightarrow>
   (pyint \<times> string) list \<times> ImportError list" where
  "regions_loop p cid cname [] regs errs = (regs, errs)"
| "regions_loop p cid cname ((row_no, r) # rest) regs errs =
     (let name = cell_str p (cell_at r cname) in
      case to_int p (cell_at r cid) of
        None \<Rightarrow>
          regions_loop p cid cname rest regs
            (errs @ [ImportError ''Regions'' (Some row_no) ''region_id must be an integer.''])
      | Some rid \<Rightarrow>
          if int_val rid \<le> 0 then
            regions_loop p cid cname rest regs
              (errs @ [ImportError ''Regions'' (Some row_no) ''region_id must be a positive integer.''])
          else if name = '''' then
            regions_loop p cid cname rest regs
              (errs @ [ImportError ''Regions'' (Some row_no) ''region_name is required.''])
          else if int_val rid \<in> (int_val \<circ> fst) ` set regs then
            regions_loop p cid cname rest regs
              (errs @ [ImportError ''Regions'' (Some row_no)
                         (''Duplicate region_id '' @ str_pyint rid @ ''.'')])
          else regions_loop p cid cname rest (regs @ [(rid, name)]) errs)"

definition parse_regions_tab :: "py \<Rightarrow> workbook \<Rightarrow> (pyint \<times> string) list \<times> ImportError list" where
  "parse_regions_tab p wb =
     (case get_sheet wb ''Regions'' of
        None \<Rightarrow> ([], [])
      | Some ws \<Rightarrow>
          (let (hm, data) = read_sheet_rows p ws in
           case (hm ''region_id'', hm ''region_name'') of
             (Some cid, Some cname) \<Rightarrow> regions_loop p cid cname data [] []
           | _ \<Rightarrow> ([], [ImportError ''Regions'' None
                           ''Regions tab must have columns: region_id, region_name.''])))"

text \<open>
  The tab names are f-strings over the region id as \<^verbatim>\<open>_to_int\<close> returned it. The
  functions of the same names in download.py get the id from the store; they are
  these at a \<open>PInt\<close>.
\<close>

definition enc_type_tab :: "pyint option \<Rightarrow> string" where
  "enc_type_tab region_id =
     (case region_id of
        None \<Rightarrow> ''Encounter Types''
      | Some r \<Rightarrow> ''Encounter Types - '' @ str_pyint r)"

definition enc_tab :: "pyint option \<Rightarrow> string \<Rightarrow> string" where
  "enc_tab region_id t =
     (case region_id of
        None \<Rightarrow> ''Encounter - '' @ t
      | Some r \<Rightarrow> ''Encounter - '' @ str_pyint r @ '' - '' @ t)"

definition rew_tab :: "pyint option \<Rightarrow> string \<Rightarrow> string" where
  "rew_tab region_id t =
     (case region_id of
        None \<Rightarrow> ''Reward - '' @ t
      | Some r \<Rightarrow> ''Reward - '' @ str_pyint r @ '' - '' @ t)"

section \<open>importer.py: phase 1, parsing and validating every sheet\<close>

record table_blob =
  tb_tab :: string
  tb_mode :: string
  tb_entries :: "entry list"
  tb_max_roll :: "int option"

record region_blob =
  rb_region_id :: "pyint option"
  rb_type_tab :: string
  rb_mode :: string
  rb_max_roll :: "int option"
  rb_types :: "string list"
  rb_enc_tables :: "(string \<times> table_blob) list"
  rb_rew_tables :: "(string \<times> table_blob) list"

text \<open>What the loop over the regions carries: the error list and the running totals.\<close>

record parse_state =
  ps_errors :: "ImportError list"
  ps_parsed :: "region_blob list"
  ps_enc_types :: nat
  ps_enc_entries :: nat
  ps_rew_entries :: nat

text \<open>
  \<^verbatim>\<open>for t in types: ... _parse_result_tab(wb, tab) ...\<close>, filling the dictionary keyed
  by type (the types are distinct, so the dictionary is the list of its items).
\<close>

fun parse_tables ::
  "py \<Rightarrow> workbook \<Rightarrow> (string \<Rightarrow> string) \<Rightarrow> string list \<Rightarrow>
   exn + ((string \<times> table_blob) list \<times> ImportError list)" where
  "parse_tables p wb tabname [] = Inr ([], [])"
| "parse_tables p wb tabname (t # ts) =
     (case parse_result_tab p wb (tabname t) of
        Inl e \<Rightarrow> Inl e
      | Inr (mode, entries, max_roll, tab_errs) \<Rightarrow>
          (case parse_tables p wb tabname ts of
             Inl e \<Rightarrow> Inl e
           | Inr (tables, errs) \<Rightarrow>
               Inr ((t, \<lparr>tb_tab = tabname t, tb_mode = mode, tb_entries = entries,
                          tb_max_roll = max_roll\<rparr>) # tables,
                    tab_errs @ errs)))"

definition missing_tabs :: "workbook \<Rightarrow> pyint option \<Rightarrow> string list \<Rightarrow> ImportError list" where
  "missing_tabs wb region_id types =
     concat (map (\<lambda>t.
        (if enc_tab region_id t \<notin> set (sheetnames wb)
         then [ImportError (enc_tab region_id t) None
                 (''Missing tab for encounter type '' @ quote @ t @ quote @ ''.'')]
         else []) @
        (if rew_tab region_id t \<notin> set (sheetnames wb)
         then [ImportError (rew_tab region_id t) None
                 (''Missing tab for reward type '' @ quote @ t @ quote @ ''.'')]
         else [])) types)"

definition entries_total :: "(string \<times> table_blob) list \<Rightarrow> nat" where
  "entries_total tables = sum_list (map (\<lambda>(t, b). length (tb_entries b)) tables)"

text \<open>One pass of the loop \<^verbatim>\<open>for region_id in region_ids\<close>, with its three \<^verbatim>\<open>continue\<close>s.\<close>

definition region_pass :: "py \<Rightarrow> workbook \<Rightarrow> pyint option \<Rightarrow> parse_state \<Rightarrow> exn + parse_state" where
  "region_pass p wb region_id st =
     (case parse_type_tab p wb (enc_type_tab region_id) of
        Inl e \<Rightarrow> Inl e
      | Inr (enc_type_mode, types, enc_type_max, type_errs) \<Rightarrow>
          (let errors1 = ps_errors st @ type_errs in
           if type_errs \<noteq> [] then Inr (st\<lparr>ps_errors := errors1\<rparr>)
           else
             (let errors2 = errors1 @ missing_tabs wb region_id types in
              if errors2 \<noteq> [] then Inr (st\<lparr>ps_errors := errors2\<rparr>)
              else
                (case parse_tables p wb (enc_tab region_id) types of
                   Inl e \<Rightarrow> Inl e
                 | Inr (enc_tables, enc_errs) \<Rightarrow>
                     (case parse_tables p wb (rew_tab region_id) types of
                        Inl e \<Rightarrow> Inl e
                      | Inr (rew_tables, rew_errs) \<Rightarrow>
                          (let errors3 = errors2 @ enc_errs @ rew_errs in
                           if errors3 \<noteq> [] then Inr (st\<lparr>ps_errors := errors3\<rparr>)
                           else Inr
                             \<lparr>ps_errors = errors3,
                              ps_parsed = ps_parsed st @
                                [\<lparr>rb_region_id = region_id, rb_type_tab = enc_type_tab region_id,
                                  rb_mode = enc_type_mode, rb_max_roll = enc_type_max,
                                  rb_types = types, rb_enc_tables = enc_tables,
                                  rb_rew_tables = rew_tables\<rparr>],
                              ps_enc_types = ps_enc_types st + length types,
                              ps_enc_entries = ps_enc_entries st + entries_total enc_tables,
                              ps_rew_entries = ps_rew_entries st + entries_total rew_tables\<rparr>))))))"

fun region_passes :: "py \<Rightarrow> workbook \<Rightarrow> pyint option list \<Rightarrow> parse_state \<Rightarrow> exn + parse_state" where
  "region_passes p wb [] st = Inr st"
| "region_passes p wb (region_id # rest) st =
     (case region_pass p wb region_id st of
        Inl e \<Rightarrow> Inl e
      | Inr st' \<Rightarrow> region_passes p wb rest st')"

text \<open>
  The outcome of phase 1: the error list the import returns, or what phase 2
  writes (the regions, whether the workbook is regional, and the parsed tables
  with their totals).
\<close>

datatype phase1 =
  Rejected "ImportError list"
| Accepted "(pyint \<times> string) list" bool parse_state

definition parse_workbook :: "py \<Rightarrow> workbook \<Rightarrow> exn + phase1" where
  "parse_workbook p wb =
     (let (regs, region_errs) = parse_regions_tab p wb;
          regional_mode = (''Regions'' \<in> set (sheetnames wb)) in
      if regional_mode \<and> region_errs \<noteq> [] then Inr (Rejected region_errs)
      else if regional_mode \<and> regs = [] then
        Inr (Rejected [ImportError ''Regions'' None ''Regions tab is present but has no valid rows.''])
      else
        (case region_passes p wb (if regional_mode then map (\<lambda>(rid, name). Some rid) regs else [None])
                \<lparr>ps_errors = region_errs, ps_parsed = [], ps_enc_types = 0, ps_enc_entries = 0,
                 ps_rew_entries = 0\<rparr> of
           Inl e \<Rightarrow> Inl e
         | Inr st \<Rightarrow>
             if ps_errors st \<noteq> [] then Inr (Rejected (ps_errors st))
             else Inr (Accepted regs regional_mode st)))"

section \<open>importer.py: phase 2, the replace transaction\<close>

text \<open>
  \<^verbatim>\<open>build_type_entries_from_sheet\<close>: the encounter-type sheet is read a second time,
  and every row kept becomes an entry (duplicates of a type included).
\<close>

definition build_type_entries_from_sheet :: "py \<Rightarrow> workbook \<Rightarrow> pyint option \<Rightarrow> exn + entry list" where
  "build_type_entries_from_sheet p wb region_id =
     (case get_sheet wb (enc_type_tab region_id) of
        None \<Rightarrow> Inl (KeyError (enc_type_tab region_id))
      | Some ws \<Rightarrow>
          (let (hm, data) = read_sheet_rows p ws;
               (mode, mode_errs) = detect_mode p (enc_type_tab region_id) hm data in
           if data = [] then Inr []
           else (case hm ''type'' of
                   None \<Rightarrow> Inl (KeyError ''type'')
                 | Some ctype \<Rightarrow> mode_entries p hm ctype mode data)))"

text \<open>
  The statements a transaction issues, in order, with the values bound to them as
  the store keeps them. \<open>InsertEntry\<close> writes into the table of the last
  \<open>InsertTable\<close> (the \<^verbatim>\<open>lastrowid\<close> handed to \<^verbatim>\<open>insert_entries\<close>); \<open>DeleteConfig\<close> is
  issued by delete_cmd.py only; \<open>Raise\<close> stands for an exception of the Python code
  between two statements.
\<close>

datatype stmt =
  Upsert int string
| DeleteTableDefs int
| DeleteRegions int
| DeleteConfig int
| InsertRegion int int string nat
| InsertTable int string "int option" "string option" string "int option" string
| InsertEntry entry nat
| Commit
| Raise exn

text \<open>
  A connection with an open transaction: \<open>c_file\<close> is the database file, which
  holds what is committed, and \<open>c_db\<close> is what the connection reads, the file with
  the writes of the transaction. A commit writes them to the file, a rollback drops
  them.
\<close>

record conn =
  c_db :: db
  c_file :: db
  c_lastrowid :: nat
  c_calls :: nat

text \<open>
  Modelled from the spec: the schema (\<^verbatim>\<open>schema.sql\<close>) is not among the sources. A
  table entry is deleted with the table definition that owns it, and a new table
  definition gets an id no stored definition has.
\<close>

definition delete_table_defs :: "int \<Rightarrow> db \<Rightarrow> db" where
  "delete_table_defs guild_id d =
     d\<lparr>db_table_def := filter (\<lambda>t. td_guild t \<noteq> guild_id) (db_table_def d),
       db_table_entry :=
         filter (\<lambda>e. te_table e \<notin> td_id ` {t \<in> set (db_table_def d). td_guild t = guild_id})
           (db_table_entry d)\<rparr>"

definition fresh_id :: "db \<Rightarrow> nat" where
  "fresh_id d = Suc (fold max (map td_id (db_table_def d)) 0)"

text \<open>\<^verbatim>\<open>INSERT ... ON CONFLICT(guild_id) DO UPDATE SET updated_at = excluded.updated_at\<close>.\<close>

definition upsert_guild_config :: "int \<Rightarrow> string \<Rightarrow> db \<Rightarrow> db" where
  "upsert_guild_config guild_id updated_at d =
     d\<lparr>db_guild_config :=
         (if guild_id \<in> fst ` set (db_guild_config d)
          then map (\<lambda>(g, u). if g = guild_id then (g, updated_at) else (g, u)) (db_guild_config d)
          else db_guild_config d @ [(guild_id, updated_at)])\<rparr>"

fun apply_stmt :: "stmt \<Rightarrow> conn \<Rightarrow> conn" where
  "apply_stmt (Upsert guild_id updated_at) c = c\<lparr>c_db := upsert_guild_config guild_id updated_at (c_db c)\<rparr>"
| "apply_stmt (DeleteTableDefs guild_id) c = c\<lparr>c_db := delete_table_defs guild_id (c_db c)\<rparr>"
| "apply_stmt (DeleteRegions guild_id) c =
     c\<lparr>c_db := (c_db c)\<lparr>db_region := filter (\<lambda>r. rg_guild r \<noteq> guild_id) (db_region (c_db c))\<rparr>\<rparr>"
| "apply_stmt (DeleteConfig guild_id) c =
     c\<lparr>c_db := (c_db c)\<lparr>db_guild_config :=
        filter (\<lambda>(g, u). g \<noteq> guild_id) (db_guild_config (c_db c))\<rparr>\<rparr>"
| "apply_stmt (InsertRegion guild_id rid name i) c =
     c\<lparr>c_db := (c_db c)\<lparr>db_region := db_region (c_db c) @
        [\<lparr>rg_guild = guild_id, rg_region_id = rid, rg_name = name, rg_sort = i\<rparr>]\<rparr>\<rparr>"
| "apply_stmt (InsertTable guild_id group_key region_id type_key roll_mode max_roll updated_at) c =
     c\<lparr>c_db := (c_db c)\<lparr>db_table_def := db_table_def (c_db c) @
        [\<lparr>td_id = fresh_id (c_db c), td_guild = guild_id, td_group = group_key,
          td_region = region_id, td_type = type_key, td_mode = roll_mode,
          td_max_roll = max_roll, td_updated = updated_at\<rparr>]\<rparr>,
       c_lastrowid := fresh_id (c_db c)\<rparr>"
| "apply_stmt (InsertEntry e i) c =
     c\<lparr>c_db := (c_db c)\<lparr>db_table_entry := db_table_entry (c_db c) @
        [\<lparr>te_table = c_lastrowid c, te_min = e_min e, te_max = e_max e, te_weight = e_weight e,
          te_result = e_result e, te_sort = i\<rparr>]\<rparr>\<rparr>"
| "apply_stmt Commit c = c\<lparr>c_file := c_db c\<rparr>"
| "apply_stmt (Raise e) c = c"

text \<open>
  Any call on the connection can fail: \<open>faults n\<close> is the message of the exception
  the \<open>n\<close>-th call on the connection raises, if it raises one. Call 0 is \<^verbatim>\<open>BEGIN\<close>. A
  call that raises changes nothing. \<open>run\<close> issues the statements up to the first
  exception, which it returns with the connection as it is then.
\<close>

type_synonym faults = "nat \<Rightarrow> string option"

fun run :: "faults \<Rightarrow> stmt list \<Rightarrow> conn \<Rightarrow> (exn \<times> conn) + conn" where
  "run f [] c = Inr c"
| "run f (Raise e # rest) c = Inl (e, c)"
| "run f (s # rest) c =
     (case f (c_calls c) of
        Some msg \<Rightarrow> Inl (DbError msg, c\<lparr>c_calls := Suc (c_calls c)\<rparr>)
      | None \<Rightarrow> run f rest ((apply_stmt s c)\<lparr>c_calls := Suc (c_calls c)\<rparr>))"

text \<open>\<^verbatim>\<open>await db.rollback()\<close>, one more call on the connection.\<close>

definition rollback :: "faults \<Rightarrow> conn \<Rightarrow> exn + conn" where
  "rollback f c =
     (case f (c_calls c) of
        Some msg \<Rightarrow> Inl (DbError msg)
      | None \<Rightarrow> Inr (c\<lparr>c_db := c_file c, c_calls := Suc (c_calls c)\<rparr>))"

definition insert_entries :: "entry list \<Rightarrow> stmt list" where
  "insert_entries entries = map (\<lambda>(i, e). InsertEntry e i) (zip [0 ..< length entries] entries)"

text \<open>\<^verbatim>\<open>region_blob["enc_tables"][t]\<close>: a missing key raises.\<close>

definition table_stmts ::
  "int \<Rightarrow> string \<Rightarrow> string \<Rightarrow> int option \<Rightarrow> (string \<times> table_blob) list \<Rightarrow> string \<Rightarrow> stmt list" where
  "table_stmts guild_id updated_at group_key region_id tables t =
     (case map_of tables t of
        None \<Rightarrow> [Raise (KeyError t)]
      | Some b \<Rightarrow>
          InsertTable guild_id group_key region_id (Some t) (tb_mode b) (tb_max_roll b) updated_at #
          insert_entries (tb_entries b))"

definition region_stmts :: "py \<Rightarrow> workbook \<Rightarrow> int \<Rightarrow> string \<Rightarrow> region_blob \<Rightarrow> stmt list" where
  "region_stmts p wb guild_id updated_at rb =
     (let region_id = map_option int_val (rb_region_id rb) in
      InsertTable guild_id ''encounter_type'' region_id None (rb_mode rb) (rb_max_roll rb)
        updated_at #
      (case build_type_entries_from_sheet p wb (rb_region_id rb) of
         Inl e \<Rightarrow> [Raise e]
       | Inr type_entries \<Rightarrow>
           insert_entries type_entries @
           concat (map (\<lambda>t.
             table_stmts guild_id updated_at ''encounter'' region_id (rb_enc_tables rb) t @
             table_stmts guild_id updated_at ''reward'' region_id (rb_rew_tables rb) t)
             (rb_types rb))))"

definition transaction ::
  "py \<Rightarrow> workbook \<Rightarrow> int \<Rightarrow> string \<Rightarrow> (pyint \<times> string) list \<Rightarrow> bool \<Rightarrow> region_blob list \<Rightarrow> stmt list" where
  "transaction p wb guild_id updated_at regs regional_mode parsed =
     [Upsert guild_id updated_at, DeleteTableDefs guild_id, DeleteRegions guild_id] @
     (if regional_mode
      then map (\<lambda>(i, (rid, name)). InsertRegion guild_id (int_val rid) name i)
             (zip [0 ..< length regs] regs)
      else []) @
     concat (map (region_stmts p wb guild_id updated_at) parsed) @
     [Commit]"

text \<open>\<^verbatim>\<open>str(e)\<close> of the exception caught.\<close>

fun exn_str :: "exn \<Rightarrow> string" where
  "exn_str (KeyError k) = quote @ k @ quote"
| "exn_str (ValueError m) = m"
| "exn_str (RuntimeError m) = m"
| "exn_str IndexError = ''list index out of range''"
| "exn_str (DbError m) = m"

text \<open>
  \<^verbatim>\<open>import_workbook_bytes\<close>, on a connection opened for the call and closed after
  it, as bot.py calls it. The result is the database file after the call, and
  either the exception that leaves the function or the pair it returns.
  \<^verbatim>\<open>BEGIN\<close> is executed before the \<^verbatim>\<open>try\<close>, and its exception leaves the function.
  An exception inside the \<^verbatim>\<open>try\<close> is caught by the handler, whose first statement
  is the rollback: when that raises too, its exception leaves the function, and
  closing the connection drops what the transaction wrote. \<open>updated_at\<close> is the
  clock reading of \<^verbatim>\<open>_now_iso()\<close>.
\<close>

definition import_workbook_bytes ::
  "py \<Rightarrow> faults \<Rightarrow> string \<Rightarrow> db \<Rightarrow> int \<Rightarrow> workbook \<Rightarrow>
   db \<times> (exn + (ImportCounts option \<times> ImportError list))" where
  "import_workbook_bytes p f updated_at d guild_id wb =
     (case parse_workbook p wb of
        Inl e \<Rightarrow> (d, Inl e)
      | Inr (Rejected errors) \<Rightarrow> (d, Inr (None, errors))
      | Inr (Accepted regs regional_mode st) \<Rightarrow>
          (case f 0 of
             Some msg \<Rightarrow> (d, Inl (DbError msg))
           | None \<Rightarrow>
               (case run f (transaction p wb guild_id updated_at regs regional_mode (ps_parsed st))
                       \<lparr>c_db = d, c_file = d, c_lastrowid = 0, c_calls = 1\<rparr> of
                  Inl (e, c) \<Rightarrow>
                    (case rollback f c of
                       Inl e' \<Rightarrow> (c_file c, Inl e')
                     | Inr c' \<Rightarrow>
                         (c_file c',
                          Inr (None, [ImportError ''DB'' None
                                        (''Import failed during database write: '' @ exn_str e)])))
                | Inr c \<Rightarrow>
                    (c_file c,
                     Inr (Some \<lparr>encounter_types = ps_enc_types st,
                                encounter_entries = ps_enc_entries st,
                                reward_types = ps_enc_types st,
                                reward_entries = ps_rew_entries st,
                                regions = (if regional_mode then length regs else 0)\<rparr>, [])))))"

section \<open>download.py: the export\<close>

text \<open>
  openpyxl's \<^verbatim>\<open>Workbook.create_sheet(title)\<close> never gives two sheets one title: a
  title that an existing sheet has already (compared without case) gets a number
  appended, one more than the highest number that follows the title anywhere in
  the comma-joined list of the existing titles (\<^verbatim>\<open>avoid_duplicate_name\<close>, which
  scans that list with the pattern \<^verbatim>\<open>title(\d*),?\<close>). Its refusal of the characters
  a sheet title cannot hold is left out: the titles written here are made of the
  keys of an imported workbook's titles.
\<close>

definition is_digit :: "char \<Rightarrow> bool" where
  "is_digit c = (c \<in> set ''0123456789'')"

definition digit_val :: "char \<Rightarrow> nat" where
  "digit_val c = (case map_of (zip ''0123456789'' [0 ..< 10]) c of Some d \<Rightarrow> d | None \<Rightarrow> 0)"

definition nat_of_digits :: "string \<Rightarrow> nat" where
  "nat_of_digits s = fold (\<lambda>c n. 10 * n + digit_val c) s 0"

text \<open>The rest of \<open>s\<close> after the prefix \<open>v\<close>, compared without case.\<close>

fun after_prefix :: "string \<Rightarrow> string \<Rightarrow> string option" where
  "after_prefix [] s = Some s"
| "after_prefix (c # v) [] = None"
| "after_prefix (c # v) (x # s) = (if lower_char c = lower_char x then after_prefix v s else None)"

lemma after_prefix_shorter: "after_prefix v s = Some rest \<Longrightarrow> length rest + length v = length s"
  by (induction v s rule: after_prefix.induct) (auto split: if_splits)

text \<open>
  \<^verbatim>\<open>re.findall\<close> of \<^verbatim>\<open>title(\d*),?\<close>: the digit groups of the matches, left to right,
  without overlap.
\<close>

function findall_counts :: "string \<Rightarrow> string \<Rightarrow> string list" where
  "findall_counts v s =
     (if v = [] \<or> s = [] then []
      else (case after_prefix v s of
              None \<Rightarrow> findall_counts v (tl s)
            | Some rest \<Rightarrow>
                takeWhile is_digit rest #
                findall_counts v
                  (case dropWhile is_digit rest of
                     c # rest' \<Rightarrow> if c = CHR '','' then rest' else c # rest'
                   | [] \<Rightarrow> [])))"
  by pat_completeness auto
termination
proof (relation "measure (\<lambda>(v, s). length s)")
  show "wf (measure (\<lambda>(v, s). length s))" by simp
next
  fix v s :: string
  assume "\<not> (v = [] \<or> s = [])"
  then show "((v, tl s), (v, s)) \<in> measure (\<lambda>(v, s). length s)" by (cases s) simp_all
next
  fix v s rest :: string
  assume a: "\<not> (v = [] \<or> s = [])" "after_prefix v s = Some rest"
  then have rest: "length rest + length v = length s"
    by (simp add: after_prefix_shorter)
  have "length (dropWhile is_digit rest) \<le> length rest" by (rule length_dropWhile_le)
  moreover have "length rest < length s" using rest a(1) by (cases v) simp_all
  moreover have "length (case dropWhile is_digit rest of
                     c # rest' \<Rightarrow> if c = CHR '','' then rest' else c # rest'
                   | [] \<Rightarrow> []) \<le> length (dropWhile is_digit rest)"
    by (simp split: list.split)
  ultimately show "((v, case dropWhile is_digit rest of
                     c # rest' \<Rightarrow> if c = CHR '','' then rest' else c # rest'
                   | [] \<Rightarrow> []), (v, s)) \<in> measure (\<lambda>(v, s). length s)"
    by simp
qed

fun join_names :: "string list \<Rightarrow> string" where
  "join_names [] = []"
| "join_names [n] = n"
| "join_names (n # ns) = n @ '','' @ join_names ns"

definition avoid_duplicate_name :: "string list \<Rightarrow> string \<Rightarrow> string" where
  "avoid_duplicate_name names v =
     (if filter (\<lambda>n. lower n = lower v) names = [] then v
      else (let matches = findall_counts v (join_names names) in
            if matches = [] then v
            else (let counts = map nat_of_digits (filter (\<lambda>idx. idx \<noteq> []) matches);
                      highest = fold max counts 0
                  in v @ str_nat (highest + 1))))"

text \<open>\<^verbatim>\<open>wb.create_sheet(title)\<close> followed by the \<^verbatim>\<open>ws.append\<close> of the rows.\<close>

definition create_sheet :: "workbook \<Rightarrow> string \<Rightarrow> sheet \<Rightarrow> workbook" where
  "create_sheet wb title rows = wb @ [(avoid_duplicate_name (sheetnames wb) title, rows)]"

definition opt_cell :: "int option \<Rightarrow> cell" where
  "opt_cell v = (case v of None \<Rightarrow> CNone | Some i \<Rightarrow> CInt i)"

definition add_sheet_for_table ::
  "workbook \<Rightarrow> string \<Rightarrow> string \<Rightarrow> string \<Rightarrow> table_entry_row list \<Rightarrow> workbook" where
  "add_sheet_for_table wb title kind roll_mode entries =
     create_sheet wb title
       ((if roll_mode = ''range'' then [CStr ''min'', CStr ''max'', CStr kind]
         else if roll_mode = ''weight'' then [CStr ''weight'', CStr kind]
         else [CStr kind]) #
        map (\<lambda>e. if roll_mode = ''range''
                  then [opt_cell (te_min e), opt_cell (te_max e), CStr (te_result e)]
                  else if roll_mode = ''weight'' then [opt_cell (te_weight e), CStr (te_result e)]
                  else [CStr (te_result e)]) entries)"

text \<open>
  \<^verbatim>\<open>SELECT region_id, region_name FROM region WHERE guild_id = ? ORDER BY sort_order
  ASC, region_id ASC\<close>.
\<close>

definition fetch_regions :: "db \<Rightarrow> int \<Rightarrow> (int \<times> string) list" where
  "fetch_regions d guild_id =
     map (\<lambda>r. (rg_region_id r, rg_name r))
       (sort_key (\<lambda>r. (rg_sort r, rg_region_id r)) (filter (\<lambda>r. rg_guild r = guild_id) (db_region d)))"

text \<open>The encounter and the reward sheet of one type, each only if its table is stored.\<close>

definition export_type :: "db \<Rightarrow> int \<Rightarrow> int option \<Rightarrow> workbook \<Rightarrow> string \<Rightarrow> workbook" where
  "export_type d guild_id region_id wb t =
     (let wb1 = (case fetch_table_def d guild_id ''encounter'' region_id (Some t) of
                   None \<Rightarrow> wb
                 | Some enc_def \<Rightarrow>
                     add_sheet_for_table wb (enc_tab (map_option PInt region_id) t) ''result'' (td_mode enc_def)
                       (fetch_table_entries d (td_id enc_def)))
      in (case fetch_table_def d guild_id ''reward'' region_id (Some t) of
            None \<Rightarrow> wb1
          | Some rew_def \<Rightarrow>
              add_sheet_for_table wb1 (rew_tab (map_option PInt region_id) t) ''result'' (td_mode rew_def)
                (fetch_table_entries d (td_id rew_def))))"

text \<open>The sheets of one region, given its stored encounter-type table.\<close>

definition export_tables :: "db \<Rightarrow> int \<Rightarrow> int option \<Rightarrow> table_def_row \<Rightarrow> workbook \<Rightarrow> workbook" where
  "export_tables d guild_id region_id enc_type_def wb =
     (let enc_type_entries = fetch_table_entries d (td_id enc_type_def);
          wb1 = add_sheet_for_table wb (enc_type_tab (map_option PInt region_id)) ''type'' (td_mode enc_type_def)
                  enc_type_entries;
          types = filter (\<lambda>t. t \<noteq> '''') (map te_result enc_type_entries)
      in fold (\<lambda>t w. export_type d guild_id region_id w t) types wb1)"

definition export_region :: "db \<Rightarrow> int \<Rightarrow> workbook \<Rightarrow> int \<Rightarrow> workbook" where
  "export_region d guild_id wb rid =
     (case fetch_table_def d guild_id ''encounter_type'' (Some rid) None of
        None \<Rightarrow> wb
      | Some enc_type_def \<Rightarrow> export_tables d guild_id (Some rid) enc_type_def wb)"

text \<open>
  \<^verbatim>\<open>build_workbook_bytes\<close>. The bytes are the serialisation of the workbook; the
  result here is the workbook saved.
\<close>

definition build_workbook_bytes :: "db \<Rightarrow> int \<Rightarrow> exn + workbook" where
  "build_workbook_bytes d guild_id =
     (let regs = fetch_regions d guild_id in
      if regs \<noteq> [] then
        Inr (fold (\<lambda>(rid, name) w. export_region d guild_id w rid) regs
               (create_sheet [] ''Regions''
                  ([CStr ''region_id'', CStr ''region_name''] #
                   map (\<lambda>(rid, name). [CInt rid, CStr name]) regs)))
      else
        (case fetch_table_def d guild_id ''encounter_type'' None None of
           None \<Rightarrow> Inl (RuntimeError ''No imported data found. Run /import first.'')
         | Some enc_type_def \<Rightarrow> Inr (export_tables d guild_id None enc_type_def [])))"

section \<open>Facts about the import\<close>

lemma parse_workbook_accepted:
  assumes "parse_workbook p wb = Inr (Accepted regs regional_mode st)"
  shows "regional_mode = (''Regions'' \<in> set (sheetnames wb))"
    and "regional_mode \<longrightarrow> regs \<noteq> []"
    and "ps_errors st = []"
  using assms
  by (auto simp: parse_workbook_def Let_def split: prod.splits if_splits sum.splits)

text \<open>
  C9. A successful import reports as many reward types as encounter types (the one
  counter \<^verbatim>\<open>total_enc_types\<close> fills both fields), and its region count is zero
  exactly when the workbook has no sheet named \<^verbatim>\<open>Regions\<close>: a regional workbook is
  accepted only with at least one valid region row.
\<close>

theorem import_counts:
  assumes "import_workbook_bytes p f updated_at d guild_id wb = (d', Inr (Some counts, errors))"
  shows "reward_types counts = encounter_types counts \<and>
         (regions counts = 0 \<longleftrightarrow> ''Regions'' \<notin> set (sheetnames wb)) \<and> errors = []"
proof (cases "parse_workbook p wb")
  case (Inl e)
  with assms show ?thesis by (simp add: import_workbook_bytes_def)
next
  case (Inr ph)
  show ?thesis
  proof (cases ph)
    case (Rejected errs)
    with Inr assms show ?thesis by (simp add: import_workbook_bytes_def)
  next
    case (Accepted regs regional_mode st)
    note acc = parse_workbook_accepted [OF Inr [unfolded Accepted]]
    from assms Inr Accepted have
      "counts = \<lparr>encounter_types = ps_enc_types st, encounter_entries = ps_enc_entries st,
                 reward_types = ps_enc_types st, reward_entries = ps_rew_entries st,
                 regions = (if regional_mode then length regs else 0)\<rparr>" and "errors = []"
      by (auto simp: import_workbook_bytes_def split: option.splits sum.splits prod.splits)
    with acc show ?thesis by auto
  qed
qed

text \<open>The steps of \<open>run\<close>, and what a run does to the database file.\<close>

fun no_raise :: "stmt \<Rightarrow> bool" where
  "no_raise (Raise e) = False"
| "no_raise s = True"

fun no_commit :: "stmt \<Rightarrow> bool" where
  "no_commit Commit = False"
| "no_commit s = True"

lemma run_step:
  "no_raise s \<Longrightarrow>
   run f (s # rest) c =
     (case f (c_calls c) of
        Some msg \<Rightarrow> Inl (DbError msg, c\<lparr>c_calls := Suc (c_calls c)\<rparr>)
      | None \<Rightarrow> run f rest ((apply_stmt s c)\<lparr>c_calls := Suc (c_calls c)\<rparr>))"
  by (cases s) auto

lemma run_append:
  "run f (xs @ ys) c = (case run f xs c of Inl e \<Rightarrow> Inl e | Inr c1 \<Rightarrow> run f ys c1)"
proof (induction xs arbitrary: c)
  case Nil
  then show ?case by simp
next
  case (Cons s xs)
  show ?case
  proof (cases "no_raise s")
    case False
    then obtain e where "s = Raise e" by (cases s) auto
    then show ?thesis by simp
  next
    case True
    show ?thesis
      using run_step [OF True, of f "xs @ ys" c] run_step [OF True, of f xs c] Cons.IH
      by (cases "f (c_calls c)") simp_all
  qed
qed

lemma apply_stmt_file: "no_commit s \<Longrightarrow> c_file (apply_stmt s c) = c_file c"
  by (cases s) auto

lemma run_failed_file:
  assumes "run f stmts c = Inl (e, c')" and "list_all no_commit (butlast stmts)"
  shows "c_file c' = c_file c"
  using assms
proof (induction stmts arbitrary: c)
  case Nil
  then show ?case by simp
next
  case (Cons s rest)
  show ?case
  proof (cases "no_raise s")
    case False
    then obtain x where "s = Raise x" by (cases s) auto
    with Cons.prems(1) show ?thesis by simp
  next
    case True
    note step = run_step [OF True, of f rest c]
    show ?thesis
    proof (cases "f (c_calls c)")
      case (Some msg)
      with step Cons.prems(1) show ?thesis by auto
    next
      case None
      let ?c = "(apply_stmt s c)\<lparr>c_calls := Suc (c_calls c)\<rparr>"
      from None step Cons.prems(1) have r: "run f rest ?c = Inl (e, c')" by simp
      then have ne: "rest \<noteq> []" by auto
      with Cons.prems(2) have s: "no_commit s" and rest: "list_all no_commit (butlast rest)"
        by simp_all
      from Cons.IH [OF r rest] apply_stmt_file [OF s] show ?thesis by simp
    qed
  qed
qed

lemma run_committed:
  assumes "run f (body @ [Commit]) c = Inr c'"
  shows "c_file c' = c_db c'"
proof -
  from assms obtain c1 where "run f [Commit] c1 = Inr c'"
    unfolding run_append by (auto split: sum.splits)
  then show ?thesis by (auto split: option.splits)
qed

lemma run_first_fault:
  assumes "list_all no_raise stmts"
    and "\<forall>j. c_calls c \<le> j \<and> j < k \<longrightarrow> f j = None" and "f k = Some msg"
    and "c_calls c \<le> k" and "k < c_calls c + length stmts"
  shows "\<exists>c'. run f stmts c = Inl (DbError msg, c') \<and> c_calls c' = Suc k"
  using assms
proof (induction stmts arbitrary: c)
  case Nil
  then show ?case by simp
next
  case (Cons s rest)
  from Cons.prems(1) have s: "no_raise s" and rest: "list_all no_raise rest" by simp_all
  note step = run_step [OF s, of f rest c]
  show ?case
  proof (cases "c_calls c = k")
    case True
    with Cons.prems(3) step show ?thesis by simp
  next
    case False
    with Cons.prems(4) have lt: "c_calls c < k" by simp
    with Cons.prems(2) have none: "f (c_calls c) = None" by simp
    let ?c = "(apply_stmt s c)\<lparr>c_calls := Suc (c_calls c)\<rparr>"
    have "\<exists>c'. run f rest ?c = Inl (DbError msg, c') \<and> c_calls c' = Suc k"
    proof (rule Cons.IH [OF rest _ Cons.prems(3)])
      show "\<forall>j. c_calls ?c \<le> j \<and> j < k \<longrightarrow> f j = None" using Cons.prems(2) by simp
      show "c_calls ?c \<le> k" using lt by simp
      show "k < c_calls ?c + length rest" using Cons.prems(5) by simp
    qed
    with none step show ?thesis by simp
  qed
qed

text \<open>
  Phase 2 reads again what phase 1 read: for a workbook that phase 1 accepted, the
  type sheet of every region parses a second time and every type has its two
  tables, so that the transaction holds no \<open>Raise\<close>.
\<close>

definition blob_sound :: "py \<Rightarrow> workbook \<Rightarrow> region_blob \<Rightarrow> bool" where
  "blob_sound p wb rb =
     ((\<exists>es. build_type_entries_from_sheet p wb (rb_region_id rb) = Inr es) \<and>
      (\<forall>t\<in>set (rb_types rb). map_of (rb_enc_tables rb) t \<noteq> None \<and>
                                map_of (rb_rew_tables rb) t \<noteq> None))"

lemma parse_tables_keys:
  "parse_tables p wb tabname ts = Inr (tables, errs) \<Longrightarrow> map fst tables = ts"
proof (induction ts arbitrary: tables errs)
  case Nil
  then show ?case by simp
next
  case (Cons t ts)
  from Cons.prems obtain b tables' errs' where
    "parse_tables p wb tabname ts = Inr (tables', errs')" and "tables = (t, b) # tables'"
    by (auto split: sum.splits prod.splits)
  with Cons.IH show ?case by simp
qed

lemma parse_tables_has:
  assumes "parse_tables p wb tabname ts = Inr (tables, errs)" and "t \<in> set ts"
  shows "map_of tables t \<noteq> None"
  using parse_tables_keys [OF assms(1)] assms(2)
  by (metis (no_types) image_set map_of_eq_None_iff)

lemma parse_type_tab_again:
  assumes "parse_type_tab p wb (enc_type_tab rid) = Inr (mode, types, mr, [])"
  shows "\<exists>es. build_type_entries_from_sheet p wb rid = Inr es"
  using assms
  by (auto simp: parse_type_tab_def build_type_entries_from_sheet_def Let_def
      split: option.splits prod.splits sum.splits if_splits)

lemma region_pass_sound:
  assumes "region_pass p wb rid st = Inr st'" and "list_all (blob_sound p wb) (ps_parsed st)"
  shows "list_all (blob_sound p wb) (ps_parsed st')"
proof (cases "ps_parsed st' = ps_parsed st")
  case True
  with assms(2) show ?thesis by simp
next
  case False
  with assms(1) obtain mode types mr enc_tables enc_errs rew_tables rew_errs where
    1: "parse_type_tab p wb (enc_type_tab rid) = Inr (mode, types, mr, [])" and
    2: "parse_tables p wb (enc_tab rid) types = Inr (enc_tables, enc_errs)" and
    3: "parse_tables p wb (rew_tab rid) types = Inr (rew_tables, rew_errs)" and
    4: "ps_parsed st' = ps_parsed st @
          [\<lparr>rb_region_id = rid, rb_type_tab = enc_type_tab rid, rb_mode = mode, rb_max_roll = mr,
            rb_types = types, rb_enc_tables = enc_tables, rb_rew_tables = rew_tables\<rparr>]"
    by (auto simp: region_pass_def Let_def split: sum.splits prod.splits if_splits)
  from parse_type_tab_again [OF 1] parse_tables_has [OF 2] parse_tables_has [OF 3]
  have "blob_sound p wb
          \<lparr>rb_region_id = rid, rb_type_tab = enc_type_tab rid, rb_mode = mode, rb_max_roll = mr,
            rb_types = types, rb_enc_tables = enc_tables, rb_rew_tables = rew_tables\<rparr>"
    by (simp add: blob_sound_def)
  with assms(2) 4 show ?thesis by simp
qed

lemma region_passes_sound:
  assumes "region_passes p wb rids st = Inr st'" and "list_all (blob_sound p wb) (ps_parsed st)"
  shows "list_all (blob_sound p wb) (ps_parsed st')"
  using assms
proof (induction rids arbitrary: st)
  case Nil
  then show ?case by simp
next
  case (Cons rid rids)
  from Cons.prems(1) obtain st1 where
    1: "region_pass p wb rid st = Inr st1" and 2: "region_passes p wb rids st1 = Inr st'"
    by (auto split: sum.splits)
  from Cons.IH [OF 2 region_pass_sound [OF 1 Cons.prems(2)]] show ?case .
qed

lemma accepted_sound:
  assumes "parse_workbook p wb = Inr (Accepted regs regional st)"
  shows "list_all (blob_sound p wb) (ps_parsed st)"
proof -
  let ?st0 = "\<lparr>ps_errors = snd (parse_regions_tab p wb), ps_parsed = [], ps_enc_types = 0,
               ps_enc_entries = 0, ps_rew_entries = 0\<rparr>"
  let ?rids = "if regional then map (\<lambda>(rid, name). Some rid) regs else [None]"
  from assms have "region_passes p wb ?rids ?st0 = Inr st"
    by (auto simp: parse_workbook_def Let_def split: prod.splits if_splits sum.splits)
  from region_passes_sound [OF this] show ?thesis by simp
qed

lemma list_all_concat: "list_all P (concat xss) \<longleftrightarrow> (\<forall>xs\<in>set xss. list_all P xs)"
  by (induction xss) simp_all

lemma insert_entries_plain:
  "list_all no_raise (insert_entries es) \<and> list_all no_commit (insert_entries es)"
  by (simp add: insert_entries_def list_all_iff split_beta)

lemma table_stmts_no_commit: "list_all no_commit (table_stmts g u grp r tables t)"
  by (simp add: table_stmts_def insert_entries_plain split: option.split)

lemma table_stmts_no_raise:
  "map_of tables t \<noteq> None \<Longrightarrow> list_all no_raise (table_stmts g u grp r tables t)"
  by (auto simp: table_stmts_def insert_entries_plain)

lemma region_stmts_no_commit: "list_all no_commit (region_stmts p wb g u rb)"
  by (simp add: region_stmts_def Let_def list_all_concat insert_entries_plain table_stmts_no_commit
      split: sum.split)

lemma region_stmts_no_raise:
  assumes "blob_sound p wb rb"
  shows "list_all no_raise (region_stmts p wb g u rb)"
proof -
  from assms obtain es where es: "build_type_entries_from_sheet p wb (rb_region_id rb) = Inr es"
    and tabs: "\<forall>t\<in>set (rb_types rb). map_of (rb_enc_tables rb) t \<noteq> None \<and>
                                      map_of (rb_rew_tables rb) t \<noteq> None"
    by (auto simp: blob_sound_def)
  show ?thesis
    using tabs
    by (simp add: region_stmts_def Let_def es list_all_concat insert_entries_plain
        table_stmts_no_raise)
qed

lemma region_inserts_plain:
  "list_all no_raise (map (\<lambda>(i, (rid, name)). InsertRegion g (int_val rid) name i) xs) \<and>
   list_all no_commit (map (\<lambda>(i, (rid, name)). InsertRegion g (int_val rid) name i) xs)"
  by (simp add: list_all_iff split_beta)

lemma transaction_no_commit:
  "list_all no_commit (butlast (transaction p wb g u regs regional parsed))"
  by (simp add: transaction_def butlast_append list_all_concat region_inserts_plain
      region_stmts_no_commit)

lemma transaction_no_raise:
  assumes "list_all (blob_sound p wb) parsed"
  shows "list_all no_raise (transaction p wb g u regs regional parsed)"
proof -
  from assms have "\<forall>rb\<in>set parsed. list_all no_raise (region_stmts p wb g u rb)"
    by (induction parsed) (simp_all add: region_stmts_no_raise)
  then show ?thesis
    by (simp add: transaction_def list_all_concat region_inserts_plain)
qed

lemma transaction_commit_last:
  "\<exists>body. transaction p wb g u regs regional parsed = body @ [Commit]"
  by (simp add: transaction_def)

text \<open>
  C3, as the code has it. For a workbook that passed validation, the first call on
  the connection that raises decides the outcome, and the database file is as it
  was in every case. Call 0 is \<^verbatim>\<open>BEGIN\<close>, which stands before the \<^verbatim>\<open>try\<close>: its
  exception leaves the import. A later call \<open>k\<close> (the upsert, a delete, an insert or
  the commit) is inside the \<^verbatim>\<open>try\<close>, and the handler rolls back, which is call
  \<open>k + 1\<close>: when the rollback succeeds, the import returns no summary and one error,
  on the tab \<^verbatim>\<open>DB\<close>, which no validation error uses; when the rollback raises
  too, its exception leaves the import.
\<close>

theorem storage_failure_rolls_back:
  assumes "parse_workbook p wb = Inr (Accepted regs regional_mode st)"
    and "k \<le> length (transaction p wb guild_id updated_at regs regional_mode (ps_parsed st))"
    and "\<forall>j<k. f j = None" and "f k = Some msg"
  shows "import_workbook_bytes p f updated_at d guild_id wb =
           (d, if k = 0 then Inl (DbError msg)
               else (case f (Suc k) of
                       None \<Rightarrow>
                         Inr (None, [ImportError ''DB'' None
                                       (''Import failed during database write: '' @ msg)])
                     | Some msg' \<Rightarrow> Inl (DbError msg')))"
proof (cases "k = 0")
  case True
  with assms(1,4) show ?thesis by (simp add: import_workbook_bytes_def)
next
  case False
  let ?tx = "transaction p wb guild_id updated_at regs regional_mode (ps_parsed st)"
  let ?c = "\<lparr>c_db = d, c_file = d, c_lastrowid = 0, c_calls = 1\<rparr>"
  from False assms(3) have f0: "f 0 = None" by simp
  have nr: "list_all no_raise ?tx"
    by (rule transaction_no_raise [OF accepted_sound [OF assms(1)]])
  have "\<exists>c'. run f ?tx ?c = Inl (DbError msg, c') \<and> c_calls c' = Suc k"
  proof (rule run_first_fault [where k = k and msg = msg and f = f and c = ?c, OF nr _ assms(4)])
    show "\<forall>j. c_calls ?c \<le> j \<and> j < k \<longrightarrow> f j = None" using assms(3) by simp
    show "c_calls ?c \<le> k" using False by simp
    show "k < c_calls ?c + length ?tx" using assms(2) by simp
  qed
  then obtain c' where run: "run f ?tx ?c = Inl (DbError msg, c')" and calls: "c_calls c' = Suc k"
    by blast
  from run_failed_file [OF run transaction_no_commit] have unchanged: "c_file c' = d" by simp
  show ?thesis
  proof (cases "f (Suc k)")
    case None
    with calls have "rollback f c' = Inr (c'\<lparr>c_db := c_file c', c_calls := Suc (Suc k)\<rparr>)"
      by (simp add: rollback_def)
    with assms(1) f0 run unchanged False None show ?thesis
      by (simp add: import_workbook_bytes_def)
  next
    case (Some msg')
    with calls have "rollback f c' = Inl (DbError msg')" by (simp add: rollback_def)
    with assms(1) f0 run unchanged False Some show ?thesis
      by (simp add: import_workbook_bytes_def)
  qed
qed

definition small_workbook :: workbook where
  "small_workbook =
     [(''Encounter Types'', [[CStr ''type''], [CStr ''Combat'']]),
      (''Encounter - Combat'', [[CStr ''result''], [CStr ''Goblin'']]),
      (''Reward - Combat'', [[CStr ''result''], [CStr ''Gold'']])]"

definition small_parsed :: parse_state where
  "small_parsed =
     \<lparr>ps_errors = [],
      ps_parsed =
        [\<lparr>rb_region_id = None, rb_type_tab = ''Encounter Types'', rb_mode = ''uniform'',
          rb_max_roll = None, rb_types = [''Combat''],
          rb_enc_tables =
            [(''Combat'', \<lparr>tb_tab = ''Encounter - Combat'', tb_mode = ''uniform'',
                tb_entries = [\<lparr>e_min = None, e_max = None, e_weight = None, e_result = ''Goblin''\<rparr>],
                tb_max_roll = None\<rparr>)],
          rb_rew_tables =
            [(''Combat'', \<lparr>tb_tab = ''Reward - Combat'', tb_mode = ''uniform'',
                tb_entries = [\<lparr>e_min = None, e_max = None, e_weight = None, e_result = ''Gold''\<rparr>],
                tb_max_roll = None\<rparr>)]\<rparr>],
      ps_enc_types = 1, ps_enc_entries = 1, ps_rew_entries = 1\<rparr>"

lemmas import_eval =
  parse_workbook_def parse_regions_tab_def region_pass_def missing_tabs_def sheetnames_def
  entries_total_def enc_type_tab_def enc_tab_def rew_tab_def

lemma small_workbook_parsed:
  "parse_workbook p small_workbook = Inr (Accepted [] False small_parsed)"
  by (simp add: small_workbook_def small_parsed_def import_eval sheet_eval parse_eval)

lemma small_type_entries:
  "build_type_entries_from_sheet p small_workbook None =
     Inr [\<lparr>e_min = None, e_max = None, e_weight = None, e_result = ''Combat''\<rparr>]"
  by (simp add: build_type_entries_from_sheet_def small_workbook_def import_eval sheet_eval parse_eval)

lemma small_transaction:
  "transaction p small_workbook 7 u [] False (ps_parsed small_parsed) =
     [Upsert 7 u, DeleteTableDefs 7, DeleteRegions 7,
      InsertTable 7 ''encounter_type'' None None ''uniform'' None u,
      InsertEntry \<lparr>e_min = None, e_max = None, e_weight = None, e_result = ''Combat''\<rparr> 0,
      InsertTable 7 ''encounter'' None (Some ''Combat'') ''uniform'' None u,
      InsertEntry \<lparr>e_min = None, e_max = None, e_weight = None, e_result = ''Goblin''\<rparr> 0,
      InsertTable 7 ''reward'' None (Some ''Combat'') ''uniform'' None u,
      InsertEntry \<lparr>e_min = None, e_max = None, e_weight = None, e_result = ''Gold''\<rparr> 0,
      Commit]"
  by (simp add: transaction_def region_stmts_def small_type_entries table_stmts_def
      insert_entries_def small_parsed_def)

text \<open>
  The theorem at a fault in the fifth call alone, an insert, and at a fault that
  sets in with the commit, the tenth call, and stays.
\<close>

theorem storage_failure_rolls_back_witness:
  "\<forall>p d. parse_workbook p small_workbook = Inr (Accepted [] False small_parsed) \<and>
     10 \<le> length (transaction p small_workbook 7 ''2026-01-01'' [] False (ps_parsed small_parsed)) \<and>
     import_workbook_bytes p (\<lambda>n. if n = 5 then Some ''disk I/O error'' else None)
         ''2026-01-01'' d 7 small_workbook =
       (d, Inr (None, [ImportError ''DB'' None
                         ''Import failed during database write: disk I/O error''])) \<and>
     import_workbook_bytes p (\<lambda>n. if 10 \<le> n then Some ''database or disk is full'' else None)
         ''2026-01-01'' d 7 small_workbook =
       (d, Inl (DbError ''database or disk is full''))"
proof (intro allI conjI)
  fix p d
  let ?f = "\<lambda>n :: nat. if n = 5 then Some ''disk I/O error'' else None"
  let ?g = "\<lambda>n :: nat. if 10 \<le> n then Some ''database or disk is full'' else None"
  show acc: "parse_workbook p small_workbook = Inr (Accepted [] False small_parsed)"
    by (rule small_workbook_parsed)
  show len: "10 \<le> length (transaction p small_workbook 7 ''2026-01-01'' [] False (ps_parsed small_parsed))"
    by (simp add: small_transaction)
  have len5: "5 \<le> length (transaction p small_workbook 7 ''2026-01-01'' [] False (ps_parsed small_parsed))"
    by (simp add: small_transaction)
  have f1: "\<forall>j<5. ?f j = None" by simp
  have f5: "?f 5 = Some ''disk I/O error''" by simp
  have g1: "\<forall>j<10. ?g j = None" by simp
  have g10: "?g 10 = Some ''database or disk is full''" by simp
  from storage_failure_rolls_back [OF acc len5 f1 f5, where d = d]
  show "import_workbook_bytes p ?f ''2026-01-01'' d 7 small_workbook =
       (d, Inr (None, [ImportError ''DB'' None
                         ''Import failed during database write: disk I/O error'']))"
    by simp
  from storage_failure_rolls_back [OF acc len g1 g10, where d = d]
  show "import_workbook_bytes p ?g ''2026-01-01'' d 7 small_workbook =
       (d, Inl (DbError ''database or disk is full''))"
    by simp
qed

text \<open>
  C3 as stated fails for the first statement of the sequence: \<^verbatim>\<open>BEGIN\<close> is executed
  before the \<^verbatim>\<open>try\<close>, so its exception leaves the function uncaught and is not
  reported as a storage error. The database file is unchanged.
\<close>

theorem begin_failure_counterexample:
  "\<forall>p d. import_workbook_bytes p (\<lambda>n. if n = 0 then Some ''database is locked'' else None)
            ''2026-01-01'' d 7 small_workbook =
          (d, Inl (DbError ''database is locked''))"
  by (simp add: import_workbook_bytes_def small_workbook_parsed)

text \<open>
  C2 fails on the code. A type sheet with a \<^verbatim>\<open>min\<close> column, no \<^verbatim>\<open>max\<close> column and a
  data row: \<^verbatim>\<open>_detect_mode\<close> accumulates the error "Range mode requires both 'min'
  and 'max' columns." and still answers range mode, \<^verbatim>\<open>_validate_ranges\<close> then reads
  \<^verbatim>\<open>header_map["max"]\<close>, and the \<^verbatim>\<open>KeyError\<close> leaves the import: no error list is
  returned. The store is unchanged.
\<close>

theorem one_range_column_raises:
  "\<forall>p f updated_at d.
     import_workbook_bytes p f updated_at d 7
       [(''Encounter Types'', [[CStr ''type'', CStr ''min''], [CStr ''Combat'', CInt 1]])] =
     (d, Inl (KeyError ''max''))"
  by (simp add: import_workbook_bytes_def import_eval sheet_eval parse_eval)

section \<open>Facts about the export\<close>

definition empty_db :: db where
  "empty_db = \<lparr>db_guild_config = [], db_region = [], db_table_def = [], db_table_entry = []\<rparr>"

definition small_db :: db where
  "small_db =
     \<lparr>db_guild_config = [(7, ''2026-01-01'')],
      db_region = [],
      db_table_def =
        [\<lparr>td_id = 1, td_guild = 7, td_group = ''encounter_type'', td_region = None, td_type = None,
          td_mode = ''uniform'', td_max_roll = None, td_updated = ''2026-01-01''\<rparr>,
         \<lparr>td_id = 2, td_guild = 7, td_group = ''encounter'', td_region = None,
          td_type = Some ''Combat'', td_mode = ''uniform'', td_max_roll = None,
          td_updated = ''2026-01-01''\<rparr>,
         \<lparr>td_id = 3, td_guild = 7, td_group = ''reward'', td_region = None,
          td_type = Some ''Combat'', td_mode = ''uniform'', td_max_roll = None,
          td_updated = ''2026-01-01''\<rparr>],
      db_table_entry =
        [\<lparr>te_table = 1, te_min = None, te_max = None, te_weight = None, te_result = ''Combat'',
          te_sort = 0\<rparr>,
         \<lparr>te_table = 2, te_min = None, te_max = None, te_weight = None, te_result = ''Goblin'',
          te_sort = 0\<rparr>,
         \<lparr>te_table = 3, te_min = None, te_max = None, te_weight = None, te_result = ''Gold'',
          te_sort = 0\<rparr>]\<rparr>"

lemmas store_eval =
  upsert_guild_config_def delete_table_defs_def fresh_id_def

lemma small_import:
  "import_workbook_bytes p (\<lambda>n. None) ''2026-01-01'' empty_db 7 small_workbook =
     (small_db,
      Inr (Some \<lparr>encounter_types = 1, encounter_entries = 1, reward_types = 1,
                 reward_entries = 1, regions = 0\<rparr>, []))"
proof -
  have run: "run (\<lambda>n. None)
               (transaction p small_workbook 7 ''2026-01-01'' [] False (ps_parsed small_parsed))
               \<lparr>c_db = empty_db, c_file = empty_db, c_lastrowid = 0, c_calls = Suc 0\<rparr> =
             Inr \<lparr>c_db = small_db, c_file = small_db, c_lastrowid = 3, c_calls = 11\<rparr>"
    by (simp add: small_transaction empty_db_def small_db_def store_eval)
  have totals: "ps_enc_types small_parsed = 1" "ps_enc_entries small_parsed = 1"
    "ps_rew_entries small_parsed = 1"
    by (simp_all add: small_parsed_def)
  show ?thesis
    by (simp add: import_workbook_bytes_def small_workbook_parsed run totals)
qed

text \<open>The counts of a workbook without a Regions sheet, imported into the empty store.\<close>

theorem import_counts_witness:
  "\<forall>p. import_workbook_bytes p (\<lambda>n. None) ''2026-01-01'' empty_db 7 small_workbook =
         (small_db,
          Inr (Some \<lparr>encounter_types = 1, encounter_entries = 1, reward_types = 1,
                     reward_entries = 1, regions = 0\<rparr>, [])) \<and>
       ''Regions'' \<notin> set (sheetnames small_workbook)"
proof
  fix p
  let ?c = "\<lparr>encounter_types = 1, encounter_entries = 1, reward_types = 1,
             reward_entries = 1, regions = 0\<rparr>"
  have i: "import_workbook_bytes p (\<lambda>n. None) ''2026-01-01'' empty_db 7 small_workbook =
         (small_db, Inr (Some ?c, []))"
    by (rule small_import)
  from import_counts [OF i] have "regions ?c = 0 \<longleftrightarrow> ''Regions'' \<notin> set (sheetnames small_workbook)"
    by (elim conjE)
  then have "''Regions'' \<notin> set (sheetnames small_workbook)" by simp
  with i show "import_workbook_bytes p (\<lambda>n. None) ''2026-01-01'' empty_db 7 small_workbook =
         (small_db, Inr (Some ?c, [])) \<and> ''Regions'' \<notin> set (sheetnames small_workbook)"
    by (rule conjI)
qed

text \<open>
  The tenant has stored table definitions; and the shape every import leaves a
  tenant in: it has table definitions exactly when it has regions or a default
  encounter-type table.
\<close>

definition has_tables :: "db \<Rightarrow> int \<Rightarrow> bool" where
  "has_tables d guild_id = (\<exists>t\<in>set (db_table_def d). td_guild t = guild_id)"

definition tenant_ok :: "db \<Rightarrow> int \<Rightarrow> bool" where
  "tenant_ok d guild_id =
     (has_tables d guild_id \<longleftrightarrow>
        fetch_regions d guild_id \<noteq> [] \<or>
        fetch_table_def d guild_id ''encounter_type'' None None \<noteq> None)"



section \<open>The stores the bot can reach\<close>

text \<open>
  The export looks for the regions of a tenant and for its default
  \<^verbatim>\<open>encounter_type\<close> table, not for its table definitions as such. On every store
  the bot can reach the two agree: \<open>tenant_ok\<close> holds of the empty store, and imports
  and deletes keep it.
\<close>

definition table_key :: "table_def_row \<Rightarrow> int \<times> string \<times> int option \<times> string option" where
  "table_key t = (td_guild t, td_group t, td_region t, td_type t)"

lemma has_tables_keys: "has_tables d g \<longleftrightarrow> g \<in> fst ` table_key ` set (db_table_def d)"
  by (auto simp: has_tables_def table_key_def image_iff)

lemma fetch_table_def_keys:
  "fetch_table_def d g grp r ty \<noteq> None \<longleftrightarrow> (g, grp, r, ty) \<in> table_key ` set (db_table_def d)"
  by (auto simp: fetch_table_def_def find_None_iff table_key_def image_iff)

lemma sort_key_Nil_iff: "sort_key k xs = [] \<longleftrightarrow> xs = []"
  by (metis set_empty set_sort)

lemma fetch_regions_guilds: "fetch_regions d g \<noteq> [] \<longleftrightarrow> g \<in> rg_guild ` set (db_region d)"
  by (auto simp: fetch_regions_def sort_key_Nil_iff filter_empty_conv image_iff)

lemma tenant_ok_keys:
  "tenant_ok d g \<longleftrightarrow>
     (g \<in> fst ` table_key ` set (db_table_def d) \<longleftrightarrow>
        g \<in> rg_guild ` set (db_region d) \<or>
        (g, ''encounter_type'', None, None) \<in> table_key ` set (db_table_def d))"
  by (simp only: tenant_ok_def has_tables_keys fetch_table_def_keys fetch_regions_guilds)

text \<open>The keys and the regions that the inserts of a statement list add.\<close>

fun inserted_keys :: "stmt list \<Rightarrow> (int \<times> string \<times> int option \<times> string option) list" where
  "inserted_keys [] = []"
| "inserted_keys (InsertTable g grp r ty m mr u # rest) = (g, grp, r, ty) # inserted_keys rest"
| "inserted_keys (s # rest) = inserted_keys rest"

fun inserted_regions :: "stmt list \<Rightarrow> int list" where
  "inserted_regions [] = []"
| "inserted_regions (InsertRegion g rid name i # rest) = g # inserted_regions rest"
| "inserted_regions (s # rest) = inserted_regions rest"

fun no_delete :: "stmt \<Rightarrow> bool" where
  "no_delete (DeleteTableDefs g) = False"
| "no_delete (DeleteRegions g) = False"
| "no_delete s = True"

lemma run_inserts:
  assumes "run f stmts c = Inr c'" and "list_all no_delete stmts"
  shows "table_key ` set (db_table_def (c_db c')) =
           table_key ` set (db_table_def (c_db c)) \<union> set (inserted_keys stmts) \<and>
         rg_guild ` set (db_region (c_db c')) =
           rg_guild ` set (db_region (c_db c)) \<union> set (inserted_regions stmts)"
  using assms
proof (induction stmts arbitrary: c)
  case Nil
  then show ?case by simp
next
  case (Cons s stmts)
  show ?case
  proof (cases "\<exists>e. s = Raise e")
    case True
    with Cons.prems show ?thesis by auto
  next
    case False
    then have "no_raise s" by (cases s) auto
    note step = run_step [OF this, of f stmts c]
    let ?c = "(apply_stmt s c)\<lparr>c_calls := Suc (c_calls c)\<rparr>"
    from step Cons.prems(1) have r: "run f stmts ?c = Inr c'"
      by (cases "f (c_calls c)") simp_all
    from Cons.prems(2) have nd: "list_all no_delete stmts" "no_delete s" by simp_all
    note IH = Cons.IH [OF r nd(1)]
    have eff: "table_key ` set (db_table_def (c_db ?c)) \<union> set (inserted_keys stmts) =
                 table_key ` set (db_table_def (c_db c)) \<union> set (inserted_keys (s # stmts)) \<and>
               rg_guild ` set (db_region (c_db ?c)) \<union> set (inserted_regions stmts) =
                 rg_guild ` set (db_region (c_db c)) \<union> set (inserted_regions (s # stmts))"
      using nd(2) by (cases s) (auto simp: table_key_def upsert_guild_config_def)
    with IH show ?thesis by simp
  qed
qed

text \<open>A statement of the transaction of one tenant, after the two deletes.\<close>

fun insert_for :: "int \<Rightarrow> stmt \<Rightarrow> bool" where
  "insert_for g (InsertTable g' grp r ty m mr u) = (g' = g)"
| "insert_for g (InsertRegion g' rid name i) = (g' = g)"
| "insert_for g (DeleteTableDefs g') = False"
| "insert_for g (DeleteRegions g') = False"
| "insert_for g s = True"

lemma insert_for_keys:
  "list_all (insert_for g) stmts \<Longrightarrow>
     fst ` set (inserted_keys stmts) \<subseteq> {g} \<and> set (inserted_regions stmts) \<subseteq> {g} \<and>
     list_all no_delete stmts"
proof (induction stmts)
  case Nil
  then show ?case by simp
next
  case (Cons s stmts)
  then show ?case by (cases s) auto
qed

lemma inserted_keys_append: "inserted_keys (xs @ ys) = inserted_keys xs @ inserted_keys ys"
  by (induction xs rule: inserted_keys.induct) simp_all

lemma inserted_regions_append: "inserted_regions (xs @ ys) = inserted_regions xs @ inserted_regions ys"
  by (induction xs rule: inserted_regions.induct) simp_all

lemma insert_entries_for: "list_all (insert_for g) (insert_entries es)"
proof -
  have "list_all (insert_for g) (map (\<lambda>(i, e). InsertEntry e i) xs)" for xs :: "(nat \<times> entry) list"
    by (induction xs) auto
  then show ?thesis by (simp add: insert_entries_def)
qed

lemma insert_entries_regions: "inserted_regions (insert_entries es) = []"
proof -
  have "inserted_regions (map (\<lambda>(i, e). InsertEntry e i) xs) = []" for xs :: "(nat \<times> entry) list"
    by (induction xs) auto
  then show ?thesis by (simp add: insert_entries_def)
qed

lemma table_stmts_for: "list_all (insert_for g) (table_stmts g u grp r tables t)"
  by (simp add: table_stmts_def insert_entries_for split: option.split)

lemma table_stmts_regions: "inserted_regions (table_stmts g u grp r tables t) = []"
  by (simp add: table_stmts_def insert_entries_regions split: option.split)

lemma inserted_regions_concat:
  "(\<forall>xs\<in>set xss. inserted_regions xs = []) \<Longrightarrow> inserted_regions (concat xss) = []"
  by (induction xss) (simp_all add: inserted_regions_append)

lemma inserted_keys_concat:
  "set (inserted_keys (concat xss)) = (\<Union>xs\<in>set xss. set (inserted_keys xs))"
  by (induction xss) (simp_all add: inserted_keys_append)

lemma region_stmts_for: "list_all (insert_for g) (region_stmts p wb g u rb)"
  by (simp add: region_stmts_def Let_def list_all_concat insert_entries_for table_stmts_for split: sum.split)

lemma region_stmts_regions: "inserted_regions (region_stmts p wb g u rb) = []"
  by (simp add: region_stmts_def Let_def inserted_regions_append inserted_regions_concat
        insert_entries_regions table_stmts_regions split: sum.split)

lemma region_stmts_key:
  "(g, ''encounter_type'', map_option int_val (rb_region_id rb), None)
     \<in> set (inserted_keys (region_stmts p wb g u rb))"
  by (simp add: region_stmts_def Let_def)

definition tail_stmts ::
  "py \<Rightarrow> workbook \<Rightarrow> int \<Rightarrow> string \<Rightarrow> (pyint \<times> string) list \<Rightarrow> bool \<Rightarrow> region_blob list \<Rightarrow> stmt list" where
  "tail_stmts p wb g u regs regional parsed =
     (if regional
      then map (\<lambda>(i, (rid, name)). InsertRegion g (int_val rid) name i) (zip [0 ..< length regs] regs)
      else []) @
     concat (map (region_stmts p wb g u) parsed) @ [Commit]"

lemma transaction_tail:
  "transaction p wb g u regs regional parsed =
     [Upsert g u, DeleteTableDefs g, DeleteRegions g] @ tail_stmts p wb g u regs regional parsed"
  by (simp add: transaction_def tail_stmts_def)

lemma region_inserts_for:
  "list_all (insert_for g) (map (\<lambda>(i, (rid, name)). InsertRegion g (int_val rid) name i) xs)"
  by (induction xs) auto

lemma region_inserts_regions:
  "set (inserted_regions (map (\<lambda>(i, (rid, name)). InsertRegion g (int_val rid) name i) xs)) =
     (if xs = [] then {} else {g})"
proof -
  have "inserted_regions (map (\<lambda>(i, (rid, name)). InsertRegion g (int_val rid) name i) xs) = map (\<lambda>x. g) xs"
    by (induction xs) auto
  then show ?thesis by (cases xs) auto
qed

lemma region_inserts_keys:
  "inserted_keys (map (\<lambda>(i, (rid, name)). InsertRegion g (int_val rid) name i) xs) = []"
  by (induction xs) auto

lemma tail_stmts_for: "list_all (insert_for g) (tail_stmts p wb g u regs regional parsed)"
  by (simp add: tail_stmts_def list_all_concat region_inserts_for region_stmts_for)

lemma tail_stmts_regions:
  "set (inserted_regions (tail_stmts p wb g u regs regional parsed)) =
     (if regional \<and> regs \<noteq> [] then {g} else {})"
  by (simp add: tail_stmts_def inserted_regions_append inserted_regions_concat
        region_inserts_regions region_stmts_regions)

lemma tail_stmts_key:
  "rb \<in> set parsed \<Longrightarrow>
     (g, ''encounter_type'', map_option int_val (rb_region_id rb), None)
       \<in> set (inserted_keys (tail_stmts p wb g u regs regional parsed))"
  using region_stmts_key [of g rb p wb u]
  by (auto simp: tail_stmts_def inserted_keys_append inserted_keys_concat)

lemma region_pass_parsed:
  assumes "region_pass p wb rid st = Inr st'"
  shows "(ps_errors st \<noteq> [] \<longrightarrow> ps_errors st' \<noteq> []) \<and>
         (ps_errors st' = [] \<longrightarrow>
            map rb_region_id (ps_parsed st') = map rb_region_id (ps_parsed st) @ [rid])"
  using assms
  by (auto simp: region_pass_def Let_def split: sum.splits prod.splits if_splits)

lemma region_passes_parsed:
  assumes "region_passes p wb rids st = Inr st'" and "ps_errors st' = []"
  shows "map rb_region_id (ps_parsed st') = map rb_region_id (ps_parsed st) @ rids"
  using assms
proof (induction rids arbitrary: st)
  case Nil
  then show ?case by simp
next
  case (Cons rid rids)
  from Cons.prems(1) obtain st1 where
    1: "region_pass p wb rid st = Inr st1" and 2: "region_passes p wb rids st1 = Inr st'"
    by (auto split: sum.splits)
  have 3: "map rb_region_id (ps_parsed st') = map rb_region_id (ps_parsed st1) @ rids"
    using Cons.IH [OF 2 Cons.prems(2)] .
  have mono: "ps_errors s \<noteq> [] \<Longrightarrow> region_passes p wb rs s = Inr s' \<Longrightarrow> ps_errors s' \<noteq> []"
    for rs s s'
  proof (induction rs arbitrary: s)
    case Nil
    then show ?case by simp
  next
    case (Cons r rs)
    from Cons.prems(2) obtain s1 where
      a: "region_pass p wb r s = Inr s1" and b: "region_passes p wb rs s1 = Inr s'"
      by (auto split: sum.splits)
    from region_pass_parsed [OF a] Cons.prems(1) have "ps_errors s1 \<noteq> []" by simp
    then show ?case using Cons.IH b by blast
  qed
  have "ps_errors st1 = []" using mono [OF _ 2] Cons.prems(2) by blast
  with region_pass_parsed [OF 1] 3 show ?case by simp
qed

lemma accepted_parsed:
  assumes "parse_workbook p wb = Inr (Accepted regs regional st)"
  shows "map rb_region_id (ps_parsed st) =
           (if regional then map (\<lambda>(rid, name). Some rid) regs else [None]) \<and>
         (regional \<longrightarrow> regs \<noteq> [])"
proof -
  let ?st0 = "\<lparr>ps_errors = snd (parse_regions_tab p wb), ps_parsed = [], ps_enc_types = 0,
               ps_enc_entries = 0, ps_rew_entries = 0\<rparr>"
  let ?rids = "if regional then map (\<lambda>(rid, name). Some rid) regs else [None]"
  from assms have passes: "region_passes p wb ?rids ?st0 = Inr st" and ok: "ps_errors st = []"
    and regs: "regional \<longrightarrow> regs \<noteq> []"
    by (auto simp: parse_workbook_def Let_def split: prod.splits if_splits sum.splits)
  from region_passes_parsed [OF passes ok] regs show ?thesis by simp
qed

lemma run_deletes:
  assumes "run f [Upsert g u, DeleteTableDefs g, DeleteRegions g] c = Inr c3"
  shows "db_table_def (c_db c3) = filter (\<lambda>t. td_guild t \<noteq> g) (db_table_def (c_db c)) \<and>
         db_region (c_db c3) = filter (\<lambda>r. rg_guild r \<noteq> g) (db_region (c_db c))"
  using assms
  by (auto simp: delete_table_defs_def upsert_guild_config_def split: option.splits)

lemma keys_filter:
  "table_key ` set (filter (\<lambda>t. td_guild t \<noteq> g) ts) = {k \<in> table_key ` set ts. fst k \<noteq> g}"
proof -
  have 1: "set (filter (\<lambda>t. td_guild t \<noteq> g) ts) = {t \<in> set ts. fst (table_key t) \<noteq> g}"
    by (simp add: table_key_def)
  have 2: "table_key ` {t \<in> A. fst (table_key t) \<noteq> g} = {k \<in> table_key ` A. fst k \<noteq> g}" for A
    by blast
  show ?thesis by (simp only: 1 2)
qed

lemma regions_filter:
  "rg_guild ` set (filter (\<lambda>r. rg_guild r \<noteq> g) rs) = rg_guild ` set rs - {g}"
  by auto

lemma transaction_store:
  assumes "run f (transaction p wb g u regs regional parsed) c = Inr c'"
  shows "table_key ` set (db_table_def (c_db c')) =
           {k \<in> table_key ` set (db_table_def (c_db c)). fst k \<noteq> g} \<union>
           set (inserted_keys (tail_stmts p wb g u regs regional parsed)) \<and>
         rg_guild ` set (db_region (c_db c')) =
           (rg_guild ` set (db_region (c_db c)) - {g}) \<union>
           set (inserted_regions (tail_stmts p wb g u regs regional parsed))"
proof -
  let ?tail = "tail_stmts p wb g u regs regional parsed"
  let ?pre = "[Upsert g u, DeleteTableDefs g, DeleteRegions g]"
  from assms have h: "(case run f ?pre c of Inl e \<Rightarrow> Inl e | Inr c1 \<Rightarrow> run f ?tail c1) = Inr c'"
    by (simp only: transaction_tail run_append)
  obtain c3 where 1: "run f ?pre c = Inr c3" and 2: "run f ?tail c3 = Inr c'"
  proof (cases "run f ?pre c")
    case (Inl e)
    with h show ?thesis by (simp only: sum.case sum.distinct)
  next
    case (Inr c3)
    with h have "run f ?tail c3 = Inr c'" by (simp only: sum.case)
    with Inr show ?thesis by (rule that)
  qed
  have nd: "list_all no_delete ?tail"
    using insert_for_keys [OF tail_stmts_for] by blast
  have k3: "table_key ` set (db_table_def (c_db c3)) =
              {k \<in> table_key ` set (db_table_def (c_db c)). fst k \<noteq> g}"
    using run_deletes [OF 1] by (simp only: keys_filter)
  have r3: "rg_guild ` set (db_region (c_db c3)) = rg_guild ` set (db_region (c_db c)) - {g}"
    using run_deletes [OF 1] by (simp only: regions_filter)
  from run_inserts [OF 2 nd] k3 r3 show ?thesis by (simp only:)
qed

lemma import_store:
  assumes "import_workbook_bytes p f u d g wb = (d', r)"
  shows "d' = d \<or>
         (\<exists>regs regional st c'.
            parse_workbook p wb = Inr (Accepted regs regional st) \<and>
            run f (transaction p wb g u regs regional (ps_parsed st))
              \<lparr>c_db = d, c_file = d, c_lastrowid = 0, c_calls = 1\<rparr> = Inr c' \<and> d' = c_db c')"
proof (cases "parse_workbook p wb")
  case (Inl e)
  with assms show ?thesis by (simp add: import_workbook_bytes_def)
next
  case (Inr ph)
  show ?thesis
  proof (cases ph)
    case (Rejected errs)
    with Inr assms show ?thesis by (simp add: import_workbook_bytes_def)
  next
    case (Accepted regs regional st)
    let ?tx = "transaction p wb g u regs regional (ps_parsed st)"
    let ?c = "\<lparr>c_db = d, c_file = d, c_lastrowid = 0, c_calls = 1\<rparr>"
    show ?thesis
    proof (cases "f 0")
      case (Some msg)
      with Inr Accepted assms show ?thesis by (simp add: import_workbook_bytes_def)
    next
      case None
      show ?thesis
      proof (cases "run f ?tx ?c")
        case failed: (Inl x)
        obtain e c where x: "x = (e, c)" by (cases x)
        from run_failed_file [OF failed [unfolded x] transaction_no_commit]
        have "c_file c = d" by simp
        moreover have "rollback f c = Inr c' \<Longrightarrow> c_file c' = c_file c" for c'
          by (auto simp: rollback_def split: option.splits)
        ultimately have "d' = d"
          using assms Inr Accepted None failed x
          by (auto simp: import_workbook_bytes_def split: sum.splits)
        then show ?thesis ..
      next
        case ran: (Inr c')
        from transaction_commit_last obtain body where "?tx = body @ [Commit]" by blast
        with ran run_committed have "c_file c' = c_db c'" by metis
        with assms Inr Accepted None ran have "d' = c_db c'"
          by (simp add: import_workbook_bytes_def)
        with Inr Accepted ran show ?thesis by blast
      qed
    qed
  qed
qed

lemma import_keeps_tenant_ok:
  assumes ok: "tenant_ok d g'" and imp: "import_workbook_bytes p f u d g wb = (d', r)"
  shows "tenant_ok d' g'"
proof (cases "d' = d")
  case True
  with ok show ?thesis by simp
next
  case False
  with import_store [OF imp] obtain regs regional st c' where
    acc: "parse_workbook p wb = Inr (Accepted regs regional st)" and
    run: "run f (transaction p wb g u regs regional (ps_parsed st))
            \<lparr>c_db = d, c_file = d, c_lastrowid = 0, c_calls = 1\<rparr> = Inr c'" and
    d': "d' = c_db c'"
    by blast
  let ?tail = "tail_stmts p wb g u regs regional (ps_parsed st)"
  let ?K = "table_key ` set (db_table_def d)"
  let ?R = "rg_guild ` set (db_region d)"
  let ?IK = "set (inserted_keys ?tail)"
  let ?IR = "set (inserted_regions ?tail)"
  from transaction_store [OF run] d' have
    K': "table_key ` set (db_table_def d') = {k \<in> ?K. fst k \<noteq> g} \<union> ?IK" and
    R': "rg_guild ` set (db_region d') = (?R - {g}) \<union> ?IR"
    by simp_all
  have IKg: "fst ` ?IK \<subseteq> {g}" using insert_for_keys [OF tail_stmts_for] by blast
  have IR: "?IR = (if regional then {g} else {})"
    using accepted_parsed [OF acc] by (simp add: tail_stmts_regions)
  show ?thesis
  proof (cases "g' = g")
    case False
    have "g' \<in> fst ` ({k \<in> ?K. fst k \<noteq> g} \<union> ?IK) \<longleftrightarrow> g' \<in> fst ` ?K"
      using False IKg by force
    moreover have "g' \<in> (?R - {g}) \<union> ?IR \<longleftrightarrow> g' \<in> ?R"
      using False IR by (simp split: if_splits)
    moreover have "(g', ''encounter_type'', None, None) \<in> {k \<in> ?K. fst k \<noteq> g} \<union> ?IK \<longleftrightarrow>
                   (g', ''encounter_type'', None, None) \<in> ?K"
      using False IKg by force
    ultimately show ?thesis
      using ok unfolding tenant_ok_keys K' R' by simp
  next
    case True
    from accepted_parsed [OF acc] have "map rb_region_id (ps_parsed st) \<noteq> []"
      by (simp split: if_splits)
    then obtain rb where rb: "rb \<in> set (ps_parsed st)"
      by (cases "ps_parsed st") auto
    from tail_stmts_key [OF rb] have has: "g \<in> fst ` ?IK" by force
    have "g \<in> ?IR \<or> (g, ''encounter_type'', None, None) \<in> ?IK"
    proof (cases regional)
      case True
      with IR show ?thesis by simp
    next
      case False
      with accepted_parsed [OF acc] have "map rb_region_id (ps_parsed st) = [None]" by simp
      then obtain rb0 where "rb0 \<in> set (ps_parsed st)" and "rb_region_id rb0 = None"
        by (cases "ps_parsed st") auto
      with tail_stmts_key [of rb0 "ps_parsed st" g p wb u regs regional] show ?thesis by simp
    qed
    with has show ?thesis unfolding tenant_ok_keys K' R' True by blast
  qed
qed

text \<open>
  delete_cmd.py, \<^verbatim>\<open>delete_guild_data\<close>, which opens its own connection and closes
  it. \<^verbatim>\<open>BEGIN\<close> stands before the \<^verbatim>\<open>try\<close> here too; the handler rolls back and
  raises the exception again, unless the rollback raises first. The result is the
  database file after the call and the exception that leaves the function, if one
  does.
\<close>

definition delete_guild_data :: "faults \<Rightarrow> db \<Rightarrow> int \<Rightarrow> db \<times> exn option" where
  "delete_guild_data f d guild_id =
     (case f 0 of
        Some msg \<Rightarrow> (d, Some (DbError msg))
      | None \<Rightarrow>
          (case run f [DeleteRegions guild_id, DeleteTableDefs guild_id, DeleteConfig guild_id,
                       Commit]
                  \<lparr>c_db = d, c_file = d, c_lastrowid = 0, c_calls = 1\<rparr> of
             Inl (e, c) \<Rightarrow>
               (case rollback f c of
                  Inl e' \<Rightarrow> (c_file c, Some e')
                | Inr c' \<Rightarrow> (c_file c', Some e))
           | Inr c \<Rightarrow> (c_file c, None)))"

text \<open>
  The stores the bot can hold: the empty one that \<^verbatim>\<open>init_db\<close> creates, and what an
  import or a delete makes of one of them. Nothing else in the sources writes.
\<close>

inductive reachable :: "db \<Rightarrow> bool" where
  reach_start: "reachable empty_db"
| reach_import: "reachable d \<Longrightarrow> import_workbook_bytes p f u d g wb = (d', r) \<Longrightarrow> reachable d'"
| reach_delete: "reachable d \<Longrightarrow> delete_guild_data f d g = (d', e) \<Longrightarrow> reachable d'"

lemma delete_store:
  assumes "delete_guild_data f d g = (d', e)"
  shows "d' = d \<or>
         (db_table_def d' = filter (\<lambda>t. td_guild t \<noteq> g) (db_table_def d) \<and>
          db_region d' = filter (\<lambda>r. rg_guild r \<noteq> g) (db_region d) \<and>
          set (db_table_entry d') \<subseteq> set (db_table_entry d))"
proof (cases "f 0")
  case (Some msg)
  with assms show ?thesis by (simp add: delete_guild_data_def)
next
  case None
  let ?tx = "[DeleteRegions g, DeleteTableDefs g, DeleteConfig g, Commit]"
  let ?c = "\<lparr>c_db = d, c_file = d, c_lastrowid = 0, c_calls = 1\<rparr>"
  show ?thesis
  proof (cases "run f ?tx ?c")
    case failed: (Inl x)
    obtain ex c where x: "x = (ex, c)" by (cases x)
    have "list_all no_commit (butlast ?tx)" by simp
    from run_failed_file [OF failed [unfolded x] this] have "c_file c = d" by simp
    moreover have "rollback f c = Inr c' \<Longrightarrow> c_file c' = c_file c" for c'
      by (auto simp: rollback_def split: option.splits)
    ultimately have "d' = d"
      using assms None failed x
      by (auto simp: delete_guild_data_def split: sum.splits)
    then show ?thesis ..
  next
    case ran: (Inr c)
    then have "db_table_def (c_file c) = filter (\<lambda>t. td_guild t \<noteq> g) (db_table_def d) \<and>
        db_region (c_file c) = filter (\<lambda>r. rg_guild r \<noteq> g) (db_region d) \<and>
        set (db_table_entry (c_file c)) \<subseteq> set (db_table_entry d)"
      by (auto simp: delete_table_defs_def split: option.splits)
    moreover from assms None ran have "d' = c_file c" by (simp add: delete_guild_data_def)
    ultimately show ?thesis by simp
  qed
qed

lemma delete_keeps_tenant_ok:
  assumes ok: "tenant_ok d g'" and del: "delete_guild_data f d g = (d', e)"
  shows "tenant_ok d' g'"
proof (cases "d' = d")
  case True
  with ok show ?thesis by simp
next
  case False
  with delete_store [OF del] have
    T: "db_table_def d' = filter (\<lambda>t. td_guild t \<noteq> g) (db_table_def d)" and
    R: "db_region d' = filter (\<lambda>r. rg_guild r \<noteq> g) (db_region d)"
    by simp_all
  let ?K = "table_key ` set (db_table_def d)"
  let ?R = "rg_guild ` set (db_region d)"
  have K': "table_key ` set (db_table_def d') = {k \<in> ?K. fst k \<noteq> g}"
    by (simp only: T keys_filter)
  have R': "rg_guild ` set (db_region d') = ?R - {g}"
    by (simp only: R regions_filter)
  show ?thesis
  proof (cases "g' = g")
    case True
    show ?thesis unfolding tenant_ok_keys K' R' True by force
  next
    case False
    have "g' \<in> fst ` {k \<in> ?K. fst k \<noteq> g} \<longleftrightarrow> g' \<in> fst ` ?K"
      using False by force
    then show ?thesis
      using ok False unfolding tenant_ok_keys K' R' by simp
  qed
qed

lemma tenant_ok_empty: "tenant_ok empty_db g"
  by (simp add: tenant_ok_def has_tables_def fetch_table_def_def fetch_regions_def empty_db_def)

lemma reachable_tenant_ok: "reachable d \<Longrightarrow> tenant_ok d g"
proof (induction rule: reachable.induct)
  case reach_start
  show ?case by (rule tenant_ok_empty)
next
  case (reach_import d p f u g0 wb d' r)
  from reach_import.IH reach_import.hyps(2) show ?case by (rule import_keeps_tenant_ok)
next
  case (reach_delete d f g0 d' e)
  from reach_delete.IH reach_delete.hyps(2) show ?case by (rule delete_keeps_tenant_ok)
qed

subsection \<open>What the stored tables hold\<close>

text \<open>
  The rolls draw from \<^verbatim>\<open>random.randint(1, total)\<close> and \<^verbatim>\<open>random.randint(1, max_roll)\<close>,
  which needs a positive bound. Every store the bot can reach has one: the
  importer keeps a weight only if it is positive (\<^verbatim>\<open>if w is None or w <= 0: continue\<close>)
  and a \<^verbatim>\<open>max_roll\<close> only if it is positive (\<^verbatim>\<open>mr if mr > 0 else None\<close>).
\<close>

definition positive_opt :: "int option \<Rightarrow> bool" where
  "positive_opt v = (case v of None \<Rightarrow> True | Some n \<Rightarrow> 0 < n)"

definition store_ok :: "db \<Rightarrow> bool" where
  "store_ok d =
     ((\<forall>e\<in>set (db_table_entry d). positive_opt (te_weight e)) \<and>
      (\<forall>t\<in>set (db_table_def d). positive_opt (td_max_roll t)))"

fun stmt_ok :: "stmt \<Rightarrow> bool" where
  "stmt_ok (InsertTable g grp r ty m mr u) = positive_opt mr"
| "stmt_ok (InsertEntry e i) = positive_opt (e_weight e)"
| "stmt_ok s = True"

definition table_blob_ok :: "table_blob \<Rightarrow> bool" where
  "table_blob_ok b =
     (positive_opt (tb_max_roll b) \<and> (\<forall>e\<in>set (tb_entries b). positive_opt (e_weight e)))"

definition region_blob_ok :: "region_blob \<Rightarrow> bool" where
  "region_blob_ok rb =
     (positive_opt (rb_max_roll rb) \<and>
      (\<forall>b\<in>snd ` set (rb_enc_tables rb). table_blob_ok b) \<and>
      (\<forall>b\<in>snd ` set (rb_rew_tables rb). table_blob_ok b))"

lemma apply_stmt_ok:
  assumes "store_ok (c_db c)" and "stmt_ok s"
  shows "store_ok (c_db (apply_stmt s c))"
  using assms
  by (cases s) (auto simp: store_ok_def delete_table_defs_def upsert_guild_config_def)

lemma run_ok:
  assumes "run f stmts c = Inr c'" and "list_all stmt_ok stmts" and "store_ok (c_db c)"
  shows "store_ok (c_db c')"
  using assms
proof (induction stmts arbitrary: c)
  case Nil
  then show ?case by simp
next
  case (Cons s stmts)
  show ?case
  proof (cases "\<exists>e. s = Raise e")
    case True
    with Cons.prems show ?thesis by auto
  next
    case False
    then have "no_raise s" by (cases s) auto
    note step = run_step [OF this, of f stmts c]
    let ?c = "(apply_stmt s c)\<lparr>c_calls := Suc (c_calls c)\<rparr>"
    from step Cons.prems(1) have r: "run f stmts ?c = Inr c'"
      by (cases "f (c_calls c)") simp_all
    from Cons.prems(2) have ok: "list_all stmt_ok stmts" "stmt_ok s" by simp_all
    from apply_stmt_ok [OF Cons.prems(3) ok(2)] have "store_ok (c_db ?c)" by simp
    with Cons.IH [OF r ok(1)] show ?thesis .
  qed
qed

lemma range_entries_weight: "e \<in> set (range_entries p ckey cmin cmax data) \<Longrightarrow> e_weight e = None"
  by (auto simp: range_entries_def Let_def split: if_splits option.splits prod.splits)

lemma weight_entries_weight:
  "e \<in> set (weight_entries p ckey cw data) \<Longrightarrow> \<exists>w. e_weight e = Some w \<and> 0 < w"
  by (auto simp: weight_entries_def Let_def split: if_splits option.splits prod.splits)

lemma uniform_entries_weight: "e \<in> set (uniform_entries p ckey data) \<Longrightarrow> e_weight e = None"
  by (auto simp: uniform_entries_def Let_def split: if_splits option.splits prod.splits)

lemma mode_entries_ok:
  assumes "mode_entries p hm ckey mode data = Inr es" and "e \<in> set es"
  shows "positive_opt (e_weight e)"
proof -
  consider (r) cmin cmax where "es = range_entries p ckey cmin cmax data"
    | (w) cw where "es = weight_entries p ckey cw data"
    | (u) "es = uniform_entries p ckey data"
    | (n) "es = []"
    using assms(1)
    by (auto simp: mode_entries_def if_reached_def Let_def split: if_splits sum.splits prod.splits)
  then show ?thesis
  proof cases
    case r
    with assms(2) range_entries_weight show ?thesis by (simp add: positive_opt_def)
  next
    case w
    with assms(2) weight_entries_weight [of e p ckey cw data] show ?thesis
      by (auto simp: positive_opt_def)
  next
    case u
    with assms(2) uniform_entries_weight show ?thesis by (simp add: positive_opt_def)
  next
    case n
    with assms(2) show ?thesis by simp
  qed
qed

lemma range_max_roll_ok: "positive_opt (range_max_roll es)"
  by (simp add: range_max_roll_def Let_def positive_opt_def)

lemma parse_result_tab_ok:
  assumes "parse_result_tab p wb tab = Inr (mode, es, mr, errs)"
  shows "positive_opt mr \<and> (\<forall>e\<in>set es. positive_opt (e_weight e))"
proof -
  have none: "positive_opt None" by (simp add: positive_opt_def)
  consider (empty) "es = []" and "mr = None"
    | (kept) hm cres data where "mode_entries p hm cres mode data = Inr es"
        and "mr = (if mode = ROLL_RANGE then range_max_roll es else None)"
    using assms
    by (auto simp: parse_result_tab_def Let_def split: option.splits prod.splits sum.splits)
  then show ?thesis
  proof cases
    case empty
    with none show ?thesis by simp
  next
    case kept
    from kept(2) none have "positive_opt mr" by (simp add: range_max_roll_ok)
    with mode_entries_ok [OF kept(1)] show ?thesis by blast
  qed
qed

lemma parse_type_tab_ok:
  assumes "parse_type_tab p wb tab = Inr (mode, types, mr, errs)"
  shows "positive_opt mr"
proof -
  have none: "positive_opt None" by (simp add: positive_opt_def)
  from assms have "mr = None \<or> (\<exists>es. mr = range_max_roll es)"
    by (auto simp: parse_type_tab_def Let_def split: option.splits prod.splits sum.splits if_splits)
  with none show ?thesis by (auto simp: range_max_roll_ok)
qed

lemma build_type_entries_ok:
  assumes "build_type_entries_from_sheet p wb region_id = Inr es" and "e \<in> set es"
  shows "positive_opt (e_weight e)"
proof -
  from assms(1) have "es = [] \<or> (\<exists>hm ctype mode data. mode_entries p hm ctype mode data = Inr es)"
    by (auto simp: build_type_entries_from_sheet_def Let_def
          split: option.splits prod.splits if_splits)
  with assms(2) mode_entries_ok show ?thesis by auto
qed

lemma parse_tables_ok:
  assumes "parse_tables p wb tabname ts = Inr (tables, errs)"
  shows "\<forall>b\<in>snd ` set tables. table_blob_ok b"
  using assms
proof (induction ts arbitrary: tables errs)
  case Nil
  then show ?case by simp
next
  case (Cons t ts)
  from Cons.prems obtain mode es mr tab_errs tables' errs' where
    1: "parse_result_tab p wb (tabname t) = Inr (mode, es, mr, tab_errs)" and
    2: "parse_tables p wb tabname ts = Inr (tables', errs')" and
    3: "tables = (t, \<lparr>tb_tab = tabname t, tb_mode = mode, tb_entries = es, tb_max_roll = mr\<rparr>) # tables'"
    by (auto split: sum.splits prod.splits)
  from parse_result_tab_ok [OF 1] have
    "table_blob_ok \<lparr>tb_tab = tabname t, tb_mode = mode, tb_entries = es, tb_max_roll = mr\<rparr>"
    by (simp add: table_blob_ok_def)
  with Cons.IH [OF 2] 3 show ?case by simp
qed

lemma region_pass_ok:
  assumes "region_pass p wb rid st = Inr st'" and "list_all region_blob_ok (ps_parsed st)"
  shows "list_all region_blob_ok (ps_parsed st')"
proof (cases "ps_parsed st' = ps_parsed st")
  case True
  with assms(2) show ?thesis by simp
next
  case False
  with assms(1) obtain mode types mr errs enc_tables enc_errs rew_tables rew_errs where
    1: "parse_type_tab p wb (enc_type_tab rid) = Inr (mode, types, mr, errs)" and
    2: "parse_tables p wb (enc_tab rid) types = Inr (enc_tables, enc_errs)" and
    3: "parse_tables p wb (rew_tab rid) types = Inr (rew_tables, rew_errs)" and
    4: "ps_parsed st' = ps_parsed st @
          [\<lparr>rb_region_id = rid, rb_type_tab = enc_type_tab rid, rb_mode = mode, rb_max_roll = mr,
            rb_types = types, rb_enc_tables = enc_tables, rb_rew_tables = rew_tables\<rparr>]"
    by (auto simp: region_pass_def Let_def split: sum.splits prod.splits if_splits)
  from parse_type_tab_ok [OF 1] parse_tables_ok [OF 2] parse_tables_ok [OF 3]
  have "region_blob_ok
          \<lparr>rb_region_id = rid, rb_type_tab = enc_type_tab rid, rb_mode = mode, rb_max_roll = mr,
            rb_types = types, rb_enc_tables = enc_tables, rb_rew_tables = rew_tables\<rparr>"
    by (simp add: region_blob_ok_def)
  with assms(2) 4 show ?thesis by simp
qed

lemma region_passes_ok:
  assumes "region_passes p wb rids st = Inr st'" and "list_all region_blob_ok (ps_parsed st)"
  shows "list_all region_blob_ok (ps_parsed st')"
  using assms
proof (induction rids arbitrary: st)
  case Nil
  then show ?case by simp
next
  case (Cons rid rids)
  from Cons.prems(1) obtain st1 where
    1: "region_pass p wb rid st = Inr st1" and 2: "region_passes p wb rids st1 = Inr st'"
    by (auto split: sum.splits)
  from Cons.IH [OF 2 region_pass_ok [OF 1 Cons.prems(2)]] show ?case .
qed

lemma accepted_ok:
  assumes "parse_workbook p wb = Inr (Accepted regs regional st)"
  shows "list_all region_blob_ok (ps_parsed st)"
proof -
  let ?st0 = "\<lparr>ps_errors = snd (parse_regions_tab p wb), ps_parsed = [], ps_enc_types = 0,
               ps_enc_entries = 0, ps_rew_entries = 0\<rparr>"
  let ?rids = "if regional then map (\<lambda>(rid, name). Some rid) regs else [None]"
  from assms have "region_passes p wb ?rids ?st0 = Inr st"
    by (auto simp: parse_workbook_def Let_def split: prod.splits if_splits sum.splits)
  from region_passes_ok [OF this] show ?thesis by simp
qed

lemma insert_entries_ok:
  "\<forall>e\<in>set es. positive_opt (e_weight e) \<Longrightarrow> list_all stmt_ok (insert_entries es)"
  by (auto simp: insert_entries_def list_all_iff dest: set_zip_rightD)

lemma table_stmts_ok:
  assumes "\<forall>b\<in>snd ` set tables. table_blob_ok b"
  shows "list_all stmt_ok (table_stmts g u grp r tables t)"
proof (cases "map_of tables t")
  case None
  then show ?thesis by (simp add: table_stmts_def)
next
  case (Some b)
  then have "(t, b) \<in> set tables" by (rule map_of_SomeD)
  then have "b \<in> snd ` set tables" by force
  with assms have "table_blob_ok b" by blast
  with Some show ?thesis by (simp add: table_stmts_def table_blob_ok_def insert_entries_ok)
qed

lemma region_stmts_ok:
  assumes "region_blob_ok rb"
  shows "list_all stmt_ok (region_stmts p wb g u rb)"
proof -
  from assms have mr: "positive_opt (rb_max_roll rb)"
    and enc: "\<forall>b\<in>snd ` set (rb_enc_tables rb). table_blob_ok b"
    and rew: "\<forall>b\<in>snd ` set (rb_rew_tables rb). table_blob_ok b"
    by (simp_all add: region_blob_ok_def)
  show ?thesis
  proof (cases "build_type_entries_from_sheet p wb (rb_region_id rb)")
    case (Inl e)
    with mr show ?thesis by (simp add: region_stmts_def Let_def)
  next
    case (Inr es)
    from build_type_entries_ok [OF Inr] have "list_all stmt_ok (insert_entries es)"
      by (simp add: insert_entries_ok)
    with Inr mr table_stmts_ok [OF enc] table_stmts_ok [OF rew] show ?thesis
      by (simp add: region_stmts_def Let_def list_all_concat)
  qed
qed

lemma region_inserts_ok:
  "list_all stmt_ok (map (\<lambda>(i, (rid, name)). InsertRegion g (int_val rid) name i) xs)"
  by (induction xs) auto

lemma transaction_ok:
  assumes "list_all region_blob_ok parsed"
  shows "list_all stmt_ok (transaction p wb g u regs regional parsed)"
proof -
  from assms have "\<forall>rb\<in>set parsed. list_all stmt_ok (region_stmts p wb g u rb)"
    by (induction parsed) (simp_all add: region_stmts_ok)
  then show ?thesis
    by (simp add: transaction_def list_all_concat region_inserts_ok)
qed

lemma import_keeps_store_ok:
  assumes ok: "store_ok d" and imp: "import_workbook_bytes p f u d g wb = (d', r)"
  shows "store_ok d'"
proof (cases "d' = d")
  case True
  with ok show ?thesis by simp
next
  case False
  with import_store [OF imp] obtain regs regional st c' where
    acc: "parse_workbook p wb = Inr (Accepted regs regional st)" and
    run: "run f (transaction p wb g u regs regional (ps_parsed st))
            \<lparr>c_db = d, c_file = d, c_lastrowid = 0, c_calls = 1\<rparr> = Inr c'" and
    d': "d' = c_db c'"
    by blast
  from run_ok [OF run transaction_ok [OF accepted_ok [OF acc]]] ok d' show ?thesis by simp
qed

lemma delete_keeps_store_ok:
  assumes ok: "store_ok d" and del: "delete_guild_data f d g = (d', e)"
  shows "store_ok d'"
proof (cases "d' = d")
  case True
  with ok show ?thesis by simp
next
  case False
  with delete_store [OF del] have "set (db_table_def d') \<subseteq> set (db_table_def d)"
    and "set (db_table_entry d') \<subseteq> set (db_table_entry d)"
    by auto
  with ok show ?thesis unfolding store_ok_def by blast
qed

lemma reachable_store_ok: "reachable d \<Longrightarrow> store_ok d"
proof (induction rule: reachable.induct)
  case reach_start
  show ?case by (simp add: store_ok_def empty_db_def)
next
  case (reach_import d p f u g0 wb d' r)
  from reach_import.IH reach_import.hyps(2) show ?case by (rule import_keeps_store_ok)
next
  case (reach_delete d f g0 d' e)
  from reach_delete.IH reach_delete.hyps(2) show ?case by (rule delete_keeps_store_ok)
qed

lemma reachable_weights:
  assumes "reachable d" and "r \<in> set (fetch_table_entries d table_id)" and "te_weight r = Some w"
  shows "0 < w"
proof -
  from assms(2) have "r \<in> set (db_table_entry d)" by (simp add: fetch_table_entries_def)
  with reachable_store_ok [OF assms(1)] have "positive_opt (te_weight r)"
    by (simp add: store_ok_def)
  with assms(3) show ?thesis by (simp add: positive_opt_def)
qed

lemma reachable_max_roll:
  assumes "reachable d" and "fetch_table_def d guild_id group_key region_id type_key = Some t"
    and "td_max_roll t = Some m"
  shows "0 < m"
proof -
  from assms(2) have "t \<in> set (db_table_def d)"
    by (auto simp: fetch_table_def_def find_Some_iff)
  with reachable_store_ok [OF assms(1)] have "positive_opt (td_max_roll t)"
    by (simp add: store_ok_def)
  with assms(3) show ?thesis by (simp add: positive_opt_def)
qed

section \<open>The round trip\<close>

text \<open>
  A workbook that lists the type \<open>A\<close> twice and has a type \<open>A1\<close>, the store its
  import leaves, and the workbook the export builds from that store.
\<close>

definition duplicate_type_workbook :: workbook where
  "duplicate_type_workbook =
     [(''Encounter Types'', [[CStr ''type''], [CStr ''A''], [CStr ''A''], [CStr ''A1'']]),
      (''Encounter - A'', [[CStr ''result''], [CStr ''Goblin'']]),
      (''Reward - A'', [[CStr ''result''], [CStr ''Gold'']]),
      (''Encounter - A1'', [[CStr ''result''], [CStr ''Dragon'']]),
      (''Reward - A1'', [[CStr ''result''], [CStr ''Hoard'']])]"

definition duplicate_type_db :: db where
  "duplicate_type_db =
     \<lparr>db_guild_config = [(7, ''2026-01-01'')],
      db_region = [],
      db_table_def =
        [\<lparr>td_id = 1, td_guild = 7, td_group = ''encounter_type'', td_region = None, td_type = None,
          td_mode = ''uniform'', td_max_roll = None, td_updated = ''2026-01-01''\<rparr>,
         \<lparr>td_id = 2, td_guild = 7, td_group = ''encounter'', td_region = None,
          td_type = Some ''A'', td_mode = ''uniform'', td_max_roll = None,
          td_updated = ''2026-01-01''\<rparr>,
         \<lparr>td_id = 3, td_guild = 7, td_group = ''reward'', td_region = None,
          td_type = Some ''A'', td_mode = ''uniform'', td_max_roll = None,
          td_updated = ''2026-01-01''\<rparr>,
         \<lparr>td_id = 4, td_guild = 7, td_group = ''encounter'', td_region = None,
          td_type = Some ''A1'', td_mode = ''uniform'', td_max_roll = None,
          td_updated = ''2026-01-01''\<rparr>,
         \<lparr>td_id = 5, td_guild = 7, td_group = ''reward'', td_region = None,
          td_type = Some ''A1'', td_mode = ''uniform'', td_max_roll = None,
          td_updated = ''2026-01-01''\<rparr>],
      db_table_entry =
        [\<lparr>te_table = 1, te_min = None, te_max = None, te_weight = None, te_result = ''A'',
          te_sort = 0\<rparr>,
         \<lparr>te_table = 1, te_min = None, te_max = None, te_weight = None, te_result = ''A'',
          te_sort = 1\<rparr>,
         \<lparr>te_table = 1, te_min = None, te_max = None, te_weight = None, te_result = ''A1'',
          te_sort = 2\<rparr>,
         \<lparr>te_table = 2, te_min = None, te_max = None, te_weight = None, te_result = ''Goblin'',
          te_sort = 0\<rparr>,
         \<lparr>te_table = 3, te_min = None, te_max = None, te_weight = None, te_result = ''Gold'',
          te_sort = 0\<rparr>,
         \<lparr>te_table = 4, te_min = None, te_max = None, te_weight = None, te_result = ''Dragon'',
          te_sort = 0\<rparr>,
         \<lparr>te_table = 5, te_min = None, te_max = None, te_weight = None, te_result = ''Hoard'',
          te_sort = 0\<rparr>]\<rparr>"

definition duplicate_type_export :: workbook where
  "duplicate_type_export =
     [(''Encounter Types'', [[CStr ''type''], [CStr ''A''], [CStr ''A''], [CStr ''A1'']]),
      (''Encounter - A'', [[CStr ''result''], [CStr ''Goblin'']]),
      (''Reward - A'', [[CStr ''result''], [CStr ''Gold'']]),
      (''Encounter - A1'', [[CStr ''result''], [CStr ''Goblin'']]),
      (''Reward - A1'', [[CStr ''result''], [CStr ''Gold'']]),
      (''Encounter - A11'', [[CStr ''result''], [CStr ''Dragon'']]),
      (''Reward - A11'', [[CStr ''result''], [CStr ''Hoard'']])]"

lemma duplicate_type_import:
  "import_workbook_bytes p (\<lambda>n. None) ''2026-01-01'' empty_db 7 duplicate_type_workbook =
     (duplicate_type_db,
      Inr (Some \<lparr>encounter_types = 2, encounter_entries = 2, reward_types = 2,
                 reward_entries = 2, regions = 0\<rparr>, []))"
  by (simp add: import_workbook_bytes_def duplicate_type_workbook_def duplicate_type_db_def
      empty_db_def import_eval sheet_eval parse_eval store_eval
      transaction_def region_stmts_def Let_def table_stmts_def insert_entries_def
      build_type_entries_from_sheet_def)

lemma duplicate_type_exported:
  "build_workbook_bytes duplicate_type_db 7 = Inr duplicate_type_export"
  by code_simp

text \<open>
  C1 fails on the code. The import keeps each type once but stores every row of
  the type sheet, and the export writes the encounter and reward sheets once per
  stored row. For the second row \<open>A\<close> the titles are taken already and
  \<^verbatim>\<open>create_sheet\<close> numbers them: \<^verbatim>\<open>Encounter - A1\<close> and \<^verbatim>\<open>Reward - A1\<close>, the titles
  of the type \<open>A1\<close>, whose own sheets become \<^verbatim>\<open>Encounter - A11\<close> and
  \<^verbatim>\<open>Reward - A11\<close>. The table of type \<open>A1\<close> had the entry Dragon in the workbook
  imported and has the entry Goblin in the workbook exported.
\<close>

theorem duplicate_type_round_trip:
  "\<forall>p. import_workbook_bytes p (\<lambda>n. None) ''2026-01-01'' empty_db 7 duplicate_type_workbook =
         (duplicate_type_db,
          Inr (Some \<lparr>encounter_types = 2, encounter_entries = 2, reward_types = 2,
                     reward_entries = 2, regions = 0\<rparr>, [])) \<and>
       build_workbook_bytes duplicate_type_db 7 = Inr duplicate_type_export \<and>
       parse_result_tab p duplicate_type_workbook ''Encounter - A1'' =
         Inr (''uniform'', [\<lparr>e_min = None, e_max = None, e_weight = None, e_result = ''Dragon''\<rparr>],
              None, []) \<and>
       parse_result_tab p duplicate_type_export ''Encounter - A1'' =
         Inr (''uniform'', [\<lparr>e_min = None, e_max = None, e_weight = None, e_result = ''Goblin''\<rparr>],
              None, [])"
proof (intro allI conjI)
  fix p
  show "import_workbook_bytes p (\<lambda>n. None) ''2026-01-01'' empty_db 7 duplicate_type_workbook =
         (duplicate_type_db,
          Inr (Some \<lparr>encounter_types = 2, encounter_entries = 2, reward_types = 2,
                     reward_entries = 2, regions = 0\<rparr>, []))"
    by (rule duplicate_type_import)
  show "build_workbook_bytes duplicate_type_db 7 = Inr duplicate_type_export"
    by (rule duplicate_type_exported)
  show "parse_result_tab p duplicate_type_workbook ''Encounter - A1'' =
         Inr (''uniform'', [\<lparr>e_min = None, e_max = None, e_weight = None, e_result = ''Dragon''\<rparr>],
              None, [])"
    by (simp add: duplicate_type_workbook_def sheet_eval parse_eval)
  show "parse_result_tab p duplicate_type_export ''Encounter - A1'' =
         Inr (''uniform'', [\<lparr>e_min = None, e_max = None, e_weight = None, e_result = ''Goblin''\<rparr>],
              None, [])"
    by (simp add: duplicate_type_export_def sheet_eval parse_eval)
qed

end
